theory Spec2Isabelle
  imports Complex_Main "HOL-Library.Multiset"
begin

section \<open>The dungeon adventure engine of \<^verbatim>\<open>src/game.js\<close>\<close>

text \<open>
  The engine's numbers are JavaScript numbers. Every value of the player (level, experience,
  health, stats, stat points) and the health and experience reward of an enemy is an
  integer at all times and is modelled as \<open>int\<close>; an enemy's strength, defense and agility
  come from templates that multiply the level by 1.5 or 2.5 and are modelled as \<open>real\<close>,
  as are probabilities. Rounding of IEEE doubles is not modelled.

  A call of \<^verbatim>\<open>Math.random()\<close> is a parameter of type \<open>rnd\<close>, a real in \<open>[0, 1)\<close>.
\<close>

typedef rnd = "{r::real. 0 \<le> r \<and> r < 1}"
  by (rule exI[of _ 0]) simp

subsection \<open>Configuration and utilities\<close>

definition INVENTORY_SLOTS :: int where
  "INVENTORY_SLOTS = 15"

definition BASE_STAT_POINTS :: int where
  "BASE_STAT_POINTS = 3"

definition XP_CURVE_MULTIPLIER :: real where
  "XP_CURVE_MULTIPLIER = 100"

definition ESCAPE_BASE_CHANCE :: real where
  "ESCAPE_BASE_CHANCE = 0.3"

datatype GAME_STATES = MENU | EXPLORING | COMBAT | SCENARIO | INVENTORY | LEVEL_UP | GAME_OVER | VICTORY

text \<open>\<^verbatim>\<open>randomInt(min, max) = Math.floor(Math.random() * (max - min + 1)) + min\<close>\<close>

definition randomInt :: "rnd \<Rightarrow> int \<Rightarrow> int \<Rightarrow> int" where
  "randomInt r lo hi = \<lfloor>Rep_rnd r * real_of_int (hi - lo + 1)\<rfloor> + lo"

text \<open>
  \<^verbatim>\<open>randomChoice(array) = array[Math.floor(Math.random() * array.length)]\<close>. The
  index is below the length of every array that is not empty (\<open>randomChoice_index\<close>
  below); the source calls it on literal arrays and on a loot list it has found non-empty.
\<close>

definition randomChoice :: "rnd \<Rightarrow> 'a list \<Rightarrow> 'a" where
  "randomChoice r xs = xs ! nat \<lfloor>Rep_rnd r * real (length xs)\<rfloor>"

text \<open>
  \<^verbatim>\<open>calculateXPForLevel(level) = Math.floor(100 * Math.pow(level, 1.5))\<close>. Levels are
  positive; \<^verbatim>\<open>Math.pow\<close> of a negative base is \<^verbatim>\<open>NaN\<close> and is outside the model.
\<close>

definition calculateXPForLevel :: "int \<Rightarrow> int" where
  "calculateXPForLevel lvl = \<lfloor>XP_CURVE_MULTIPLIER * (real_of_int lvl) powr 1.5\<rfloor>"

text \<open>\<^verbatim>\<open>x || 0\<close> on a property that may be missing.\<close>

definition or0 :: "int option \<Rightarrow> int" where
  "or0 v = (case v of None \<Rightarrow> 0 | Some n \<Rightarrow> n)"

subsection \<open>Items\<close>

text \<open>
  An item's effect is either an object of stat bonuses or a function on the player. The
  two functions of \<^verbatim>\<open>ITEM_TEMPLATES\<close> are named by a constructor each and run by
  \<open>runEffect\<close> below. Items are shared template objects compared by reference; the
  templates differ pairwise in their fields, so equality of records is their identity.
\<close>

datatype effectFn = RestoreHealth | BoostStrength

datatype itemEffect = StatBonus "(string \<times> int) list" | EffectFunction effectFn

record Item =
  name :: string
  type :: string
  description :: string
  effect :: itemEffect

definition rustyDagger :: Item where
  "rustyDagger = \<lparr>name = ''Rusty Dagger'', type = ''weapon'', description = ''A worn blade'',
     effect = StatBonus [(''strength'', 2)]\<rparr>"

definition ironSword :: Item where
  "ironSword = \<lparr>name = ''Iron Sword'', type = ''weapon'', description = ''A reliable weapon'',
     effect = StatBonus [(''strength'', 5)]\<rparr>"

definition flameBlade :: Item where
  "flameBlade = \<lparr>name = ''Flame Blade'', type = ''weapon'', description = ''Burns with inner fire'',
     effect = StatBonus [(''strength'', 8), (''intelligence'', 3)]\<rparr>"

definition shadowDagger :: Item where
  "shadowDagger = \<lparr>name = ''Shadow Dagger'', type = ''weapon'', description = ''Strikes from darkness'',
     effect = StatBonus [(''strength'', 6), (''agility'', 4)]\<rparr>"

definition leatherArmor :: Item where
  "leatherArmor = \<lparr>name = ''Leather Armor'', type = ''armor'', description = ''Basic protection'',
     effect = StatBonus [(''defense'', 3)]\<rparr>"

definition chainmail :: Item where
  "chainmail = \<lparr>name = ''Chainmail'', type = ''armor'', description = ''Solid metal links'',
     effect = StatBonus [(''defense'', 6)]\<rparr>"

definition crystalPlate :: Item where
  "crystalPlate = \<lparr>name = ''Crystal Plate'', type = ''armor'', description = ''Magical protection'',
     effect = StatBonus [(''defense'', 8), (''intelligence'', 2)]\<rparr>"

definition healthPotion :: Item where
  "healthPotion = \<lparr>name = ''Health Potion'', type = ''consumable'', description = ''Restores 30 HP'',
     effect = EffectFunction RestoreHealth\<rparr>"

definition strengthElixir :: Item where
  "strengthElixir = \<lparr>name = ''Strength Elixir'', type = ''consumable'', description = ''Temporarily +5 STR'',
     effect = EffectFunction BoostStrength\<rparr>"

definition luckyCoin :: Item where
  "luckyCoin = \<lparr>name = ''Lucky Coin'', type = ''artifact'', description = ''Improves fortune'',
     effect = StatBonus [(''agility'', 2)]\<rparr>"

definition ancientTome :: Item where
  "ancientTome = \<lparr>name = ''Ancient Tome'', type = ''artifact'', description = ''Contains knowledge'',
     effect = StatBonus [(''intelligence'', 4)]\<rparr>"

subsection \<open>Inventory\<close>

record Equipped =
  weapon :: "Item option"
  armor :: "Item option"
  artifact :: "Item option"

record Inventory =
  items :: "Item list"
  maxSlots :: int
  equipped :: Equipped

text \<open>
  \<^verbatim>\<open>this.equipped[slot]\<close>: a read of a name that is not a slot gives \<^verbatim>\<open>undefined\<close>
  (names inherited from \<^verbatim>\<open>Object.prototype\<close> are never passed and are not modelled),
  a write to a slot replaces its value.
\<close>

definition getSlot :: "string \<Rightarrow> Equipped \<Rightarrow> Item option" where
  "getSlot slot eq =
     (if slot = ''weapon'' then weapon eq
      else if slot = ''armor'' then armor eq
      else if slot = ''artifact'' then artifact eq
      else None)"

definition setSlot :: "string \<Rightarrow> Item option \<Rightarrow> Equipped \<Rightarrow> Equipped" where
  "setSlot slot v eq =
     (if slot = ''weapon'' then eq\<lparr>weapon := v\<rparr>
      else if slot = ''armor'' then eq\<lparr>armor := v\<rparr>
      else if slot = ''artifact'' then eq\<lparr>artifact := v\<rparr>
      else eq)"

definition Inventory_new :: "int \<Rightarrow> Inventory" where
  "Inventory_new n = \<lparr>items = [], maxSlots = n,
     equipped = \<lparr>weapon = None, armor = None, artifact = None\<rparr>\<rparr>"

definition addItem :: "Item \<Rightarrow> Inventory \<Rightarrow> bool \<times> Inventory" where
  "addItem item ivt =
     (if int (length (items ivt)) \<ge> maxSlots ivt then (False, ivt)
      else (True, ivt\<lparr>items := items ivt @ [item]\<rparr>))"

text \<open>\<^verbatim>\<open>indexOf\<close> finds the first occurrence and \<^verbatim>\<open>splice(index, 1)\<close> removes it.\<close>

definition removeItem :: "Item \<Rightarrow> Inventory \<Rightarrow> bool \<times> Inventory" where
  "removeItem item ivt =
     (if item \<in> set (items ivt) then (True, ivt\<lparr>items := remove1 item (items ivt)\<rparr>)
      else (False, ivt))"

definition slotOfType :: "string \<Rightarrow> string option" where
  "slotOfType t =
     (if t = ''weapon'' then Some ''weapon''
      else if t = ''armor'' then Some ''armor''
      else if t = ''artifact'' then Some ''artifact''
      else None)"

definition equip :: "Item \<Rightarrow> Inventory \<Rightarrow> bool \<times> Inventory" where
  "equip item ivt =
     (if item \<notin> set (items ivt) then (False, ivt)
      else case slotOfType (Item.type item) of
        Some slot \<Rightarrow>
          (let inv1 = (case getSlot slot (equipped ivt) of
                         Some old \<Rightarrow> snd (addItem old ivt)
                       | None \<Rightarrow> ivt);
               inv2 = inv1\<lparr>equipped := setSlot slot (Some item) (equipped inv1)\<rparr>;
               inv3 = snd (removeItem item inv2)
           in (True, inv3))
      | None \<Rightarrow> (False, ivt))"

definition unequip :: "string \<Rightarrow> Inventory \<Rightarrow> bool \<times> Inventory" where
  "unequip slot ivt =
     (case getSlot slot (equipped ivt) of
        Some item \<Rightarrow>
          (let inv1 = ivt\<lparr>equipped := setSlot slot None (equipped ivt)\<rparr>;
               inv2 = snd (addItem item inv1)
           in (True, inv2))
      | None \<Rightarrow> (False, ivt))"

text \<open>
  \<^verbatim>\<open>getEquippedStats\<close> starts from the four stats at 0 and adds, for each equipped item
  whose effect is an object, each entry of the effect; the slots are visited in the order
  weapon, armor, artifact.
\<close>

definition addBonus :: "(string \<times> int) list \<Rightarrow> (string \<rightharpoonup> int) \<Rightarrow> (string \<rightharpoonup> int)" where
  "addBonus eff stats = fold (\<lambda>(stat, v) m. m(stat \<mapsto> or0 (m stat) + v)) eff stats"

definition addEquippedItem :: "Item option \<Rightarrow> (string \<rightharpoonup> int) \<Rightarrow> (string \<rightharpoonup> int)" where
  "addEquippedItem slotValue stats =
     (case slotValue of
        None \<Rightarrow> stats
      | Some item \<Rightarrow> (case effect item of
                       StatBonus eff \<Rightarrow> addBonus eff stats
                     | EffectFunction f \<Rightarrow> stats))"

definition getEquippedStats :: "Inventory \<Rightarrow> (string \<rightharpoonup> int)" where
  "getEquippedStats ivt =
     fold addEquippedItem
       [weapon (equipped ivt), armor (equipped ivt), artifact (equipped ivt)]
       [''strength'' \<mapsto> 0, ''defense'' \<mapsto> 0, ''agility'' \<mapsto> 0, ''intelligence'' \<mapsto> 0]"

subsection \<open>Player\<close>

record Stats =
  strength :: int
  defense :: int
  agility :: int
  intelligence :: int

record Player =
  level :: int
  xp :: int
  health :: int
  maxHealth :: int
  baseStats :: Stats
  statPoints :: int
  tempStats :: "string \<rightharpoonup> int"
  inventory :: Inventory
  chosenPath :: "string option"

definition Player_new :: Player where
  "Player_new =
     \<lparr>level = 1, xp = 0, health = 100, maxHealth = 100,
      baseStats = \<lparr>strength = 5, defense = 5, agility = 5, intelligence = 5\<rparr>,
      statPoints = 0, tempStats = Map.empty,
      inventory = snd (addItem healthPotion (snd (addItem rustyDagger (Inventory_new INVENTORY_SLOTS)))),
      chosenPath = None\<rparr>"

definition getTotalStats :: "Player \<Rightarrow> Stats" where
  "getTotalStats p =
     (let eq = getEquippedStats (inventory p); b = baseStats p; t = tempStats p
      in \<lparr>strength = strength b + or0 (eq ''strength'') + or0 (t ''strength''),
          defense = defense b + or0 (eq ''defense'') + or0 (t ''defense''),
          agility = agility b + or0 (eq ''agility'') + or0 (t ''agility''),
          intelligence = intelligence b + or0 (eq ''intelligence'') + or0 (t ''intelligence'')\<rparr>)"

definition levelUp :: "Player \<Rightarrow> Player" where
  "levelUp p =
     (let p1 = p\<lparr>level := level p + 1\<rparr>;
          p2 = p1\<lparr>statPoints := statPoints p1 + BASE_STAT_POINTS\<rparr>;
          b = baseStats p2;
          p3 = p2\<lparr>baseStats := \<lparr>strength = strength b + 1, defense = defense b + 1,
                                 agility = agility b + 1, intelligence = intelligence b + 1\<rparr>\<rparr>;
          p4 = p3\<lparr>maxHealth := maxHealth p3 + 10\<rparr>
      in p4\<lparr>health := maxHealth p4\<rparr>)"

definition addXP :: "int \<Rightarrow> Player \<Rightarrow> bool \<times> Player" where
  "addXP amount p =
     (let p1 = p\<lparr>xp := xp p + amount\<rparr>;
          xpNeeded = calculateXPForLevel (level p1 + 1)
      in if xp p1 \<ge> xpNeeded then (True, levelUp p1) else (False, p1))"

text \<open>\<^verbatim>\<open>this.baseStats.hasOwnProperty(stat)\<close> and \<^verbatim>\<open>this.baseStats[stat] += 1\<close>.\<close>

definition hasStat :: "string \<Rightarrow> bool" where
  "hasStat stat \<longleftrightarrow> stat \<in> set [''strength'', ''defense'', ''agility'', ''intelligence'']"

definition incStat :: "string \<Rightarrow> int \<Rightarrow> Stats \<Rightarrow> Stats" where
  "incStat stat n b =
     (if stat = ''strength'' then b\<lparr>strength := strength b + n\<rparr>
      else if stat = ''defense'' then b\<lparr>defense := defense b + n\<rparr>
      else if stat = ''agility'' then b\<lparr>agility := agility b + n\<rparr>
      else if stat = ''intelligence'' then b\<lparr>intelligence := intelligence b + n\<rparr>
      else b)"

definition allocateStat :: "string \<Rightarrow> Player \<Rightarrow> bool \<times> Player" where
  "allocateStat stat p =
     (if statPoints p > 0 \<and> hasStat stat
      then (True, p\<lparr>baseStats := incStat stat 1 (baseStats p), statPoints := statPoints p - 1\<rparr>)
      else (False, p))"

definition Player_takeDamage :: "int \<Rightarrow> Player \<Rightarrow> int \<times> Player" where
  "Player_takeDamage amount p =
     (let stats = getTotalStats p;
          reduction = \<lfloor>real_of_int (defense stats) * 0.5\<rfloor>;
          damage = max 1 (amount - reduction)
      in (damage, p\<lparr>health := max 0 (health p - damage)\<rparr>))"

definition Player_calculateDamage :: "rnd \<Rightarrow> Player \<Rightarrow> int" where
  "Player_calculateDamage r p =
     (let stats = getTotalStats p;
          baseDamage = strength stats * 2;
          variance = randomInt r (-2) 3
      in max 1 (baseDamage + variance))"

definition calculateSpecialDamage :: "rnd \<Rightarrow> Player \<Rightarrow> int" where
  "calculateSpecialDamage r p =
     (let stats = getTotalStats p;
          baseDamage = real_of_int (strength stats) + real_of_int (intelligence stats) * 1.5;
          variance = randomInt r (-3) 5
      in max 1 \<lfloor>baseDamage + real_of_int variance\<rfloor>)"

definition Player_getDodgeChance :: "Player \<Rightarrow> real" where
  "Player_getDodgeChance p =
     (let stats = getTotalStats p in min 0.4 (real_of_int (agility stats) * 0.02))"

definition Player_isAlive :: "Player \<Rightarrow> bool" where
  "Player_isAlive p \<longleftrightarrow> health p > 0"

text \<open>The two effect functions of the consumables, and \<^verbatim>\<open>Item.use\<close>, whose \<^verbatim>\<open>false\<close> is \<open>None\<close>.\<close>

definition runEffect :: "effectFn \<Rightarrow> Player \<Rightarrow> string \<times> Player" where
  "runEffect f p =
     (case f of
        RestoreHealth \<Rightarrow> (''Restored 30 HP'', p\<lparr>health := min (maxHealth p) (health p + 30)\<rparr>)
      | BoostStrength \<Rightarrow>
          (''Strength increased by 5'',
           p\<lparr>tempStats := (tempStats p)(''strength'' \<mapsto> or0 (tempStats p ''strength'') + 5)\<rparr>))"

definition use :: "Item \<Rightarrow> Player \<Rightarrow> string option \<times> Player" where
  "use item p =
     (case effect item of
        EffectFunction f \<Rightarrow>
          (if Item.type item = ''consumable''
           then (let (msg, p') = runEffect f p in (Some msg, p'))
           else (None, p))
      | StatBonus eff \<Rightarrow> (None, p))"

subsection \<open>Enemy\<close>

record Enemy =
  name :: string
  level :: int
  type :: string
  maxHealth :: int
  health :: int
  strength :: real
  defense :: real
  agility :: real
  xpReward :: int
  loot :: "Item list"

definition Enemy_takeDamage :: "int \<Rightarrow> Enemy \<Rightarrow> int \<times> Enemy" where
  "Enemy_takeDamage amount e =
     (let reduction = \<lfloor>Enemy.defense e * 0.5\<rfloor>;
          damage = max 1 (amount - reduction)
      in (damage, e\<lparr>Enemy.health := max 0 (Enemy.health e - damage)\<rparr>))"

definition Enemy_calculateDamage :: "rnd \<Rightarrow> Enemy \<Rightarrow> int" where
  "Enemy_calculateDamage r e =
     (let baseDamage = Enemy.strength e * 1.5;
          variance = randomInt r (-2) 2
      in max 1 \<lfloor>baseDamage + real_of_int variance\<rfloor>)"

definition Enemy_getDodgeChance :: "Enemy \<Rightarrow> real" where
  "Enemy_getDodgeChance e = min 0.3 (Enemy.agility e * 0.015)"

text \<open>
  \<^verbatim>\<open>chooseAction\<close> divides by the player's maximum health, which is at least 100 in
  every game.
\<close>

definition chooseAction :: "rnd \<Rightarrow> Player \<Rightarrow> Enemy \<Rightarrow> string" where
  "chooseAction r p e =
     (let playerHealthPercent = real_of_int (Player.health p) / real_of_int (Player.maxHealth p);
          rand = Rep_rnd r
      in if playerHealthPercent < 0.3 \<and> rand < 0.7 then ''attack''
         else if playerHealthPercent > 0.7 \<and> rand < 0.3 then ''special''
         else ''attack'')"

definition Enemy_isAlive :: "Enemy \<Rightarrow> bool" where
  "Enemy_isAlive e \<longleftrightarrow> Enemy.health e > 0"

text \<open>
  The templates build an enemy of a level through the constructor, which copies the
  health into both \<^verbatim>\<open>maxHealth\<close> and \<^verbatim>\<open>health\<close>.
\<close>

definition goblin :: "int \<Rightarrow> Enemy" where
  "goblin lvl = \<lparr>name = ''Goblin'', level = lvl, type = ''light'',
     maxHealth = 30 + lvl * 5, health = 30 + lvl * 5,
     strength = 3 + real_of_int lvl, defense = 2 + real_of_int lvl, agility = 4 + real_of_int lvl,
     xpReward = 20 + lvl * 5, loot = [healthPotion]\<rparr>"

definition knight :: "int \<Rightarrow> Enemy" where
  "knight lvl = \<lparr>name = ''Corrupted Knight'', level = lvl, type = ''light'',
     maxHealth = 50 + lvl * 8, health = 50 + lvl * 8,
     strength = 6 + real_of_int lvl * 2, defense = 5 + real_of_int lvl * 2, agility = 2 + real_of_int lvl,
     xpReward = 40 + lvl * 8, loot = [ironSword, chainmail]\<rparr>"

definition lightGuardian :: "int \<Rightarrow> Enemy" where
  "lightGuardian lvl = \<lparr>name = ''Light Guardian'', level = lvl, type = ''light'',
     maxHealth = 80 + lvl * 10, health = 80 + lvl * 10,
     strength = 8 + real_of_int lvl * 2, defense = 6 + real_of_int lvl * 2, agility = 3 + real_of_int lvl,
     xpReward = 60 + lvl * 10, loot = [flameBlade, crystalPlate]\<rparr>"

definition shadowBeast :: "int \<Rightarrow> Enemy" where
  "shadowBeast lvl = \<lparr>name = ''Shadow Beast'', level = lvl, type = ''shadow'',
     maxHealth = 35 + lvl * 6, health = 35 + lvl * 6,
     strength = 5 + real_of_int lvl * 1.5, defense = 3 + real_of_int lvl, agility = 6 + real_of_int lvl * 1.5,
     xpReward = 25 + lvl * 6, loot = [healthPotion, luckyCoin]\<rparr>"

definition darkMage :: "int \<Rightarrow> Enemy" where
  "darkMage lvl = \<lparr>name = ''Dark Mage'', level = lvl, type = ''shadow'',
     maxHealth = 40 + lvl * 7, health = 40 + lvl * 7,
     strength = 4 + real_of_int lvl, defense = 3 + real_of_int lvl, agility = 5 + real_of_int lvl,
     xpReward = 45 + lvl * 9, loot = [ancientTome, strengthElixir]\<rparr>"

definition shadowLord :: "int \<Rightarrow> Enemy" where
  "shadowLord lvl = \<lparr>name = ''Shadow Lord'', level = lvl, type = ''shadow'',
     maxHealth = 100 + lvl * 12, health = 100 + lvl * 12,
     strength = 10 + real_of_int lvl * 2.5, defense = 7 + real_of_int lvl * 2, agility = 8 + real_of_int lvl * 2,
     xpReward = 80 + lvl * 15, loot = [shadowDagger, ancientTome]\<rparr>"

definition ENEMY_TEMPLATES :: "string \<Rightarrow> (int \<Rightarrow> Enemy) option" where
  "ENEMY_TEMPLATES k =
     (if k = ''goblin'' then Some goblin
      else if k = ''knight'' then Some knight
      else if k = ''lightGuardian'' then Some lightGuardian
      else if k = ''shadowBeast'' then Some shadowBeast
      else if k = ''darkMage'' then Some darkMage
      else if k = ''shadowLord'' then Some shadowLord
      else None)"

subsection \<open>Numbers in messages\<close>

text \<open>The decimal text of an integer, as template literals print it.\<close>

function showNat :: "nat \<Rightarrow> string" where
  "showNat n =
     (if n < 10 then [''0123456789'' ! n]
      else showNat (n div 10) @ [''0123456789'' ! (n mod 10)])"
  by pat_completeness auto
termination
  by (relation "measure id") auto

definition showInt :: "int \<Rightarrow> string" where
  "showInt i = (if i < 0 then ''-'' @ showNat (nat (- i)) else showNat (nat i))"

subsection \<open>Combat system\<close>

record CombatSystem =
  combatLog :: "string list"
  playerTurn :: bool
  turnCount :: int

definition CombatSystem_new :: CombatSystem where
  "CombatSystem_new = \<lparr>combatLog = [], playerTurn = True, turnCount = 0\<rparr>"

definition addLog :: "string \<Rightarrow> CombatSystem \<Rightarrow> CombatSystem" where
  "addLog message cs =
     (let lg = combatLog cs @ [message]
      in cs\<lparr>combatLog := (if length lg > 8 then tl lg else lg)\<rparr>)"

definition CombatSystem_startCombat :: "Player \<Rightarrow> Enemy \<Rightarrow> CombatSystem \<Rightarrow> CombatSystem" where
  "CombatSystem_startCombat p e cs =
     (let cs1 = cs\<lparr>combatLog := [], playerTurn := True, turnCount := 0\<rparr>;
          cs2 = addLog (''Combat started with '' @ Enemy.name e @ ''!'') cs1;
          playerStats = getTotalStats p
      in if Enemy.agility e > real_of_int (Stats.agility playerStats)
         then addLog (Enemy.name e @ '' strikes first!'') (cs2\<lparr>playerTurn := False\<rparr>)
         else cs2)"

text \<open>
  The attacks return \<^verbatim>\<open>{ hit, damage }\<close>, here a pair, with the combatant they changed
  and the combat system, whose log they extend. The first draw is the variance of the
  damage, the second the dodge roll.
\<close>

definition playerAttack ::
  "rnd \<Rightarrow> rnd \<Rightarrow> Player \<Rightarrow> Enemy \<Rightarrow> CombatSystem \<Rightarrow> (bool \<times> int) \<times> Enemy \<times> CombatSystem" where
  "playerAttack rDamage rDodge p e cs =
     (let damage = Player_calculateDamage rDamage p
      in if Rep_rnd rDodge < Enemy_getDodgeChance e
         then ((False, 0), e, addLog (Enemy.name e @ '' dodged your attack!'') cs)
         else (let (actualDamage, e') = Enemy_takeDamage damage e
               in ((True, actualDamage), e',
                   addLog (''You dealt '' @ showInt actualDamage @ '' damage to '' @ Enemy.name e @ ''!'') cs)))"

definition playerSpecialAttack ::
  "rnd \<Rightarrow> rnd \<Rightarrow> Player \<Rightarrow> Enemy \<Rightarrow> CombatSystem \<Rightarrow> (bool \<times> int) \<times> Enemy \<times> CombatSystem" where
  "playerSpecialAttack rDamage rDodge p e cs =
     (let damage = calculateSpecialDamage rDamage p
      in if Rep_rnd rDodge < Enemy_getDodgeChance e * 0.5
         then ((False, 0), e, addLog (Enemy.name e @ '' dodged your special attack!'') cs)
         else (let (actualDamage, e') = Enemy_takeDamage damage e
               in ((True, actualDamage), e',
                   addLog (''Your special attack dealt '' @ showInt actualDamage @ '' damage!'') cs)))"

definition enemyTurn ::
  "rnd \<Rightarrow> rnd \<Rightarrow> rnd \<Rightarrow> Player \<Rightarrow> Enemy \<Rightarrow> CombatSystem \<Rightarrow> (bool \<times> int) \<times> Player \<times> CombatSystem" where
  "enemyTurn rAI rDamage rDodge p e cs =
     (let act = chooseAction rAI p e
      in if act = ''special''
         then (let damage = \<lfloor>real_of_int (Enemy_calculateDamage rDamage e) * 1.5\<rfloor>
               in if Rep_rnd rDodge < Player_getDodgeChance p * 0.7
                  then ((False, 0), p,
                        addLog (''You dodged '' @ Enemy.name e @ [CHR 0x27] @ ''s special attack!'') cs)
                  else (let (actualDamage, p') = Player_takeDamage damage p
                        in ((True, actualDamage), p',
                            addLog (Enemy.name e @ [CHR 0x27] @ ''s special attack dealt ''
                                    @ showInt actualDamage @ '' damage!'') cs)))
         else (let damage = Enemy_calculateDamage rDamage e
               in if Rep_rnd rDodge < Player_getDodgeChance p
                  then ((False, 0), p,
                        addLog (''You dodged '' @ Enemy.name e @ [CHR 0x27] @ ''s attack!'') cs)
                  else (let (actualDamage, p') = Player_takeDamage damage p
                        in ((True, actualDamage), p',
                            addLog (Enemy.name e @ '' dealt '' @ showInt actualDamage @ '' damage!'') cs))))"

text \<open>\<^verbatim>\<open>attemptEscape\<close> is given the enemy and does not read it.\<close>

definition attemptEscape :: "rnd \<Rightarrow> Player \<Rightarrow> Enemy option \<Rightarrow> CombatSystem \<Rightarrow> bool \<times> CombatSystem" where
  "attemptEscape r p e cs =
     (let playerStats = getTotalStats p;
          escapeChance = ESCAPE_BASE_CHANCE + real_of_int (Stats.agility playerStats) * 0.02
      in if Rep_rnd r < escapeChance then (True, addLog ''You successfully escaped!'' cs)
         else (False, addLog ''Escape failed!'' cs))"

definition endTurn :: "CombatSystem \<Rightarrow> CombatSystem" where
  "endTurn cs = cs\<lparr>playerTurn := \<not> playerTurn cs, turnCount := turnCount cs + 1\<rparr>"

subsection \<open>Scenarios\<close>

text \<open>
  The action of a choice is a function of the game; each function of the catalogue is named
  by a constructor and run by \<open>runAction\<close> below. A narrative scenario has choices; an
  encounter built by the scenario manager has the flag \<^verbatim>\<open>combat\<close>, an enemy and, for the
  boss, the flag \<^verbatim>\<open>isBoss\<close>. A property that an object lacks reads as \<^verbatim>\<open>undefined\<close>:
  \<open>False\<close> for a flag, \<open>None\<close> for the enemy, no choices.
\<close>

datatype choiceAction =
    TakeLight | TakeShadow
  | ShrinePray | ShrineSearch | ShrineContinue
  | TreasureSword | TreasureArmor | TreasureLeave
  | RitualStep | RitualStudy | RitualDestroy
  | AmbushPrepare | AmbushStealth | AmbushCharge

text \<open>The field \<^verbatim>\<open>text\<close> of a choice is \<open>choiceText\<close>.\<close>

record Choice =
  choiceText :: string
  action :: choiceAction

record Scenario =
  title :: string
  description :: string
  choices :: "Choice list"
  combat :: bool
  enemy :: "Enemy option"
  isBoss :: bool

definition Scenario_new :: "string \<Rightarrow> string \<Rightarrow> Choice list \<Rightarrow> Scenario" where
  "Scenario_new t d cs = \<lparr>title = t, description = d, choices = cs, combat = False, enemy = None, isBoss = False\<rparr>"

definition entrance :: Scenario where
  "entrance = Scenario_new ''The Dungeon Entrance''
     ''You stand before a massive dungeon entrance. Two paths stretch before you: a bright corridor filled with golden light, and a dark passage shrouded in shadow.''
     [\<lparr>choiceText = ''Take the Path of Light'', action = TakeLight\<rparr>,
      \<lparr>choiceText = ''Take the Path of Shadow'', action = TakeShadow\<rparr>]"

definition lightShrine :: Scenario where
  "lightShrine = Scenario_new ''Ancient Shrine''
     ''You discover a shrine bathed in light. An offering bowl sits before a statue.''
     [\<lparr>choiceText = ''Offer a prayer (costs 10 HP)'', action = ShrinePray\<rparr>,
      \<lparr>choiceText = ''Search for treasure'', action = ShrineSearch\<rparr>,
      \<lparr>choiceText = ''Continue forward'', action = ShrineContinue\<rparr>]"

definition lightTreasure :: Scenario where
  "lightTreasure = Scenario_new ''Golden Chamber''
     ''A room filled with treasures! But they may be cursed...''
     [\<lparr>choiceText = ''Take the golden sword'', action = TreasureSword\<rparr>,
      \<lparr>choiceText = ''Take the armor'', action = TreasureArmor\<rparr>,
      \<lparr>choiceText = ''Leave it alone'', action = TreasureLeave\<rparr>]"

definition shadowRitual :: Scenario where
  "shadowRitual = Scenario_new ''Ritual Chamber''
     ''Dark symbols cover the walls. A ritual circle pulses with energy.''
     [\<lparr>choiceText = ''Step into the circle'', action = RitualStep\<rparr>,
      \<lparr>choiceText = ''Study the symbols'', action = RitualStudy\<rparr>,
      \<lparr>choiceText = ''Destroy the circle'', action = RitualDestroy\<rparr>]"

definition shadowAmbush :: Scenario where
  "shadowAmbush = Scenario_new ''Dark Ambush''
     ''Shadows move unnaturally. You sense danger!''
     [\<lparr>choiceText = ''Prepare for combat'', action = AmbushPrepare\<rparr>,
      \<lparr>choiceText = ''Use stealth (requires 10+ Agility)'', action = AmbushStealth\<rparr>,
      \<lparr>choiceText = ''Charge forward'', action = AmbushCharge\<rparr>]"

definition SCENARIOS :: "string \<Rightarrow> Scenario option" where
  "SCENARIOS k =
     (if k = ''entrance'' then Some entrance
      else if k = ''lightShrine'' then Some lightShrine
      else if k = ''lightTreasure'' then Some lightTreasure
      else if k = ''shadowRitual'' then Some shadowRitual
      else if k = ''shadowAmbush'' then Some shadowAmbush
      else None)"

subsection \<open>Scenario manager\<close>

record ScenarioManager =
  currentPath :: "string option"
  scenarioIndex :: nat
  currentScenario :: Scenario

text \<open>The two sequences are set by the constructor and never assigned again.\<close>

definition lightPathSequence :: "string list" where
  "lightPathSequence = [''lightShrine'', ''combat'', ''lightTreasure'', ''combat'', ''bossCombat'']"

definition shadowPathSequence :: "string list" where
  "shadowPathSequence = [''shadowRitual'', ''combat'', ''shadowAmbush'', ''combat'', ''bossCombat'']"

definition ScenarioManager_new :: ScenarioManager where
  "ScenarioManager_new = \<lparr>currentPath = None, scenarioIndex = 0, currentScenario = entrance\<rparr>"

definition ScenarioManager_reset :: "ScenarioManager \<Rightarrow> ScenarioManager" where
  "ScenarioManager_reset sm = sm\<lparr>currentPath := None, scenarioIndex := 0, currentScenario := entrance\<rparr>"

text \<open>\<^verbatim>\<open>!this.currentPath\<close>: \<^verbatim>\<open>null\<close> and the empty string are falsy.\<close>

definition pathChosen :: "string option \<Rightarrow> bool" where
  "pathChosen p = (case p of None \<Rightarrow> False | Some s \<Rightarrow> s \<noteq> [])"

text \<open>
  The encounters read the level of the player of the game they are given. The template
  names are the literals of the source, so the lookup in \<^verbatim>\<open>ENEMY_TEMPLATES\<close> is defined.
\<close>

definition createCombatScenario :: "rnd \<Rightarrow> int \<Rightarrow> ScenarioManager \<Rightarrow> Scenario" where
  "createCombatScenario r lvl sm =
     (let enemyType = (if currentPath sm = Some ''light''
                       then randomChoice r [''goblin'', ''knight'']
                       else randomChoice r [''shadowBeast'', ''darkMage'']);
          e = the (ENEMY_TEMPLATES enemyType) lvl
      in \<lparr>title = ''Enemy Encounter!'',
          description = ''A '' @ Enemy.name e @ '' blocks your path!'',
          choices = [], combat = True, enemy = Some e, isBoss = False\<rparr>)"

definition createBossScenario :: "int \<Rightarrow> ScenarioManager \<Rightarrow> Scenario" where
  "createBossScenario lvl sm =
     (let bossType = (if currentPath sm = Some ''light'' then ''lightGuardian'' else ''shadowLord'');
          boss = the (ENEMY_TEMPLATES bossType) (lvl + 1)
      in \<lparr>title = ''BOSS BATTLE!'',
          description = ''The '' @ Enemy.name boss @ '' emerges!'',
          choices = [], combat = True, enemy = Some boss, isBoss = True\<rparr>)"

text \<open>
  \<^verbatim>\<open>getNextScenario\<close> returns the scenario, \<open>None\<close> for \<^verbatim>\<open>null\<close>, and the manager
  with its cursor.
\<close>

definition getNextScenario :: "rnd \<Rightarrow> int \<Rightarrow> ScenarioManager \<Rightarrow> Scenario option \<times> ScenarioManager" where
  "getNextScenario r lvl sm =
     (if \<not> pathChosen (currentPath sm) then (Some entrance, sm)
      else
        (let sequence = (if currentPath sm = Some ''light'' then lightPathSequence else shadowPathSequence)
         in if scenarioIndex sm \<ge> length sequence then (None, sm)
            else
              (let scenarioType = sequence ! scenarioIndex sm;
                   sm' = sm\<lparr>scenarioIndex := scenarioIndex sm + 1\<rparr>
               in if scenarioType = ''combat'' then (Some (createCombatScenario r lvl sm'), sm')
                  else if scenarioType = ''bossCombat'' then (Some (createBossScenario lvl sm'), sm')
                  else (SCENARIOS scenarioType, sm'))))"

subsection \<open>Game\<close>

text \<open>
  The game holds the state of the controller. The canvas, the key table and the time of
  the last key press serve rendering and the 200 ms debounce and are left out: the model
  takes the key events that pass the debounce. \<open>timers\<close> counts the enemy-turn
  callbacks handed to \<^verbatim>\<open>setTimeout\<close> that have not run yet.

  The enemy of the current scenario and the current enemy are one object in the source;
  the model keeps two copies, and only the current enemy is read once combat has started.

  A handler that reads a property of \<^verbatim>\<open>null\<close> or \<^verbatim>\<open>undefined\<close> throws a
  \<^verbatim>\<open>TypeError\<close>; such a handler returns an option, and \<open>None\<close> is the throw.
\<close>

record Game =
  state :: GAME_STATES
  player :: Player
  combatSystem :: CombatSystem
  scenarioManager :: ScenarioManager
  currentEnemy :: "Enemy option"
  currentScenario :: "Scenario option"
  selectedOption :: int
  inventorySelection :: int
  statSelection :: int
  messageLog :: "string list"
  gameResult :: "string option"
  timers :: nat

text \<open>
  The draws of \<^verbatim>\<open>Math.random()\<close> that one event can make, one field for each use: the
  variance of a damage, a dodge roll, the escape roll, the enemy's choice of action, the
  loot, the enemy of the next encounter, and the draw of a scenario choice.
\<close>

record Draws =
  dDamage :: rnd
  dDodge :: rnd
  dEscape :: rnd
  dAI :: rnd
  dLoot :: rnd
  dEncounter :: rnd
  dScenario :: rnd

definition Game_new :: Game where
  "Game_new = \<lparr>state = MENU, player = Player_new, combatSystem = CombatSystem_new,
     scenarioManager = ScenarioManager_new, currentEnemy = None, currentScenario = None,
     selectedOption = 0, inventorySelection = 0, statSelection = 0,
     messageLog = [], gameResult = None, timers = 0\<rparr>"

definition addMessage :: "string \<Rightarrow> Game \<Rightarrow> Game" where
  "addMessage msg g =
     (let lg = messageLog g @ [msg]
      in g\<lparr>messageLog := (if length lg > 5 then tl lg else lg)\<rparr>)"

text \<open>The actions of the scenario catalogue; each returns its message.\<close>

definition runAction :: "rnd \<Rightarrow> choiceAction \<Rightarrow> Game \<Rightarrow> string \<times> Game" where
  "runAction r a g =
     (let p = player g in
      case a of
        TakeLight \<Rightarrow>
          (''You step into the radiant corridor. The air feels warm and holy.'',
           g\<lparr>player := p\<lparr>chosenPath := Some ''light''\<rparr>,
             scenarioManager := (scenarioManager g)\<lparr>currentPath := Some ''light''\<rparr>\<rparr>)
      | TakeShadow \<Rightarrow>
          (''You enter the darkness. Cold whispers echo around you.'',
           g\<lparr>player := p\<lparr>chosenPath := Some ''shadow''\<rparr>,
             scenarioManager := (scenarioManager g)\<lparr>currentPath := Some ''shadow''\<rparr>\<rparr>)
      | ShrinePray \<Rightarrow>
          (''The shrine glows. You feel enlightened! +2 Intelligence'',
           g\<lparr>player := p\<lparr>Player.health := max 1 (Player.health p - 10),
                           baseStats := incStat ''intelligence'' 2 (baseStats p)\<rparr>\<rparr>)
      | ShrineSearch \<Rightarrow>
          (if Rep_rnd r < 0.6
           then (''You found a Health Potion!'',
                 g\<lparr>player := p\<lparr>inventory := snd (addItem healthPotion (inventory p))\<rparr>\<rparr>)
           else (''You found nothing of value.'', g))
      | ShrineContinue \<Rightarrow> (''You press onward.'', g)
      | TreasureSword \<Rightarrow>
          (''You obtained the Flame Blade!'',
           g\<lparr>player := p\<lparr>inventory := snd (addItem flameBlade (inventory p))\<rparr>\<rparr>)
      | TreasureArmor \<Rightarrow>
          (''You obtained Crystal Plate!'',
           g\<lparr>player := p\<lparr>inventory := snd (addItem crystalPlate (inventory p))\<rparr>\<rparr>)
      | TreasureLeave \<Rightarrow>
          (''Wisely, you resist greed. +30 XP'', g\<lparr>player := snd (addXP 30 p)\<rparr>)
      | RitualStep \<Rightarrow>
          (let damage = randomInt r 10 20
           in (''Dark energy courses through you! -'' @ showInt damage @ '' HP, +3 Strength'',
               g\<lparr>player := p\<lparr>Player.health := max 1 (Player.health p - damage),
                               baseStats := incStat ''strength'' 3 (baseStats p)\<rparr>\<rparr>))
      | RitualStudy \<Rightarrow>
          (''You decipher ancient knowledge. +2 Intelligence, gained Ancient Tome'',
           g\<lparr>player := p\<lparr>baseStats := incStat ''intelligence'' 2 (baseStats p),
                           inventory := snd (addItem ancientTome (inventory p))\<rparr>\<rparr>)
      | RitualDestroy \<Rightarrow>
          (''You disrupt the dark magic. +40 XP'', g\<lparr>player := snd (addXP 40 p)\<rparr>)
      | AmbushPrepare \<Rightarrow>
          (''You brace yourself. +3 Defense temporarily'',
           g\<lparr>player := p\<lparr>tempStats := (tempStats p)(''defense'' \<mapsto> or0 (tempStats p ''defense'') + 3)\<rparr>\<rparr>)
      | AmbushStealth \<Rightarrow>
          (let stats = getTotalStats p
           in if Stats.agility stats \<ge> 10
              then (''You slip past unseen. +50 XP'', g\<lparr>player := snd (addXP 50 p)\<rparr>)
              else (''You lack the agility! Combat begins...'', g))
      | AmbushCharge \<Rightarrow> (''You rush ahead recklessly!'', g))"

definition gameOver :: "Game \<Rightarrow> Game" where
  "gameOver g = g\<lparr>state := GAME_OVER,
     gameResult := Some (''You were defeated at level '' @ showInt (Player.level (player g)))\<rparr>"

definition victory :: "Game \<Rightarrow> Game" where
  "victory g =
     (let path = (if currentPath (scenarioManager g) = Some ''light'' then ''Light'' else ''Shadow'')
      in g\<lparr>state := VICTORY,
           gameResult := Some (''Victory! You conquered the Path of '' @ path @ '' at level ''
                               @ showInt (Player.level (player g)) @ ''!'')\<rparr>)"

definition proceedToNextScenario :: "Draws \<Rightarrow> Game \<Rightarrow> Game" where
  "proceedToNextScenario d g =
     (let (nextScenario, sm') = getNextScenario (dEncounter d) (Player.level (player g)) (scenarioManager g);
          g1 = g\<lparr>scenarioManager := sm'\<rparr>
      in case nextScenario of
           None \<Rightarrow> victory g1
         | Some sc \<Rightarrow> g1\<lparr>currentScenario := Some sc, state := SCENARIO, selectedOption := 0\<rparr>)"

definition startCombat :: "Enemy \<Rightarrow> Game \<Rightarrow> Game" where
  "startCombat e g =
     g\<lparr>currentEnemy := Some e,
       combatSystem := CombatSystem_startCombat (player g) e (combatSystem g),
       state := COMBAT, selectedOption := 0\<rparr>"

text \<open>
  \<^verbatim>\<open>endCombat(victory)\<close>. Its body is split in three: \<open>grantRewards\<close> is the part of
  the \<^verbatim>\<open>if (victory)\<close> block from the experience to the loot, and returns
  \<^verbatim>\<open>leveledUp\<close> with the game; \<open>leaveCombat\<close> is the three statements after the
  block, which the two early returns skip.
\<close>

definition grantRewards :: "Draws \<Rightarrow> Enemy \<Rightarrow> Game \<Rightarrow> bool \<times> Game" where
  "grantRewards d e g =
     (let xpGained = xpReward e;
          g1 = addMessage (''Victory! +'' @ showInt xpGained @ '' XP'') g;
          (leveledUp, p1) = addXP xpGained (player g1);
          g2 = g1\<lparr>player := p1\<rparr>
      in if length (loot e) > 0
         then (let lt = randomChoice (dLoot d) (loot e);
                   (added, ivt') = addItem lt (inventory (player g2));
                   g3 = g2\<lparr>player := (player g2)\<lparr>inventory := ivt'\<rparr>\<rparr>
               in if added then (leveledUp, addMessage (''Found: '' @ Item.name lt) g3)
                  else (leveledUp, g3))
         else (leveledUp, g2))"

definition leaveCombat :: "Draws \<Rightarrow> Game \<Rightarrow> Game" where
  "leaveCombat d g =
     proceedToNextScenario d
       (g\<lparr>currentEnemy := None, player := (player g)\<lparr>tempStats := Map.empty\<rparr>\<rparr>)"

definition endCombat :: "bool \<Rightarrow> Draws \<Rightarrow> Game \<Rightarrow> Game option" where
  "endCombat won d g =
     (if won then
        (case currentEnemy g of
           None \<Rightarrow> None
         | Some e \<Rightarrow>
             (let (leveledUp, g3) = grantRewards d e g
              in if leveledUp then Some (g3\<lparr>state := LEVEL_UP, statSelection := 0\<rparr>)
                 else if (case currentScenario g3 of None \<Rightarrow> False | Some sc \<Rightarrow> isBoss sc)
                 then Some (victory g3)
                 else Some (leaveCombat d g3)))
      else Some (leaveCombat d g))"

text \<open>
  \<^verbatim>\<open>checkCombatEnd\<close>; when it is the enemy's turn it hands the enemy-turn callback to
  \<^verbatim>\<open>setTimeout\<close>.
\<close>

definition checkCombatEnd :: "Draws \<Rightarrow> Game \<Rightarrow> Game option" where
  "checkCombatEnd d g =
     (case currentEnemy g of
        None \<Rightarrow> None
      | Some e \<Rightarrow>
          if \<not> Enemy_isAlive e then endCombat True d g
          else if \<not> Player_isAlive (player g) then Some (gameOver g)
          else if \<not> playerTurn (combatSystem g) then Some (g\<lparr>timers := timers g + 1\<rparr>)
          else Some g)"

text \<open>The callback of the timer: one enemy turn, the end of the turn, and the check.\<close>

definition enemyTurnCallback :: "Draws \<Rightarrow> Game \<Rightarrow> Game option" where
  "enemyTurnCallback d g =
     (case currentEnemy g of
        None \<Rightarrow> None
      | Some e \<Rightarrow>
          (let (res, p', cs') = enemyTurn (dAI d) (dDamage d) (dDodge d) (player g) e (combatSystem g);
               g1 = g\<lparr>player := p', combatSystem := endTurn cs'\<rparr>
           in checkCombatEnd d g1))"

definition executeCombatAction :: "int \<Rightarrow> Draws \<Rightarrow> Game \<Rightarrow> Game option" where
  "executeCombatAction actionIndex d g =
     (if actionIndex = 0 then
        (case currentEnemy g of
           None \<Rightarrow> None
         | Some e \<Rightarrow>
             (let (res, e', cs') = playerAttack (dDamage d) (dDodge d) (player g) e (combatSystem g)
              in checkCombatEnd d (g\<lparr>currentEnemy := Some e', combatSystem := endTurn cs'\<rparr>)))
      else if actionIndex = 1 then
        (case currentEnemy g of
           None \<Rightarrow> None
         | Some e \<Rightarrow>
             (let (res, e', cs') = playerSpecialAttack (dDamage d) (dDodge d) (player g) e (combatSystem g)
              in checkCombatEnd d (g\<lparr>currentEnemy := Some e', combatSystem := endTurn cs'\<rparr>)))
      else if actionIndex = 2 then Some (g\<lparr>state := INVENTORY, inventorySelection := 0\<rparr>)
      else if actionIndex = 3 then
        (let (escaped, cs') = attemptEscape (dEscape d) (player g) (currentEnemy g) (combatSystem g);
             g1 = g\<lparr>combatSystem := cs'\<rparr>
         in if escaped then endCombat False d g1
            else checkCombatEnd d (g1\<lparr>combatSystem := endTurn cs'\<rparr>))
      else checkCombatEnd d g)"

definition startGame :: "Game \<Rightarrow> Game" where
  "startGame g =
     g\<lparr>player := Player_new,
       scenarioManager := ScenarioManager_reset (scenarioManager g),
       messageLog := [],
       currentScenario := Some entrance,
       state := SCENARIO,
       selectedOption := 0\<rparr>"

definition reset :: "Game \<Rightarrow> Game" where
  "reset g =
     g\<lparr>state := MENU,
       player := Player_new,
       scenarioManager := ScenarioManager_reset (scenarioManager g),
       currentEnemy := None,
       currentScenario := None,
       messageLog := [],
       gameResult := None\<rparr>"

text \<open>\<^verbatim>\<open>array[i]\<close> for a number \<open>i\<close>: \<^verbatim>\<open>undefined\<close>, here \<open>None\<close>, out of range.\<close>

definition element :: "'a list \<Rightarrow> int \<Rightarrow> 'a option" where
  "element xs i = (if 0 \<le> i \<and> i < int (length xs) then Some (xs ! nat i) else None)"

definition handleScenarioInput :: "string \<Rightarrow> Draws \<Rightarrow> Game \<Rightarrow> Game option" where
  "handleScenarioInput key d g =
     (case currentScenario g of
        None \<Rightarrow> Some g
      | Some sc \<Rightarrow>
          if combat sc then
            (if key = ''Enter''
             then (case enemy sc of None \<Rightarrow> None | Some e \<Rightarrow> Some (startCombat e g))
             else Some g)
          else if key = ''ArrowUp'' then Some (g\<lparr>selectedOption := max 0 (selectedOption g - 1)\<rparr>)
          else if key = ''ArrowDown''
          then Some (g\<lparr>selectedOption := min (int (length (choices sc)) - 1) (selectedOption g + 1)\<rparr>)
          else if key = ''Enter'' then
            (case element (choices sc) (selectedOption g) of
               None \<Rightarrow> None
             | Some choice \<Rightarrow>
                 (let (result, g1) = runAction (dScenario d) (action choice) g;
                      g2 = addMessage result g1;
                      g3 = g2\<lparr>selectedOption := 0\<rparr>
                  in Some (proceedToNextScenario d g3)))
          else Some g)"

definition handleCombatInput :: "string \<Rightarrow> Draws \<Rightarrow> Game \<Rightarrow> Game option" where
  "handleCombatInput key d g =
     (if \<not> playerTurn (combatSystem g) then Some g
      else
        (let options = [''Attack'', ''Special Attack'', ''Use Item'', ''Escape'']
         in if key = ''ArrowUp'' then Some (g\<lparr>selectedOption := max 0 (selectedOption g - 1)\<rparr>)
            else if key = ''ArrowDown''
            then Some (g\<lparr>selectedOption := min (int (length options) - 1) (selectedOption g + 1)\<rparr>)
            else if key = ''Enter'' then executeCombatAction (selectedOption g) d g
            else Some g))"

definition handleInventoryInput :: "string \<Rightarrow> Game \<Rightarrow> Game" where
  "handleInventoryInput key g =
     (let allItems = items (inventory (player g))
      in if key = ''ArrowUp'' then g\<lparr>inventorySelection := max 0 (inventorySelection g - 1)\<rparr>
         else if key = ''ArrowDown''
         then g\<lparr>inventorySelection := min (int (length allItems) - 1) (inventorySelection g + 1)\<rparr>
         else if key = ''Enter'' then
           (case element allItems (inventorySelection g) of
              None \<Rightarrow> g
            | Some item \<Rightarrow>
                if Item.type item = ''consumable'' then
                  (let (result, p') = use item (player g);
                       g1 = g\<lparr>player := p'\<rparr>
                   in case result of
                        None \<Rightarrow> g1
                      | Some msg \<Rightarrow>
                          (let g2 = addMessage msg g1
                           in g2\<lparr>player := (player g2)\<lparr>inventory := snd (removeItem item (inventory (player g2)))\<rparr>\<rparr>))
                else
                  (let g1 = g\<lparr>player := (player g)\<lparr>inventory := snd (equip item (inventory (player g)))\<rparr>\<rparr>
                   in addMessage (''Equipped '' @ Item.name item) g1))
         else if key = ''Escape'' \<or> key = ''i'' \<or> key = ''I'' then g\<lparr>state := EXPLORING\<rparr>
         else g)"

definition handleLevelUpInput :: "string \<Rightarrow> Game \<Rightarrow> Game" where
  "handleLevelUpInput key g =
     (let stats = [''strength'', ''defense'', ''agility'', ''intelligence'']
      in if statPoints (player g) = 0 then
           (if key = ''Enter'' then g\<lparr>state := EXPLORING\<rparr> else g)
         else if key = ''ArrowUp'' then g\<lparr>statSelection := max 0 (statSelection g - 1)\<rparr>
         else if key = ''ArrowDown''
         then g\<lparr>statSelection := min (int (length stats) - 1) (statSelection g + 1)\<rparr>
         else if key = ''Enter'' then
           (let stat = (case element stats (statSelection g) of None \<Rightarrow> ''undefined'' | Some st \<Rightarrow> st);
                g1 = g\<lparr>player := snd (allocateStat stat (player g))\<rparr>;
                g2 = addMessage (''+1 '' @ stat) g1
            in if statPoints (player g2) = 0 then addMessage ''All stat points allocated!'' g2 else g2)
         else g)"

text \<open>
  \<^verbatim>\<open>handleKeyPress\<close> for a key that passes the debounce, and the firing of a pending
  timer.
\<close>

definition handleKeyPress :: "string \<Rightarrow> Draws \<Rightarrow> Game \<Rightarrow> Game option" where
  "handleKeyPress key d g =
     (if state g = MENU then
        (if key = ''Enter'' then Some (startGame g) else Some g)
      else if state g = EXPLORING then
        (if key = ''i'' \<or> key = ''I'' then Some (g\<lparr>state := INVENTORY, inventorySelection := 0\<rparr>)
         else Some g)
      else if state g = SCENARIO then handleScenarioInput key d g
      else if state g = COMBAT then handleCombatInput key d g
      else if state g = INVENTORY then Some (handleInventoryInput key g)
      else if state g = LEVEL_UP then Some (handleLevelUpInput key g)
      else if state g = GAME_OVER \<or> state g = VICTORY then
        (if key = ''Enter'' then Some (reset g) else Some g)
      else Some g)"

definition fireTimer :: "Draws \<Rightarrow> Game \<Rightarrow> Game option" where
  "fireTimer d g =
     (if timers g = 0 then Some g
      else enemyTurnCallback d (g\<lparr>timers := timers g - 1\<rparr>))"

subsection \<open>Notions the claims are stated with\<close>

text \<open>The sequence that \<^verbatim>\<open>getNextScenario\<close> selects for a manager.\<close>

definition pathSequence :: "ScenarioManager \<Rightarrow> string list" where
  "pathSequence sm = (if currentPath sm = Some ''light'' then lightPathSequence else shadowPathSequence)"

text \<open>
  What happens to the cursor in one playthrough: a call of \<^verbatim>\<open>getNextScenario\<close> (made by
  \<open>proceedToNextScenario\<close>) or the choice of a path by an action of the entrance.
  \<open>cursorRun\<close> is the manager after a list of such events, \<open>readIndices\<close> the positions
  of the sequence that the calls read, in order: a call reads \<^verbatim>\<open>sequence[scenarioIndex]\<close>
  when a path is chosen and the index is below the length.
\<close>

datatype cursorEvent = Next rnd int | Choose string

fun cursorStep :: "cursorEvent \<Rightarrow> ScenarioManager \<Rightarrow> ScenarioManager" where
  "cursorStep (Next r lvl) sm = snd (getNextScenario r lvl sm)"
| "cursorStep (Choose path) sm = sm\<lparr>currentPath := Some path\<rparr>"

fun cursorRun :: "cursorEvent list \<Rightarrow> ScenarioManager \<Rightarrow> ScenarioManager" where
  "cursorRun [] sm = sm"
| "cursorRun (ev # evs) sm = cursorRun evs (cursorStep ev sm)"

fun readIndex :: "cursorEvent \<Rightarrow> ScenarioManager \<Rightarrow> nat list" where
  "readIndex (Next r lvl) sm =
     (if pathChosen (currentPath sm) \<and> scenarioIndex sm < length (pathSequence sm)
      then [scenarioIndex sm] else [])"
| "readIndex (Choose path) sm = []"

fun readIndices :: "cursorEvent list \<Rightarrow> ScenarioManager \<Rightarrow> nat list" where
  "readIndices [] sm = []"
| "readIndices (ev # evs) sm = readIndex ev sm @ readIndices evs (cursorStep ev sm)"

text \<open>A list of key events, each with the same draws; a throw ends the run.\<close>

fun pressKeys :: "string list \<Rightarrow> Draws \<Rightarrow> Game \<Rightarrow> Game option" where
  "pressKeys [] d g = Some g"
| "pressKeys (k # ks) d g = (case handleKeyPress k d g of None \<Rightarrow> None | Some g' \<Rightarrow> pressKeys ks d g')"

text \<open>The cursor of a game.\<close>

definition cursor :: "Game \<Rightarrow> nat" where
  "cursor g = scenarioIndex (scenarioManager g)"

text \<open>The bounds of the health of a combatant.\<close>

definition Player_healthInRange :: "Player \<Rightarrow> bool" where
  "Player_healthInRange p \<longleftrightarrow> 0 \<le> Player.health p \<and> Player.health p \<le> Player.maxHealth p"

definition Enemy_healthInRange :: "Enemy \<Rightarrow> bool" where
  "Enemy_healthInRange e \<longleftrightarrow> 0 \<le> Enemy.health e \<and> Enemy.health e \<le> Enemy.maxHealth e"

text \<open>
  The items of an inventory, held or equipped, as a multiset: what an operation must
  conserve to lose nothing.
\<close>

definition slotItems :: "Item option \<Rightarrow> Item multiset" where
  "slotItems v = (case v of None \<Rightarrow> {#} | Some it \<Rightarrow> {#it#})"

definition allItems :: "Inventory \<Rightarrow> Item multiset" where
  "allItems ivt = mset (items ivt) + slotItems (weapon (equipped ivt))
     + slotItems (armor (equipped ivt)) + slotItems (artifact (equipped ivt))"

text \<open>The names of the three slots.\<close>

definition isSlot :: "string \<Rightarrow> bool" where
  "isSlot s \<longleftrightarrow> s = ''weapon'' \<or> s = ''armor'' \<or> s = ''artifact''"

text \<open>The test of \<open>endCombat\<close> for the boss: the current scenario has the flag \<^verbatim>\<open>isBoss\<close>.\<close>

definition wonOverBoss :: "Game \<Rightarrow> bool" where
  "wonOverBoss g = (case Game.currentScenario g of None \<Rightarrow> False | Some sc \<Rightarrow> isBoss sc)"

text \<open>
  A player is sound when the health is within its bounds and the maximum health is
  positive; the maximum health of a new player is 100 and it only grows.
\<close>

definition Player_sound :: "Player \<Rightarrow> bool" where
  "Player_sound p \<longleftrightarrow> Player_healthInRange p \<and> 0 < Player.maxHealth p"

subsection \<open>States used as concrete inputs\<close>

definition zeroDraw :: rnd where
  "zeroDraw = Abs_rnd 0"

definition zeroDraws :: Draws where
  "zeroDraws = \<lparr>dDamage = zeroDraw, dDodge = zeroDraw, dEscape = zeroDraw, dAI = zeroDraw,
     dLoot = zeroDraw, dEncounter = zeroDraw, dScenario = zeroDraw\<rparr>"

definition swordHeldDaggerEquipped :: Inventory where
  "swordHeldDaggerEquipped = \<lparr>items = [ironSword], maxSlots = 15,
     equipped = \<lparr>weapon = Some rustyDagger, armor = None, artifact = None\<rparr>\<rparr>"

definition fullWithSecondSword :: Inventory where
  "fullWithSecondSword = \<lparr>items = ironSword # replicate 14 healthPotion, maxSlots = 15,
     equipped = \<lparr>weapon = Some ironSword, armor = None, artifact = None\<rparr>\<rparr>"

definition fullOfPotions :: Inventory where
  "fullOfPotions = \<lparr>items = replicate 15 healthPotion, maxSlots = 15,
     equipped = \<lparr>weapon = Some ironSword, armor = None, artifact = None\<rparr>\<rparr>"

definition lightDone :: ScenarioManager where
  "lightDone = \<lparr>currentPath = Some ''light'', scenarioIndex = 5, currentScenario = entrance\<rparr>"

definition playthroughEvents :: "cursorEvent list" where
  "playthroughEvents = [Next zeroDraw 1, Choose ''light'', Next zeroDraw 1, Next zeroDraw 1]"

text \<open>
  A game as the keys lead to it from the menu: at the shrine of the light path, then before
  the first encounter (a Goblin, with the draw 0), then in the combat on the player's turn
  with Use Item selected.
\<close>

definition atShrine :: Game where
  "atShrine = \<lparr>state = SCENARIO,
     player = Player_new\<lparr>chosenPath := Some ''light''\<rparr>,
     combatSystem = CombatSystem_new,
     scenarioManager = \<lparr>currentPath = Some ''light'', scenarioIndex = 1, currentScenario = entrance\<rparr>,
     currentEnemy = None, currentScenario = Some lightShrine,
     selectedOption = 0, inventorySelection = 0, statSelection = 0,
     messageLog = [''You step into the radiant corridor. The air feels warm and holy.''],
     gameResult = None, timers = 0\<rparr>"

definition goblinAhead :: Game where
  "goblinAhead = atShrine
     \<lparr>scenarioManager := \<lparr>currentPath = Some ''light'', scenarioIndex = 2, currentScenario = entrance\<rparr>,
      currentScenario := Some (createCombatScenario zeroDraw 1
        \<lparr>currentPath = Some ''light'', scenarioIndex = 2, currentScenario = entrance\<rparr>),
      messageLog := [''You step into the radiant corridor. The air feels warm and holy.'',
                     ''You press onward.'']\<rparr>"

definition inCombat :: Game where
  "inCombat = goblinAhead
     \<lparr>state := COMBAT,
      combatSystem := \<lparr>combatLog = [''Combat started with Goblin!''], playerTurn = True, turnCount = 0\<rparr>,
      currentEnemy := Some (goblin 1),
      selectedOption := 2\<rparr>"




definition woundedGame :: Game where
  "woundedGame = (startGame Game_new)\<lparr>player := Player_new\<lparr>Player.health := 5\<rparr>\<rparr>"

subsection \<open>The invariant of the controller\<close>

text \<open>
  The invariant of the controller. A scenario is well formed when an encounter has an
  enemy whose health is in range and a narrative scenario has a choice. The core of the
  invariant: the player is sound, the level is not negative, the current enemy and the
  enemy of the current scenario have their health in range. The invariant adds: in a
  narrative scenario the selection is a position of the choices; in combat there is a
  current enemy; and a timer is pending only in combat, on the enemy's turn, and then
  exactly one. \<open>reachable\<close> are the games that key events and timers lead to from a new
  game; an event that throws has no successor.
\<close>

definition Scenario_wellFormed :: "Scenario \<Rightarrow> bool" where
  "Scenario_wellFormed sc \<longleftrightarrow>
     (if combat sc then (case enemy sc of None \<Rightarrow> False | Some e \<Rightarrow> Enemy_healthInRange e)
      else choices sc \<noteq> [])"

definition Game_core :: "Game \<Rightarrow> bool" where
  "Game_core g \<longleftrightarrow>
     Player_sound (player g) \<and> 0 \<le> Player.level (player g)
     \<and> (case currentEnemy g of None \<Rightarrow> True | Some e \<Rightarrow> Enemy_healthInRange e)
     \<and> (case Game.currentScenario g of None \<Rightarrow> True | Some sc \<Rightarrow> Scenario_wellFormed sc)"

definition Game_inv :: "Game \<Rightarrow> bool" where
  "Game_inv g \<longleftrightarrow>
     Game_core g
     \<and> (case Game.currentScenario g of
           None \<Rightarrow> True
         | Some sc \<Rightarrow> state g = SCENARIO \<and> \<not> combat sc
                      \<longrightarrow> 0 \<le> selectedOption g \<and> selectedOption g < int (length (choices sc)))
     \<and> (state g = COMBAT \<longrightarrow> currentEnemy g \<noteq> None)
     \<and> (timers g = 0 \<or> (timers g = 1 \<and> state g = COMBAT \<and> \<not> playerTurn (combatSystem g)))"

inductive reachable :: "Game \<Rightarrow> bool" where
  start: "reachable Game_new"
| key: "reachable g \<Longrightarrow> handleKeyPress k d g = Some g' \<Longrightarrow> reachable g'"
| timer: "reachable g \<Longrightarrow> fireTimer d g = Some g' \<Longrightarrow> reachable g'"

subsection \<open>The experience within one playthrough\<close>

text \<open>
  The experience that a playthrough can still bring. \<open>xpOfAction\<close> is the experience that
  an action of the catalogue adds for a player whose total agility is below 10: the stealth
  of the ambush adds its 50 only from agility 10 on. \<open>xpOfScenario\<close> is the most that a
  scenario can add: the reward of its enemy for an encounter, the largest of its choices
  otherwise. \<open>xpAhead\<close> is the sum, over the nodes of the sequence from the cursor on, of
  the most that the node adds for a player of level 1. On the light path: 0 for the shrine,
  48 for an encounter (the Goblin of level 1 gives 25, the Corrupted Knight 48), 30 for the
  chamber, 80 for the Light Guardian of level 2. On the shadow path: 40 for the ritual, 54
  for an encounter (the Shadow Beast gives 31, the Dark Mage 54), 0 for the ambush, 110 for
  the Shadow Lord of level 2.
\<close>

definition xpOfAction :: "choiceAction \<Rightarrow> int" where
  "xpOfAction a = (case a of TreasureLeave \<Rightarrow> 30 | RitualDestroy \<Rightarrow> 40 | _ \<Rightarrow> 0)"

definition xpOfScenario :: "Scenario \<Rightarrow> int" where
  "xpOfScenario sc =
     (if combat sc then (case enemy sc of None \<Rightarrow> 0 | Some e \<Rightarrow> xpReward e)
      else fold max (map (\<lambda>c. xpOfAction (action c)) (choices sc)) 0)"

definition xpAhead :: "ScenarioManager \<Rightarrow> int" where
  "xpAhead sm =
     sum_list (drop (scenarioIndex sm)
       (if currentPath sm = Some ''light'' then [0, 48, 30, 48, 80] else [40, 54, 0, 54, 110]))"

text \<open>
  A player is plain when the level is 1, the base agility is 5, no temporary agility is set
  and nothing is equipped; the total agility is then 5. Base stats grow at a level-up and on
  the level-up screen only, and items are equipped on the inventory screen only.
\<close>

definition Player_plain :: "Player \<Rightarrow> bool" where
  "Player_plain p \<longleftrightarrow>
     Player.level p = 1 \<and> Stats.agility (baseStats p) = 5 \<and> tempStats p ''agility'' = None
     \<and> equipped (inventory p) = \<lparr>weapon = None, armor = None, artifact = None\<rparr>"

text \<open>
  A node ahead: none of its choices is a choice of the path, and the enemy of an encounter
  is alive and has a reward that is not negative.
\<close>

definition noPathChoice :: "Scenario \<Rightarrow> bool" where
  "noPathChoice sc \<longleftrightarrow> (\<forall>c \<in> set (choices sc). action c \<noteq> TakeLight \<and> action c \<noteq> TakeShadow)"

definition Enemy_ahead :: "Enemy \<Rightarrow> bool" where
  "Enemy_ahead e \<longleftrightarrow> Enemy_isAlive e \<and> 0 \<le> xpReward e"

definition nodeAhead :: "Scenario \<Rightarrow> bool" where
  "nodeAhead sc \<longleftrightarrow>
     noPathChoice sc
     \<and> (if combat sc then (case enemy sc of None \<Rightarrow> False | Some e \<Rightarrow> Enemy_ahead e) else True)"

text \<open>
  The invariant of the experience. No game is on the level-up screen. In a scenario and in
  a combat the player is plain and the experience, together with what the current node and
  the nodes ahead can add, is at most 258, below the 282 that level 2 needs; before a path
  is chosen the scenario is the entrance and the experience is 0. Nothing is asked of the
  other states: no key leads from the inventory or from the exploring state back to a
  scenario, and a game that is over starts again with a new player.
\<close>

definition Game_xp :: "Game \<Rightarrow> bool" where
  "Game_xp g \<longleftrightarrow>
     (if state g = LEVEL_UP then False
      else if state g = SCENARIO then
        Player_plain (player g)
        \<and> (case Game.currentScenario g of
             None \<Rightarrow> False
           | Some sc \<Rightarrow>
               if pathChosen (currentPath (scenarioManager g))
               then nodeAhead sc
                    \<and> xp (player g) + xpOfScenario sc + xpAhead (scenarioManager g) \<le> 258
               else sc = entrance \<and> xp (player g) = 0)
      else if state g = COMBAT then
        Player_plain (player g) \<and> pathChosen (currentPath (scenarioManager g))
        \<and> (case currentEnemy g of
             None \<Rightarrow> False
           | Some e \<Rightarrow> Enemy_ahead e \<and> xp (player g) + xpReward e + xpAhead (scenarioManager g) \<le> 258)
      else True)"

section \<open>Inventory lemmas\<close>

lemma getSlot_setSlot:
  "getSlot s' (setSlot s v eq) = (if s' = s \<and> isSlot s then v else getSlot s' eq)"
  unfolding getSlot_def setSlot_def isSlot_def
  apply (cases "s = ''weapon''")
   apply (simp (no_asm_simp))
  apply (cases "s = ''armor''")
   apply (simp (no_asm_simp))
  apply (cases "s = ''artifact''")
   apply (simp (no_asm_simp))
  apply (simp (no_asm_simp))
  done

lemma setSlot_setSlot: "setSlot s v (setSlot s w eq) = setSlot s v eq"
  unfolding setSlot_def
  apply (cases "s = ''weapon''")
   apply (simp (no_asm_simp))
  apply (cases "s = ''armor''")
   apply (simp (no_asm_simp))
  apply (cases "s = ''artifact''")
   apply (simp (no_asm_simp))
  apply (simp (no_asm_simp))
  done

lemma getSlot_Some_slot: "getSlot s eq = Some y \<Longrightarrow> isSlot s"
  by (simp add: getSlot_def isSlot_def split: if_splits)

lemma slotOfType_Some: "slotOfType t = Some s \<Longrightarrow> s = t \<and> isSlot s"
  by (auto simp: slotOfType_def isSlot_def split: if_splits)

lemma slotItems_setSlot_None:
  assumes "isSlot s"
  shows "slotItems (weapon (setSlot s None eq)) + slotItems (armor (setSlot s None eq))
      + slotItems (artifact (setSlot s None eq)) + slotItems (getSlot s eq)
    = slotItems (weapon eq) + slotItems (armor eq) + slotItems (artifact eq)"
  using assms unfolding isSlot_def
  by (elim disjE) (simp_all add: setSlot_def getSlot_def slotItems_def)

lemma addItem_room:
  "int (length (items ivt)) < maxSlots ivt \<Longrightarrow>
   addItem it ivt = (True, ivt\<lparr>items := items ivt @ [it]\<rparr>)"
  by (simp add: addItem_def)

lemma addItem_full:
  "maxSlots ivt \<le> int (length (items ivt)) \<Longrightarrow> addItem it ivt = (False, ivt)"
  by (simp add: addItem_def)

text \<open>
  Equipping a held item whose type has a slot, when the previous occupant (if any) fits
  into the held list: the occupant is appended, the item leaves the list, the slot holds
  the item.
\<close>

lemma equip_held:
  assumes x: "x \<in> set (items ivt)"
    and slot: "slotOfType (Item.type x) = Some slot"
    and room: "getSlot slot (equipped ivt) \<noteq> None \<longrightarrow> int (length (items ivt)) < maxSlots ivt"
  shows "equip x ivt =
     (True, ivt\<lparr>items := remove1 x (items ivt)
                          @ (case getSlot slot (equipped ivt) of None \<Rightarrow> [] | Some old \<Rightarrow> [old]),
               equipped := setSlot slot (Some x) (equipped ivt)\<rparr>)"
proof (cases "getSlot slot (equipped ivt)")
  case None
  with x slot show ?thesis
    by (simp add: equip_def Let_def removeItem_def)
next
  case (Some old)
  with room have "addItem old ivt = (True, ivt\<lparr>items := items ivt @ [old]\<rparr>)"
    by (simp add: addItem_room)
  with x slot Some show ?thesis
    by (simp add: equip_def Let_def removeItem_def remove1_append)
qed

section \<open>Random draws, the experience curve and the cursor\<close>

lemma Rep_zeroDraw: "Rep_rnd zeroDraw = 0"
  by (simp add: zeroDraw_def Abs_rnd_inverse)

lemma randomChoice_index:
  assumes "xs \<noteq> []"
  shows "nat \<lfloor>Rep_rnd r * real (length xs)\<rfloor> < length xs"
proof -
  have r: "0 \<le> Rep_rnd r" "Rep_rnd r < 1"
    using Rep_rnd[of r] by simp_all
  have n: "0 < real (length xs)"
    using assms by simp
  have "Rep_rnd r * real (length xs) < real (length xs)"
    using r n by simp
  then have "\<lfloor>Rep_rnd r * real (length xs)\<rfloor> < int (length xs)"
    by (simp add: floor_less_iff)
  moreover have "0 \<le> \<lfloor>Rep_rnd r * real (length xs)\<rfloor>"
    using r n by simp
  ultimately show ?thesis
    by (simp add: nat_less_iff)
qed

lemma randomChoice_mem: "xs \<noteq> [] \<Longrightarrow> randomChoice r xs \<in> set xs"
  by (simp add: randomChoice_def randomChoice_index)

lemma powr_2: "(2::real) powr (3/2) = 2 * sqrt 2"
proof -
  have "(2::real) powr (3/2) = 2 powr (1 + 1/2)"
    by simp
  also have "\<dots> = 2 powr 1 * 2 powr (1/2)"
    by (rule powr_add)
  also have "\<dots> = 2 * sqrt 2"
    by (simp add: powr_half_sqrt)
  finally show ?thesis .
qed

lemma calculateXPForLevel_2: "calculateXPForLevel 2 = 282"
proof -
  have lo: "(1.41::real) \<le> sqrt 2"
    by (rule real_le_rsqrt) (simp add: power2_eq_square)
  have hi: "sqrt 2 < (1.415::real)"
    by (rule real_less_lsqrt) (simp_all add: power2_eq_square)
  have "\<lfloor>200 * sqrt 2\<rfloor> = 282"
    unfolding floor_eq_iff using lo hi by simp
  then show ?thesis
    by (simp add: calculateXPForLevel_def XP_CURVE_MULTIPLIER_def powr_2)
qed

lemma length_pathSequence: "length (pathSequence sm) = 5"
  by (simp add: pathSequence_def lightPathSequence_def shadowPathSequence_def)

lemma getNextScenario_unchosen:
  "\<not> pathChosen (currentPath sm) \<Longrightarrow> getNextScenario r lvl sm = (Some entrance, sm)"
  by (simp add: getNextScenario_def)

lemma getNextScenario_exhausted:
  "pathChosen (currentPath sm) \<Longrightarrow> length (pathSequence sm) \<le> scenarioIndex sm \<Longrightarrow>
   getNextScenario r lvl sm = (None, sm)"
  by (simp add: getNextScenario_def pathSequence_def Let_def)

lemma below_5: "(i::nat) < 5 \<Longrightarrow> i = 0 \<or> i = 1 \<or> i = 2 \<or> i = 3 \<or> i = 4"
  by arith

lemma node_light:
  assumes "i < 5"
  shows "\<exists>sc. (let scenarioType = lightPathSequence ! i
          in if scenarioType = ''combat'' then (Some (createCombatScenario r lvl sm'), sm')
             else if scenarioType = ''bossCombat'' then (Some (createBossScenario lvl sm'), sm')
             else (SCENARIOS scenarioType, sm')) = (Some sc, sm')"
  using below_5[OF assms]
  by (elim disjE) (simp_all add: lightPathSequence_def SCENARIOS_def)

lemma node_shadow:
  assumes "i < 5"
  shows "\<exists>sc. (let scenarioType = shadowPathSequence ! i
          in if scenarioType = ''combat'' then (Some (createCombatScenario r lvl sm'), sm')
             else if scenarioType = ''bossCombat'' then (Some (createBossScenario lvl sm'), sm')
             else (SCENARIOS scenarioType, sm')) = (Some sc, sm')"
  using below_5[OF assms]
  by (elim disjE) (simp_all add: shadowPathSequence_def SCENARIOS_def)

lemma getNextScenario_advance:
  assumes "pathChosen (currentPath sm)" and "scenarioIndex sm < length (pathSequence sm)"
  shows "\<exists>sc. getNextScenario r lvl sm = (Some sc, sm\<lparr>scenarioIndex := scenarioIndex sm + 1\<rparr>)"
proof (cases "currentPath sm = Some ''light''")
  case True
  with assms have "scenarioIndex sm < 5"
    by (simp add: pathSequence_def lightPathSequence_def)
  from node_light[OF this] True assms show ?thesis
    by (simp add: getNextScenario_def pathSequence_def lightPathSequence_def Let_def del: One_nat_def)
next
  case False
  with assms have "scenarioIndex sm < 5"
    by (simp add: pathSequence_def shadowPathSequence_def)
  from node_shadow[OF this] False assms show ?thesis
    by (simp add: getNextScenario_def pathSequence_def shadowPathSequence_def Let_def)
qed

lemma getNextScenario_index_mono:
  "scenarioIndex sm \<le> scenarioIndex (snd (getNextScenario r lvl sm))"
proof (cases "pathChosen (currentPath sm)")
  case False
  then show ?thesis by (simp add: getNextScenario_unchosen)
next
  case True
  show ?thesis
  proof (cases "scenarioIndex sm < length (pathSequence sm)")
    case True
    from getNextScenario_advance[OF \<open>pathChosen (currentPath sm)\<close> True, of r lvl]
    show ?thesis by auto
  next
    case False
    with True show ?thesis by (simp add: getNextScenario_exhausted)
  qed
qed

lemma getNextScenario_path:
  "currentPath (snd (getNextScenario r lvl sm)) = currentPath sm"
proof (cases "pathChosen (currentPath sm)")
  case False
  then show ?thesis by (simp add: getNextScenario_unchosen)
next
  case True
  show ?thesis
  proof (cases "scenarioIndex sm < length (pathSequence sm)")
    case True
    from getNextScenario_advance[OF \<open>pathChosen (currentPath sm)\<close> True, of r lvl]
    show ?thesis by auto
  next
    case False
    with True show ?thesis by (simp add: getNextScenario_exhausted)
  qed
qed

lemma getNextScenario_index_bound:
  assumes "scenarioIndex sm \<le> 5"
  shows "scenarioIndex (snd (getNextScenario r lvl sm)) \<le> 5"
proof (cases "pathChosen (currentPath sm)")
  case False
  with assms show ?thesis by (simp add: getNextScenario_unchosen)
next
  case True
  show ?thesis
  proof (cases "scenarioIndex sm < length (pathSequence sm)")
    case True
    from getNextScenario_advance[OF \<open>pathChosen (currentPath sm)\<close> True, of r lvl] True
    show ?thesis by (auto simp: length_pathSequence)
  next
    case False
    with True assms show ?thesis by (simp add: getNextScenario_exhausted)
  qed
qed

lemma cursorStep_mono: "scenarioIndex sm \<le> scenarioIndex (cursorStep ev sm)"
  by (cases ev) (simp_all add: getNextScenario_index_mono)

lemma cursorStep_bound: "scenarioIndex sm \<le> 5 \<Longrightarrow> scenarioIndex (cursorStep ev sm) \<le> 5"
  by (cases ev) (simp_all add: getNextScenario_index_bound)

lemma cursorRun_mono: "scenarioIndex sm \<le> scenarioIndex (cursorRun evs sm)"
proof (induction evs arbitrary: sm)
  case Nil
  show ?case by simp
next
  case (Cons ev evs)
  have "scenarioIndex sm \<le> scenarioIndex (cursorStep ev sm)"
    by (rule cursorStep_mono)
  also have "\<dots> \<le> scenarioIndex (cursorRun evs (cursorStep ev sm))"
    by (rule Cons.IH)
  finally show ?case by simp
qed

lemma cursorRun_bound: "scenarioIndex sm \<le> 5 \<Longrightarrow> scenarioIndex (cursorRun evs sm) \<le> 5"
  by (induction evs arbitrary: sm) (simp_all add: cursorStep_bound)

lemma readIndex_step:
  assumes "i \<in> set (readIndex ev sm)"
  shows "i = scenarioIndex sm \<and> scenarioIndex (cursorStep ev sm) = Suc i"
proof (cases ev)
  case (Next r lvl)
  with assms have c: "pathChosen (currentPath sm)" "scenarioIndex sm < length (pathSequence sm)"
    and i: "i = scenarioIndex sm"
    by (simp_all split: if_splits)
  from getNextScenario_advance[OF c, of r lvl] Next i show ?thesis
    by auto
next
  case (Choose path)
  with assms show ?thesis by simp
qed

lemma readIndices_lower:
  "i \<in> set (readIndices evs sm) \<Longrightarrow> scenarioIndex sm \<le> i"
proof (induction evs arbitrary: sm)
  case Nil
  then show ?case by simp
next
  case (Cons ev evs)
  from Cons.prems consider "i \<in> set (readIndex ev sm)" | "i \<in> set (readIndices evs (cursorStep ev sm))"
    by auto
  then show ?case
  proof cases
    case 1
    then show ?thesis using readIndex_step by simp
  next
    case 2
    from Cons.IH[OF 2] cursorStep_mono[of sm ev] show ?thesis by simp
  qed
qed

lemma readIndices_increasing: "sorted_wrt (<) (readIndices evs sm)"
proof (induction evs arbitrary: sm)
  case Nil
  show ?case by simp
next
  case (Cons ev evs)
  have one: "sorted_wrt (<) (readIndex ev sm)"
    by (cases ev) simp_all
  have "i < j" if "i \<in> set (readIndex ev sm)" and "j \<in> set (readIndices evs (cursorStep ev sm))" for i j
    using readIndex_step[OF that(1)] readIndices_lower[OF that(2)] by simp
  with one Cons.IH show ?case
    by (simp add: sorted_wrt_append)
qed

section \<open>The end of a combat\<close>

lemma addMessage_fields:
  "state (addMessage m g) = state g" "player (addMessage m g) = player g"
  "combatSystem (addMessage m g) = combatSystem g" "scenarioManager (addMessage m g) = scenarioManager g"
  "currentEnemy (addMessage m g) = currentEnemy g" "Game.currentScenario (addMessage m g) = Game.currentScenario g"
  "selectedOption (addMessage m g) = selectedOption g" "inventorySelection (addMessage m g) = inventorySelection g"
  "statSelection (addMessage m g) = statSelection g" "gameResult (addMessage m g) = gameResult g"
  "timers (addMessage m g) = timers g"
  by (simp_all add: addMessage_def Let_def)



lemma grantRewards_player:
  "player (snd (grantRewards d e g)) =
     (if loot e \<noteq> []
      then (snd (addXP (xpReward e) (player g)))
             \<lparr>inventory := snd (addItem (randomChoice (dLoot d) (loot e))
                                   (inventory (snd (addXP (xpReward e) (player g)))))\<rparr>
      else snd (addXP (xpReward e) (player g)))"
  by (simp add: grantRewards_def Let_def split_beta addMessage_fields)

lemma grantRewards_leveledUp:
  "fst (grantRewards d e g) = fst (addXP (xpReward e) (player g))"
  by (simp add: grantRewards_def Let_def split_beta addMessage_fields)

lemma grantRewards_fields:
  "state (snd (grantRewards d e g)) = state g"
  "combatSystem (snd (grantRewards d e g)) = combatSystem g"
  "scenarioManager (snd (grantRewards d e g)) = scenarioManager g"
  "currentEnemy (snd (grantRewards d e g)) = currentEnemy g"
  "Game.currentScenario (snd (grantRewards d e g)) = Game.currentScenario g"
  "selectedOption (snd (grantRewards d e g)) = selectedOption g"
  "statSelection (snd (grantRewards d e g)) = statSelection g"
  "timers (snd (grantRewards d e g)) = timers g"
  by (simp_all add: grantRewards_def Let_def split_beta addMessage_fields)

lemma victory_fields:
  "state (victory g) = VICTORY" "player (victory g) = player g"
  "scenarioManager (victory g) = scenarioManager g" "currentEnemy (victory g) = currentEnemy g"
  "Game.currentScenario (victory g) = Game.currentScenario g"
  by (simp_all add: victory_def Let_def)

lemma proceedToNextScenario_fields:
  "player (proceedToNextScenario d g) = player g"
  "currentEnemy (proceedToNextScenario d g) = currentEnemy g"
  "scenarioManager (proceedToNextScenario d g)
     = snd (getNextScenario (dEncounter d) (Player.level (player g)) (scenarioManager g))"
  by (simp_all add: proceedToNextScenario_def Let_def split_beta victory_fields split: option.split)

lemma proceedToNextScenario_state:
  "(case fst (getNextScenario (dEncounter d) (Player.level (player g)) (scenarioManager g)) of
      None \<Rightarrow> state (proceedToNextScenario d g) = VICTORY
              \<and> Game.currentScenario (proceedToNextScenario d g) = Game.currentScenario g
    | Some sc \<Rightarrow> state (proceedToNextScenario d g) = SCENARIO
              \<and> Game.currentScenario (proceedToNextScenario d g) = Some sc
              \<and> selectedOption (proceedToNextScenario d g) = 0)"
  by (simp add: proceedToNextScenario_def Let_def split_beta victory_fields split: option.split)

lemma leaveCombat_fields:
  "player (leaveCombat d g) = (player g)\<lparr>tempStats := Map.empty\<rparr>"
  "currentEnemy (leaveCombat d g) = None"
  "scenarioManager (leaveCombat d g)
     = snd (getNextScenario (dEncounter d) (Player.level (player g)) (scenarioManager g))"
  by (simp_all add: leaveCombat_def proceedToNextScenario_fields)


lemma endCombat_won:
  assumes "currentEnemy g = Some e"
  shows "endCombat True d g =
     Some (if fst (grantRewards d e g) then (snd (grantRewards d e g))\<lparr>state := LEVEL_UP, statSelection := 0\<rparr>
           else if (case Game.currentScenario g of None \<Rightarrow> False | Some sc \<Rightarrow> isBoss sc)
           then victory (snd (grantRewards d e g))
           else leaveCombat d (snd (grantRewards d e g)))"
  using assms by (simp add: endCombat_def split_beta grantRewards_fields)






section \<open>The inventory and the level-up screen\<close>

lemma handleInventoryInput_cancel:
  assumes "key = ''Escape'' \<or> key = ''i'' \<or> key = ''I''"
  shows "handleInventoryInput key g = g\<lparr>state := EXPLORING\<rparr>"
  using assms by (elim disjE) (simp_all add: handleInventoryInput_def Let_def)

lemma handleInventoryInput_keeps:
  "state (handleInventoryInput key g) = state g \<or> state (handleInventoryInput key g) = EXPLORING"
  "scenarioManager (handleInventoryInput key g) = scenarioManager g"
  "Game.currentScenario (handleInventoryInput key g) = Game.currentScenario g"
  "currentEnemy (handleInventoryInput key g) = currentEnemy g"
  "timers (handleInventoryInput key g) = timers g"
  by (simp_all add: handleInventoryInput_def Let_def split_beta addMessage_fields split: option.split)

lemma handleLevelUpInput_keeps:
  "state (handleLevelUpInput key g) = state g \<or> state (handleLevelUpInput key g) = EXPLORING"
  "scenarioManager (handleLevelUpInput key g) = scenarioManager g"
  "Game.currentScenario (handleLevelUpInput key g) = Game.currentScenario g"
  "currentEnemy (handleLevelUpInput key g) = currentEnemy g"
  "timers (handleLevelUpInput key g) = timers g"
  by (simp_all add: handleLevelUpInput_def Let_def addMessage_fields)

text \<open>
  From \<open>EXPLORING\<close>, \<open>INVENTORY\<close> and \<open>LEVEL_UP\<close> every key leads to one of these
  three states again and leaves the scenario, the scenario manager and the enemy as they
  are.
\<close>

lemma stranded:
  assumes "state g = EXPLORING \<or> state g = INVENTORY \<or> state g = LEVEL_UP"
  shows "\<exists>g'. handleKeyPress key d g = Some g'
    \<and> (state g' = EXPLORING \<or> state g' = INVENTORY \<or> state g' = LEVEL_UP)
    \<and> scenarioManager g' = scenarioManager g
    \<and> Game.currentScenario g' = Game.currentScenario g
    \<and> currentEnemy g' = currentEnemy g"
  using assms
proof (elim disjE)
  assume "state g = EXPLORING"
  then show ?thesis by (simp add: handleKeyPress_def)
next
  assume s: "state g = INVENTORY"
  with handleInventoryInput_keeps[of key g] show ?thesis
    by (auto simp: handleKeyPress_def)
next
  assume s: "state g = LEVEL_UP"
  with handleLevelUpInput_keeps[of key g] show ?thesis
    by (auto simp: handleKeyPress_def)
qed

text \<open>
  So a run of keys from \<open>EXPLORING\<close> or \<open>INVENTORY\<close> never throws and ends in one of
  these two states, with the enemy, the scenario and the scenario manager it started with.
\<close>

lemma stranded_run:
  assumes "state g = EXPLORING \<or> state g = INVENTORY"
  shows "case pressKeys ks d g of
           None \<Rightarrow> False
         | Some g' \<Rightarrow> (state g' = EXPLORING \<or> state g' = INVENTORY)
                      \<and> currentEnemy g' = currentEnemy g
                      \<and> Game.currentScenario g' = Game.currentScenario g
                      \<and> scenarioManager g' = scenarioManager g"
  using assms
proof (induction ks arbitrary: g)
  case Nil
  then show ?case by simp
next
  case (Cons k ks)
  have "\<exists>g1. handleKeyPress k d g = Some g1 \<and> (state g1 = EXPLORING \<or> state g1 = INVENTORY)
      \<and> currentEnemy g1 = currentEnemy g \<and> Game.currentScenario g1 = Game.currentScenario g
      \<and> scenarioManager g1 = scenarioManager g"
  proof (cases "state g = EXPLORING")
    case True
    then show ?thesis
      by (cases "k = ''i'' \<or> k = ''I''") (simp_all add: handleKeyPress_def)
  next
    case False
    with Cons.prems have i: "state g = INVENTORY"
      by simp
    with handleInventoryInput_keeps[of k g] show ?thesis
      by (auto simp: handleKeyPress_def)
  qed
  then obtain g1 where g1: "handleKeyPress k d g = Some g1" "state g1 = EXPLORING \<or> state g1 = INVENTORY"
    "currentEnemy g1 = currentEnemy g" "Game.currentScenario g1 = Game.currentScenario g"
    "scenarioManager g1 = scenarioManager g"
    by blast
  from Cons.IH[OF g1(2)] g1 show ?case
    by (simp split: option.splits)
qed

section \<open>The bounds of the health\<close>

lemma Player_new_sound: "Player_sound Player_new"
  by (simp add: Player_sound_def Player_healthInRange_def Player_new_def)

lemma takeDamage_sound: "Player_sound p \<Longrightarrow> Player_sound (snd (Player_takeDamage amount p))"
  unfolding Player_sound_def Player_healthInRange_def Player_takeDamage_def Let_def
  by simp linarith

lemma levelUp_sound: "Player_sound p \<Longrightarrow> Player_sound (levelUp p)"
  by (simp add: Player_sound_def Player_healthInRange_def levelUp_def Let_def)

lemma addXP_sound: "Player_sound p \<Longrightarrow> Player_sound (snd (addXP n p))"
proof -
  assume p: "Player_sound p"
  then have "Player_sound (p\<lparr>xp := xp p + n\<rparr>)"
    by (simp add: Player_sound_def Player_healthInRange_def)
  then show ?thesis
    by (simp add: addXP_def Let_def levelUp_sound)
qed

lemma runEffect_sound: "Player_sound p \<Longrightarrow> Player_sound (snd (runEffect f p))"
  by (cases f) (simp_all add: Player_sound_def Player_healthInRange_def runEffect_def)

lemma use_sound: "Player_sound p \<Longrightarrow> Player_sound (snd (use item p))"
  by (simp add: use_def split_beta runEffect_sound split: itemEffect.split)

lemma sound_update:
  "Player_sound p \<Longrightarrow> Player_sound (p\<lparr>inventory := i\<rparr>)"
  "Player_sound p \<Longrightarrow> Player_sound (p\<lparr>tempStats := t\<rparr>)"
  "Player_sound p \<Longrightarrow> Player_sound (p\<lparr>baseStats := b\<rparr>)"
  "Player_sound p \<Longrightarrow> Player_sound (p\<lparr>chosenPath := c\<rparr>)"
  "Player_sound p \<Longrightarrow> Player_sound (p\<lparr>statPoints := n\<rparr>)"
  by (simp_all add: Player_sound_def Player_healthInRange_def)

lemma randomInt_bounds:
  assumes "lo \<le> hi"
  shows "lo \<le> randomInt r lo hi \<and> randomInt r lo hi \<le> hi"
proof -
  have r: "0 \<le> Rep_rnd r" "Rep_rnd r < 1"
    using Rep_rnd[of r] by simp_all
  have n: "0 < real_of_int (hi - lo + 1)"
    using assms by simp
  have "0 \<le> Rep_rnd r * real_of_int (hi - lo + 1)"
    using r n by simp
  then have a: "0 \<le> \<lfloor>Rep_rnd r * real_of_int (hi - lo + 1)\<rfloor>"
    by simp
  have "Rep_rnd r * real_of_int (hi - lo + 1) < real_of_int (hi - lo + 1)"
    using r n by simp
  then have b: "\<lfloor>Rep_rnd r * real_of_int (hi - lo + 1)\<rfloor> < hi - lo + 1"
    by (simp only: floor_less_iff)
  from a b show ?thesis
    unfolding randomInt_def by linarith
qed

lemma sound_max1:
  "Player_sound p \<Longrightarrow> 0 \<le> n \<Longrightarrow>
   Player_sound (p\<lparr>Player.health := max 1 (Player.health p - n), baseStats := b\<rparr>)"
  unfolding Player_sound_def Player_healthInRange_def
  by simp

lemma runAction_sound:
  assumes "Player_sound (player g)"
  shows "Player_sound (player (snd (runAction r a g)))"
proof -
  have "0 \<le> randomInt r 10 20"
    using randomInt_bounds[of 10 20 r] by simp
  with assms show ?thesis
    by (cases a) (simp_all add: runAction_def Let_def sound_update sound_max1 addXP_sound)
qed

lemma Enemy_takeDamage_range:
  "Enemy_healthInRange e \<Longrightarrow> Enemy_healthInRange (snd (Enemy_takeDamage amount e))"
  unfolding Enemy_healthInRange_def Enemy_takeDamage_def Let_def
  by simp linarith

lemma templates_range:
  assumes "0 \<le> lvl"
  shows "Enemy_healthInRange (goblin lvl)" "Enemy_healthInRange (knight lvl)"
    "Enemy_healthInRange (lightGuardian lvl)" "Enemy_healthInRange (shadowBeast lvl)"
    "Enemy_healthInRange (darkMage lvl)" "Enemy_healthInRange (shadowLord lvl)"
  using assms
  by (simp_all add: Enemy_healthInRange_def goblin_def knight_def lightGuardian_def
      shadowBeast_def darkMage_def shadowLord_def)

section \<open>The reachable games\<close>

lemma Game_core_cong:
  assumes "player g' = player g" "currentEnemy g' = currentEnemy g"
    "Game.currentScenario g' = Game.currentScenario g"
  shows "Game_core g' = Game_core g"
  using assms by (simp add: Game_core_def)

lemma Game_core_addMessage: "Game_core (addMessage m g) = Game_core g"
  by (rule Game_core_cong) (simp_all add: addMessage_fields)

lemma entrance_wellFormed: "Scenario_wellFormed entrance"
  by (simp add: Scenario_wellFormed_def entrance_def Scenario_new_def)

lemma catalogue_wellFormed: "SCENARIOS k = Some sc \<Longrightarrow> Scenario_wellFormed sc \<and> \<not> combat sc"
  by (auto simp: SCENARIOS_def Scenario_wellFormed_def Scenario_new_def entrance_def lightShrine_def
      lightTreasure_def shadowRitual_def shadowAmbush_def split: if_splits)

lemma randomChoice_pair: "randomChoice r [a, b] = a \<or> randomChoice r [a, b] = b"
  using randomChoice_mem[of "[a, b]" r] by auto

lemma createCombatScenario_wellFormed:
  assumes "0 \<le> lvl"
  shows "Scenario_wellFormed (createCombatScenario r lvl sm)"
proof (cases "currentPath sm = Some ''light''")
  case True
  with randomChoice_pair[of r "''goblin''" "''knight''"] templates_range[OF assms] show ?thesis
    by (auto simp: createCombatScenario_def Scenario_wellFormed_def Let_def ENEMY_TEMPLATES_def)
next
  case False
  with randomChoice_pair[of r "''shadowBeast''" "''darkMage''"] templates_range[OF assms] show ?thesis
    by (auto simp: createCombatScenario_def Scenario_wellFormed_def Let_def ENEMY_TEMPLATES_def)
qed

lemma createBossScenario_wellFormed:
  assumes "0 \<le> lvl"
  shows "Scenario_wellFormed (createBossScenario lvl sm)"
proof -
  from assms have "0 \<le> lvl + 1" by simp
  from templates_range[OF this] show ?thesis
    by (simp add: createBossScenario_def Scenario_wellFormed_def Let_def ENEMY_TEMPLATES_def)
qed

lemma getNextScenario_wellFormed:
  assumes "0 \<le> lvl" and "fst (getNextScenario r lvl sm) = Some sc"
  shows "Scenario_wellFormed sc"
proof (cases "pathChosen (currentPath sm)")
  case False
  with assms(2) show ?thesis
    by (simp add: getNextScenario_def entrance_wellFormed)
next
  case True
  let ?seq = "if currentPath sm = Some ''light'' then lightPathSequence else shadowPathSequence"
  let ?sm = "sm\<lparr>scenarioIndex := scenarioIndex sm + 1\<rparr>"
  from True assms(2) have i: "scenarioIndex sm < length ?seq"
    by (simp add: getNextScenario_def Let_def split: if_splits)
  consider "?seq ! scenarioIndex sm = ''combat''"
    | "?seq ! scenarioIndex sm \<noteq> ''combat''" "?seq ! scenarioIndex sm = ''bossCombat''"
    | "?seq ! scenarioIndex sm \<noteq> ''combat''" "?seq ! scenarioIndex sm \<noteq> ''bossCombat''"
    by blast
  then show ?thesis
  proof cases
    case 1
    with True i assms(2) have "sc = createCombatScenario r lvl ?sm"
      by (simp add: getNextScenario_def Let_def split: if_splits)
    then show ?thesis
      by (simp add: createCombatScenario_wellFormed[OF assms(1)])
  next
    case 2
    with True i assms(2) have "sc = createBossScenario lvl ?sm"
      by (simp add: getNextScenario_def Let_def split: if_splits)
    then show ?thesis
      by (simp add: createBossScenario_wellFormed[OF assms(1)])
  next
    case 3
    with True i assms(2) have "SCENARIOS (?seq ! scenarioIndex sm) = Some sc"
      by (simp add: getNextScenario_def Let_def split: if_splits)
    then show ?thesis
      using catalogue_wellFormed by blast
  qed
qed

lemma wellFormed_choices: "Scenario_wellFormed sc \<Longrightarrow> \<not> combat sc \<Longrightarrow> 0 < int (length (choices sc))"
  by (simp add: Scenario_wellFormed_def)

lemma victory_inv:
  assumes "Game_core g" and "timers g = 0"
  shows "Game_inv (victory g)"
proof -
  have "Game_core (victory g) = Game_core g"
    by (rule Game_core_cong) (simp_all add: victory_fields)
  with assms show ?thesis
    by (simp add: Game_inv_def victory_def Let_def split: option.split)
qed

lemma gameOver_inv:
  assumes "Game_core g" and "timers g = 0"
  shows "Game_inv (gameOver g)"
proof -
  have "Game_core (gameOver g) = Game_core g"
    by (rule Game_core_cong) (simp_all add: gameOver_def)
  with assms show ?thesis
    by (simp add: Game_inv_def gameOver_def split: option.split)
qed

lemma proceedToNextScenario_inv:
  assumes c: "Game_core g" and t: "timers g = 0"
  shows "Game_inv (proceedToNextScenario d g)"
proof -
  let ?n = "getNextScenario (dEncounter d) (Player.level (player g)) (scenarioManager g)"
  let ?g1 = "g\<lparr>scenarioManager := snd ?n\<rparr>"
  have c1: "Game_core ?g1"
    using c by (simp add: Game_core_def)
  from c have l: "0 \<le> Player.level (player g)"
    by (simp add: Game_core_def)
  show ?thesis
  proof (cases "fst ?n")
    case None
    then have "proceedToNextScenario d g = victory ?g1"
      by (simp add: proceedToNextScenario_def split_beta)
    with victory_inv[OF c1] t show ?thesis
      by simp
  next
    case (Some sc)
    then have e: "proceedToNextScenario d g
        = ?g1\<lparr>Game.currentScenario := Some sc, state := SCENARIO, selectedOption := 0\<rparr>"
      by (simp add: proceedToNextScenario_def split_beta)
    from getNextScenario_wellFormed[OF l Some] have w: "Scenario_wellFormed sc" .
    from c w t wellFormed_choices[OF w] show ?thesis
      unfolding e by (simp add: Game_inv_def Game_core_def)
  qed
qed

lemma grantRewards_core:
  assumes "Game_core g"
  shows "Game_core (snd (grantRewards d e g))"
proof -
  from assms have p: "Player_sound (player g)" and l: "0 \<le> Player.level (player g)"
    by (simp_all add: Game_core_def)
  have l': "0 \<le> Player.level (snd (addXP n (player g)))" for n
    using l by (simp add: addXP_def Let_def levelUp_def)
  have "Player_sound (player (snd (grantRewards d e g)))"
    by (simp add: grantRewards_player addXP_sound[OF p] sound_update)
  moreover have "0 \<le> Player.level (player (snd (grantRewards d e g)))"
    using l' by (simp add: grantRewards_player)
  ultimately show ?thesis
    using assms by (simp add: Game_core_def grantRewards_fields)
qed

lemma leaveCombat_inv:
  assumes c: "Game_core g" and t: "timers g = 0"
  shows "Game_inv (leaveCombat d g)"
proof -
  let ?g = "g\<lparr>currentEnemy := None, player := (player g)\<lparr>tempStats := Map.empty\<rparr>\<rparr>"
  from c have "Game_core ?g"
    by (simp add: Game_core_def sound_update)
  moreover from t have "timers ?g = 0"
    by simp
  ultimately show ?thesis
    unfolding leaveCombat_def by (rule proceedToNextScenario_inv)
qed

lemma endCombat_inv:
  assumes c: "Game_core g" and t: "timers g = 0" and e: "won \<longrightarrow> currentEnemy g \<noteq> None"
  shows "\<exists>g'. endCombat won d g = Some g' \<and> Game_inv g'"
proof (cases won)
  case False
  with leaveCombat_inv[OF c t] show ?thesis
    by (simp add: endCombat_def)
next
  case True
  with e obtain en where en: "currentEnemy g = Some en"
    by auto
  let ?g3 = "snd (grantRewards d en g)"
  have c3: "Game_core ?g3"
    by (rule grantRewards_core[OF c])
  have t3: "timers ?g3 = 0"
    using t by (simp add: grantRewards_fields)
  have lu: "Game_inv (?g3\<lparr>state := LEVEL_UP, statSelection := 0\<rparr>)"
    using c3 t3 by (simp add: Game_inv_def Game_core_def split: option.split)
  from True have eq: "endCombat won d g = endCombat True d g"
    by simp
  show ?thesis
    unfolding eq endCombat_won[OF en] using lu victory_inv[OF c3 t3] leaveCombat_inv[OF c3 t3, of d]
    by simp
qed

lemma checkCombatEnd_inv:
  assumes c: "Game_core g" and t: "timers g = 0" and e: "currentEnemy g \<noteq> None"
    and s: "state g = COMBAT"
  shows "\<exists>g'. checkCombatEnd d g = Some g' \<and> Game_inv g'"
proof -
  from e obtain en where en: "currentEnemy g = Some en"
    by auto
  have i0: "Game_inv g"
    using c t e s by (simp add: Game_inv_def split: option.split)
  have i1: "Game_inv (g\<lparr>timers := timers g + 1\<rparr>)" if "\<not> playerTurn (combatSystem g)"
    using c t e s that by (simp add: Game_inv_def Game_core_def split: option.split)
  from endCombat_inv[OF c t, of True d] e obtain g' where g': "endCombat True d g = Some g'" "Game_inv g'"
    by auto
  show ?thesis
    using en g' gameOver_inv[OF c t] i0 i1
    by (simp add: checkCombatEnd_def)
qed

lemma Game_inv_idle:
  assumes "Game_core g" "timers g = 0" "state g \<noteq> SCENARIO" "state g \<noteq> COMBAT"
  shows "Game_inv g"
  using assms by (simp add: Game_inv_def split: option.split)

lemma Game_inv_timers0: "Game_inv g \<Longrightarrow> state g \<noteq> COMBAT \<or> playerTurn (combatSystem g) \<Longrightarrow> timers g = 0"
  by (auto simp: Game_inv_def)

lemma Game_inv_core: "Game_inv g \<Longrightarrow> Game_core g"
  by (simp add: Game_inv_def)

lemma playerTurn_addLog: "playerTurn (addLog m cs) = playerTurn cs"
  by (simp add: addLog_def Let_def)

lemma playerAttack_facts:
  "Enemy_healthInRange e \<Longrightarrow> Enemy_healthInRange (fst (snd (playerAttack r1 r2 p e cs)))"
  "playerTurn (snd (snd (playerAttack r1 r2 p e cs))) = playerTurn cs"
  by (simp_all add: playerAttack_def Let_def split_beta playerTurn_addLog Enemy_takeDamage_range)

lemma playerSpecialAttack_facts:
  "Enemy_healthInRange e \<Longrightarrow> Enemy_healthInRange (fst (snd (playerSpecialAttack r1 r2 p e cs)))"
  "playerTurn (snd (snd (playerSpecialAttack r1 r2 p e cs))) = playerTurn cs"
  by (simp_all add: playerSpecialAttack_def Let_def split_beta playerTurn_addLog Enemy_takeDamage_range)

lemma Player_takeDamage_level: "Player.level (snd (Player_takeDamage n p)) = Player.level p"
  by (simp add: Player_takeDamage_def Let_def)

lemma enemyTurn_facts:
  "Player_sound p \<Longrightarrow> Player_sound (fst (snd (enemyTurn r1 r2 r3 p e cs)))"
  "Player.level (fst (snd (enemyTurn r1 r2 r3 p e cs))) = Player.level p"
  "playerTurn (snd (snd (enemyTurn r1 r2 r3 p e cs))) = playerTurn cs"
  by (simp_all add: enemyTurn_def Let_def split_beta playerTurn_addLog takeDamage_sound
      Player_takeDamage_level)

lemma attemptEscape_playerTurn: "playerTurn (snd (attemptEscape r p e cs)) = playerTurn cs"
  by (simp add: attemptEscape_def Let_def playerTurn_addLog)

lemma Game_core_combat:
  assumes "Game_core g" and "Enemy_healthInRange e'"
  shows "Game_core (g\<lparr>currentEnemy := Some e', combatSystem := cs\<rparr>)"
  using assms by (simp add: Game_core_def)

lemma Game_core_combatSystem:
  assumes "Game_core g"
  shows "Game_core (g\<lparr>combatSystem := cs\<rparr>)"
  using assms by (simp add: Game_core_def)

lemma executeCombatAction_inv:
  assumes i: "Game_inv g" and s: "state g = COMBAT" and pt: "playerTurn (combatSystem g)"
  shows "\<exists>g'. executeCombatAction n d g = Some g' \<and> Game_inv g'"
proof -
  from i s obtain e where e: "currentEnemy g = Some e"
    by (auto simp: Game_inv_def)
  from i have c: "Game_core g"
    by (rule Game_inv_core)
  from c e have er: "Enemy_healthInRange e"
    by (simp add: Game_core_def)
  from Game_inv_timers0[OF i] pt have t: "timers g = 0"
    by simp
  consider "n = 0" | "n = 1" | "n = 2" | "n = 3" | "n \<noteq> 0" "n \<noteq> 1" "n \<noteq> 2" "n \<noteq> 3"
    by blast
  then show ?thesis
  proof cases
    case 1
    let ?r = "playerAttack (dDamage d) (dDodge d) (player g) e (combatSystem g)"
    let ?g1 = "g\<lparr>currentEnemy := Some (fst (snd ?r)), combatSystem := endTurn (snd (snd ?r))\<rparr>"
    have "Game_core ?g1"
      by (rule Game_core_combat[OF c playerAttack_facts(1)[OF er]])
    from checkCombatEnd_inv[OF this, of d] t s 1 e show ?thesis
      by (simp add: executeCombatAction_def split_beta)
  next
    case 2
    let ?r = "playerSpecialAttack (dDamage d) (dDodge d) (player g) e (combatSystem g)"
    let ?g1 = "g\<lparr>currentEnemy := Some (fst (snd ?r)), combatSystem := endTurn (snd (snd ?r))\<rparr>"
    have "Game_core ?g1"
      by (rule Game_core_combat[OF c playerSpecialAttack_facts(1)[OF er]])
    from checkCombatEnd_inv[OF this, of d] t s 2 e show ?thesis
      by (simp add: executeCombatAction_def split_beta)
  next
    case 3
    have "Game_inv (g\<lparr>state := INVENTORY, inventorySelection := 0\<rparr>)"
      using c t by (intro Game_inv_idle) (simp_all add: Game_core_def)
    with 3 show ?thesis
      by (simp add: executeCombatAction_def)
  next
    case 4
    let ?r = "attemptEscape (dEscape d) (player g) (currentEnemy g) (combatSystem g)"
    have c1: "Game_core (g\<lparr>combatSystem := snd ?r\<rparr>)"
      by (rule Game_core_combatSystem[OF c])
    have c2: "Game_core (g\<lparr>combatSystem := endTurn (snd ?r)\<rparr>)"
      by (rule Game_core_combatSystem[OF c])
    from endCombat_inv[OF c1, of False d] t have a: "\<exists>g'. endCombat False d (g\<lparr>combatSystem := snd ?r\<rparr>) = Some g' \<and> Game_inv g'"
      by simp
    from checkCombatEnd_inv[OF c2, of d] t s e
    have b: "\<exists>g'. checkCombatEnd d (g\<lparr>combatSystem := endTurn (snd ?r)\<rparr>) = Some g' \<and> Game_inv g'"
      by simp
    from 4 a b show ?thesis
      by (simp add: executeCombatAction_def split_beta Let_def)
  next
    case 5
    from checkCombatEnd_inv[OF c t _ s, of d] e 5 show ?thesis
      by (simp add: executeCombatAction_def)
  qed
qed

lemma handleCombatInput_inv:
  assumes i: "Game_inv g" and s: "state g = COMBAT"
  shows "\<exists>g'. handleCombatInput key d g = Some g' \<and> Game_inv g'"
proof (cases "playerTurn (combatSystem g)")
  case False
  with i show ?thesis
    by (simp add: handleCombatInput_def)
next
  case True
  have sel: "Game_inv (g\<lparr>selectedOption := n\<rparr>)" for n
    using i s by (simp add: Game_inv_def Game_core_def split: option.split)
  from True sel i executeCombatAction_inv[OF i s True, of "selectedOption g" d] show ?thesis
    by (simp add: handleCombatInput_def Let_def)
qed

lemma runAction_fields:
  "state (snd (runAction r a g)) = state g"
  "currentEnemy (snd (runAction r a g)) = currentEnemy g"
  "Game.currentScenario (snd (runAction r a g)) = Game.currentScenario g"
  "timers (snd (runAction r a g)) = timers g"
  by (cases a; simp add: runAction_def Let_def)+

lemma addXP_level: "0 \<le> Player.level p \<Longrightarrow> 0 \<le> Player.level (snd (addXP n p))"
  by (simp add: addXP_def Let_def levelUp_def)

lemma runAction_level:
  "0 \<le> Player.level (player g) \<Longrightarrow> 0 \<le> Player.level (player (snd (runAction r a g)))"
  by (cases a) (simp_all add: runAction_def Let_def addXP_level)

lemma runAction_core:
  assumes "Game_core g"
  shows "Game_core (snd (runAction r a g))"
proof -
  from assms have "Player_sound (player g)" "0 \<le> Player.level (player g)"
    by (simp_all add: Game_core_def)
  then have "Player_sound (player (snd (runAction r a g)))" "0 \<le> Player.level (player (snd (runAction r a g)))"
    by (simp_all add: runAction_sound runAction_level)
  with assms show ?thesis
    by (simp add: Game_core_def runAction_fields)
qed

lemma element_Some: "0 \<le> i \<Longrightarrow> i < int (length xs) \<Longrightarrow> element xs i = Some (xs ! nat i)"
  by (simp add: element_def)

lemma handleScenarioInput_inv:
  assumes i: "Game_inv g" and s: "state g = SCENARIO"
  shows "\<exists>g'. handleScenarioInput key d g = Some g' \<and> Game_inv g'"
proof (cases "Game.currentScenario g")
  case None
  with i show ?thesis
    by (simp add: handleScenarioInput_def)
next
  case (Some sc)
  from i have c: "Game_core g"
    by (rule Game_inv_core)
  from Game_inv_timers0[OF i] s have t: "timers g = 0"
    by simp
  from c Some have w: "Scenario_wellFormed sc"
    by (simp add: Game_core_def)
  show ?thesis
  proof (cases "combat sc")
    case True
    with w obtain e where e: "enemy sc = Some e" "Enemy_healthInRange e"
      by (auto simp: Scenario_wellFormed_def split: option.splits)
    have "Game_inv (startCombat e g)"
      using c t e by (simp add: startCombat_def Game_inv_def Game_core_def split: option.split)
    with Some True e i show ?thesis
      by (simp add: handleScenarioInput_def)
  next
    case False
    from i Some s False have r: "0 \<le> selectedOption g" "selectedOption g < int (length (choices sc))"
      by (simp_all add: Game_inv_def)
    from r have ne: "choices sc \<noteq> []"
      by auto
    have up: "Game_inv (g\<lparr>selectedOption := max 0 (selectedOption g - 1)\<rparr>)"
      using i Some r ne by (simp add: Game_inv_def Game_core_def)
    have down: "Game_inv (g\<lparr>selectedOption := min (int (length (choices sc)) - 1) (selectedOption g + 1)\<rparr>)"
      using i Some r ne by (simp add: Game_inv_def Game_core_def) linarith
    let ?choice = "choices sc ! nat (selectedOption g)"
    let ?g1 = "snd (runAction (dScenario d) (action ?choice) g)"
    let ?g3 = "(addMessage (fst (runAction (dScenario d) (action ?choice) g)) ?g1)\<lparr>selectedOption := 0\<rparr>"
    have "Game_core ?g1"
      by (rule runAction_core[OF c])
    then have c3: "Game_core ?g3"
      by (simp add: Game_core_def addMessage_fields)
    have t3: "timers ?g3 = 0"
      using t by (simp add: addMessage_fields runAction_fields)
    have enter: "Game_inv (proceedToNextScenario d ?g3)"
      by (rule proceedToNextScenario_inv[OF c3 t3])
    from Some False up down enter i show ?thesis
      by (simp add: handleScenarioInput_def element_Some[OF r] split_beta Let_def)
  qed
qed

lemma use_level: "Player.level (snd (use item p)) = Player.level p"
  by (simp add: use_def runEffect_def split_beta split: itemEffect.split effectFn.split)

lemma handleInventoryInput_player:
  assumes "Player_sound (player g)" and "0 \<le> Player.level (player g)"
  shows "Player_sound (player (handleInventoryInput key g))
    \<and> 0 \<le> Player.level (player (handleInventoryInput key g))"
  using assms
  by (simp add: handleInventoryInput_def Let_def split_beta addMessage_fields sound_update use_sound
      use_level split: option.split)

lemma handleInventoryInput_inv:
  assumes i: "Game_inv g" and s: "state g = INVENTORY"
  shows "Game_inv (handleInventoryInput key g)"
proof -
  from i have c: "Game_core g"
    by (rule Game_inv_core)
  from Game_inv_timers0[OF i] s have t: "timers g = 0"
    by simp
  from c handleInventoryInput_player[of g key] have "Game_core (handleInventoryInput key g)"
    by (simp add: Game_core_def handleInventoryInput_keeps)
  moreover from handleInventoryInput_keeps(1)[of key g] s
  have "state (handleInventoryInput key g) \<noteq> SCENARIO" "state (handleInventoryInput key g) \<noteq> COMBAT"
    by auto
  ultimately show ?thesis
    using t by (intro Game_inv_idle) (simp_all add: handleInventoryInput_keeps)
qed

lemma allocateStat_facts:
  "Player_sound p \<Longrightarrow> Player_sound (snd (allocateStat stat p))"
  "Player.level (snd (allocateStat stat p)) = Player.level p"
  by (simp_all add: allocateStat_def Player_sound_def Player_healthInRange_def)

lemma handleLevelUpInput_player:
  assumes "Player_sound (player g)" and "0 \<le> Player.level (player g)"
  shows "Player_sound (player (handleLevelUpInput key g))
    \<and> 0 \<le> Player.level (player (handleLevelUpInput key g))"
  using assms
  by (simp add: handleLevelUpInput_def Let_def addMessage_fields allocateStat_facts)

lemma handleLevelUpInput_inv:
  assumes i: "Game_inv g" and s: "state g = LEVEL_UP"
  shows "Game_inv (handleLevelUpInput key g)"
proof -
  from i have c: "Game_core g"
    by (rule Game_inv_core)
  from Game_inv_timers0[OF i] s have t: "timers g = 0"
    by simp
  from c handleLevelUpInput_player[of g key] have "Game_core (handleLevelUpInput key g)"
    by (simp add: Game_core_def handleLevelUpInput_keeps)
  moreover from handleLevelUpInput_keeps(1)[of key g] s
  have "state (handleLevelUpInput key g) \<noteq> SCENARIO" "state (handleLevelUpInput key g) \<noteq> COMBAT"
    by auto
  ultimately show ?thesis
    using t by (intro Game_inv_idle) (simp_all add: handleLevelUpInput_keeps)
qed

lemma Game_new_inv: "Game_inv Game_new"
  by (simp add: Game_inv_def Game_core_def Game_new_def Player_new_sound) (simp add: Player_new_def)

lemma startGame_inv:
  assumes "Game_inv g" and "state g = MENU"
  shows "Game_inv (startGame g)"
proof -
  from Game_inv_timers0[OF assms(1)] assms(2) have "timers g = 0"
    by simp
  moreover have "Player.level Player_new = 1"
    by (simp add: Player_new_def)
  moreover have "choices entrance \<noteq> []" "\<not> combat entrance"
    by (simp_all add: entrance_def Scenario_new_def)
  ultimately show ?thesis
    using assms Game_inv_core[OF assms(1)]
    by (simp add: startGame_def Game_inv_def Game_core_def Player_new_sound entrance_wellFormed)
qed

lemma reset_inv:
  assumes "Game_inv g" and "state g \<noteq> COMBAT"
  shows "Game_inv (reset g)"
proof -
  from Game_inv_timers0[OF assms(1)] assms(2) have "timers g = 0"
    by simp
  moreover have "Player.level Player_new = 1"
    by (simp add: Player_new_def)
  ultimately show ?thesis
    by (simp add: reset_def Game_inv_def Game_core_def Player_new_sound)
qed

lemma handleKeyPress_inv:
  assumes i: "Game_inv g"
  shows "\<exists>g'. handleKeyPress key d g = Some g' \<and> Game_inv g'"
proof (cases "state g")
  case MENU
  with i startGame_inv[OF i] show ?thesis
    by (simp add: handleKeyPress_def)
next
  case EXPLORING
  from Game_inv_timers0[OF i] EXPLORING have "timers g = 0"
    by simp
  with Game_inv_core[OF i] have "Game_inv (g\<lparr>state := INVENTORY, inventorySelection := 0\<rparr>)"
    by (intro Game_inv_idle) (simp_all add: Game_core_def)
  with i EXPLORING show ?thesis
    by (simp add: handleKeyPress_def)
next
  case COMBAT
  with handleCombatInput_inv[OF i, of key d] show ?thesis
    by (simp add: handleKeyPress_def)
next
  case SCENARIO
  with handleScenarioInput_inv[OF i, of key d] show ?thesis
    by (simp add: handleKeyPress_def)
next
  case INVENTORY
  with handleInventoryInput_inv[OF i, of key] show ?thesis
    by (simp add: handleKeyPress_def)
next
  case LEVEL_UP
  with handleLevelUpInput_inv[OF i, of key] show ?thesis
    by (simp add: handleKeyPress_def)
next
  case GAME_OVER
  with i reset_inv[OF i] show ?thesis
    by (simp add: handleKeyPress_def)
next
  case VICTORY
  with i reset_inv[OF i] show ?thesis
    by (simp add: handleKeyPress_def)
qed

lemma fireTimer_inv:
  assumes i: "Game_inv g"
  shows "\<exists>g'. fireTimer d g = Some g' \<and> Game_inv g'"
proof (cases "timers g = 0")
  case True
  with i show ?thesis
    by (simp add: fireTimer_def)
next
  case False
  with i have f: "timers g = 1" "state g = COMBAT" "\<not> playerTurn (combatSystem g)"
    by (auto simp: Game_inv_def)
  with i obtain e where e: "currentEnemy g = Some e"
    by (auto simp: Game_inv_def)
  from i have c: "Game_core g"
    by (rule Game_inv_core)
  let ?g0 = "g\<lparr>timers := timers g - 1\<rparr>"
  let ?r = "enemyTurn (dAI d) (dDamage d) (dDodge d) (player ?g0) e (combatSystem ?g0)"
  let ?g1 = "?g0\<lparr>player := fst (snd ?r), combatSystem := endTurn (snd (snd ?r))\<rparr>"
  from c have "Player_sound (player g)" "0 \<le> Player.level (player g)"
    by (simp_all add: Game_core_def)
  then have "Player_sound (fst (snd ?r))" "0 \<le> Player.level (fst (snd ?r))"
    by (simp_all add: enemyTurn_facts)
  with c have c1: "Game_core ?g1"
    by (simp add: Game_core_def)
  from checkCombatEnd_inv[OF c1, of d] f e
  have "\<exists>g'. checkCombatEnd d ?g1 = Some g' \<and> Game_inv g'"
    by simp
  with False e show ?thesis
    by (simp add: fireTimer_def enemyTurnCallback_def split_beta Let_def)
qed

text \<open>
  Every reachable game satisfies the invariant; by \<open>handleKeyPress_inv\<close> and
  \<open>fireTimer_inv\<close> no key and no timer throws in a reachable game.
\<close>

lemma reachable_inv: "reachable g \<Longrightarrow> Game_inv g"
proof (induction rule: reachable.induct)
  case start
  show ?case by (rule Game_new_inv)
next
  case (key g k d g')
  with handleKeyPress_inv[OF key.IH, of k d] show ?case by auto
next
  case (timer g d g')
  with fireTimer_inv[OF timer.IH, of d] show ?case by auto
qed

section \<open>The cursor under the events of the game\<close>

lemma cursor_cong: "scenarioManager g' = scenarioManager g \<Longrightarrow> cursor g' = cursor g"
  by (simp add: cursor_def)

lemma proceedToNextScenario_cursor: "cursor g \<le> cursor (proceedToNextScenario d g)"
  by (simp add: cursor_def proceedToNextScenario_fields getNextScenario_index_mono)

lemma leaveCombat_cursor: "cursor g \<le> cursor (leaveCombat d g)"
  by (simp add: cursor_def leaveCombat_fields getNextScenario_index_mono)

lemma endCombat_cursor:
  assumes "endCombat won d g = Some g'"
  shows "cursor g \<le> cursor g'"
proof (cases won)
  case False
  with assms have "g' = leaveCombat d g"
    by (simp add: endCombat_def)
  with leaveCombat_cursor[of g d] show ?thesis
    by simp
next
  case True
  with assms obtain e where e: "currentEnemy g = Some e"
    by (cases "currentEnemy g") (simp_all add: endCombat_def)
  let ?g3 = "snd (grantRewards d e g)"
  have g3: "cursor ?g3 = cursor g"
    by (simp add: cursor_def grantRewards_fields)
  from assms True have "endCombat True d g = Some g'"
    by simp
  then have "g' = ?g3\<lparr>state := LEVEL_UP, statSelection := 0\<rparr> \<or> g' = victory ?g3
      \<or> g' = leaveCombat d ?g3"
    unfolding endCombat_won[OF e] by (simp split: if_splits)
  then show ?thesis
    using leaveCombat_cursor[of ?g3 d] g3
    by (elim disjE) (simp_all add: cursor_def victory_fields)
qed

lemma checkCombatEnd_cursor:
  assumes "checkCombatEnd d g = Some g'"
  shows "cursor g \<le> cursor g'"
proof -
  from assms obtain e where e: "currentEnemy g = Some e"
    by (cases "currentEnemy g") (simp_all add: checkCombatEnd_def)
  show ?thesis
  proof (cases "Enemy_isAlive e")
    case False
    with assms e have "endCombat True d g = Some g'"
      by (simp add: checkCombatEnd_def)
    then show ?thesis by (rule endCombat_cursor)
  next
    case True
    note alive = this
    show ?thesis
    proof (cases "Player_isAlive (player g)")
      case False
      with assms e alive have "g' = gameOver g"
        by (simp add: checkCombatEnd_def)
      then show ?thesis by (simp add: cursor_def gameOver_def)
    next
      case True
      with assms e alive have "g' = g\<lparr>timers := timers g + 1\<rparr> \<or> g' = g"
        by (cases "playerTurn (combatSystem g)") (simp_all add: checkCombatEnd_def)
      then show ?thesis by (elim disjE) (simp_all add: cursor_def)
    qed
  qed
qed

lemma executeCombatAction_cursor:
  assumes "executeCombatAction n d g = Some g'"
  shows "cursor g \<le> cursor g'"
proof -
  consider "n = 0" | "n = 1" | "n = 2" | "n = 3" | "n \<noteq> 0" "n \<noteq> 1" "n \<noteq> 2" "n \<noteq> 3"
    by blast
  then show ?thesis
  proof cases
    case 1
    with assms obtain e where e: "currentEnemy g = Some e"
      by (cases "currentEnemy g") (simp_all add: executeCombatAction_def)
    let ?r = "playerAttack (dDamage d) (dDodge d) (player g) e (combatSystem g)"
    from assms 1 e
    have "checkCombatEnd d (g\<lparr>currentEnemy := Some (fst (snd ?r)), combatSystem := endTurn (snd (snd ?r))\<rparr>) = Some g'"
      by (simp add: executeCombatAction_def split_beta)
    from checkCombatEnd_cursor[OF this] show ?thesis
      by (simp add: cursor_def)
  next
    case 2
    with assms obtain e where e: "currentEnemy g = Some e"
      by (cases "currentEnemy g") (simp_all add: executeCombatAction_def)
    let ?r = "playerSpecialAttack (dDamage d) (dDodge d) (player g) e (combatSystem g)"
    from assms 2 e
    have "checkCombatEnd d (g\<lparr>currentEnemy := Some (fst (snd ?r)), combatSystem := endTurn (snd (snd ?r))\<rparr>) = Some g'"
      by (simp add: executeCombatAction_def split_beta)
    from checkCombatEnd_cursor[OF this] show ?thesis
      by (simp add: cursor_def)
  next
    case 3
    with assms have "g' = g\<lparr>state := INVENTORY, inventorySelection := 0\<rparr>"
      by (simp add: executeCombatAction_def)
    then show ?thesis
      by (simp add: cursor_def)
  next
    case 4
    let ?r = "attemptEscape (dEscape d) (player g) (currentEnemy g) (combatSystem g)"
    show ?thesis
    proof (cases "fst ?r")
      case True
      with assms 4 have "endCombat False d (g\<lparr>combatSystem := snd ?r\<rparr>) = Some g'"
        by (simp add: executeCombatAction_def split_beta Let_def)
      from endCombat_cursor[OF this] show ?thesis by (simp add: cursor_def)
    next
      case False
      with assms 4 have "checkCombatEnd d (g\<lparr>combatSystem := endTurn (snd ?r)\<rparr>) = Some g'"
        by (simp add: executeCombatAction_def split_beta Let_def)
      from checkCombatEnd_cursor[OF this] show ?thesis by (simp add: cursor_def)
    qed
  next
    case 5
    with assms have "checkCombatEnd d g = Some g'"
      by (simp add: executeCombatAction_def)
    then show ?thesis by (rule checkCombatEnd_cursor)
  qed
qed

lemma handleCombatInput_cursor:
  assumes "handleCombatInput key d g = Some g'"
  shows "cursor g \<le> cursor g'"
proof (cases "playerTurn (combatSystem g)")
  case False
  with assms show ?thesis
    by (simp add: handleCombatInput_def)
next
  case True
  note pt = this
  show ?thesis
  proof (cases "key = ''ArrowUp''")
    case True
    with assms pt have "g' = g\<lparr>selectedOption := max 0 (selectedOption g - 1)\<rparr>"
      by (simp add: handleCombatInput_def Let_def)
    then show ?thesis by (simp add: cursor_def)
  next
    case False
    note nu = this
    show ?thesis
    proof (cases "key = ''ArrowDown''")
      case True
      with assms pt nu have "g' = g\<lparr>selectedOption := min (int (length [''Attack'', ''Special Attack'', ''Use Item'', ''Escape'']) - 1) (selectedOption g + 1)\<rparr>"
        by (simp add: handleCombatInput_def Let_def)
      then show ?thesis by (simp add: cursor_def)
    next
      case False
      note nd = this
      show ?thesis
      proof (cases "key = ''Enter''")
        case True
        with assms pt nu nd have "executeCombatAction (selectedOption g) d g = Some g'"
          by (simp add: handleCombatInput_def Let_def)
        then show ?thesis by (rule executeCombatAction_cursor)
      next
        case False
        with assms pt nu nd have "g' = g"
          by (simp add: handleCombatInput_def Let_def)
        then show ?thesis by simp
      qed
    qed
  qed
qed

lemma runAction_cursor: "cursor (snd (runAction r a g)) = cursor g"
  by (cases a) (simp_all add: runAction_def Let_def cursor_def)

lemma handleScenarioInput_cursor:
  assumes "handleScenarioInput key d g = Some g'"
  shows "cursor g \<le> cursor g'"
proof (cases "Game.currentScenario g")
  case None
  with assms show ?thesis
    by (simp add: handleScenarioInput_def)
next
  case (Some sc)
  show ?thesis
  proof (cases "combat sc")
    case True
    show ?thesis
    proof (cases "key = ''Enter''")
      case False
      with assms Some True show ?thesis
        by (simp add: handleScenarioInput_def)
    next
      case e: True
      with assms Some True obtain en where "enemy sc = Some en" "g' = startCombat en g"
        by (cases "enemy sc") (simp_all add: handleScenarioInput_def)
      then show ?thesis
        by (simp add: startCombat_def cursor_def)
    qed
  next
    case False
    note nc = this
    show ?thesis
    proof (cases "key = ''ArrowUp''")
      case True
      with assms Some nc have "g' = g\<lparr>selectedOption := max 0 (selectedOption g - 1)\<rparr>"
        by (simp add: handleScenarioInput_def)
      then show ?thesis by (simp add: cursor_def)
    next
      case False
      note nu = this
      show ?thesis
      proof (cases "key = ''ArrowDown''")
        case True
        with assms Some nc nu
        have "g' = g\<lparr>selectedOption := min (int (length (choices sc)) - 1) (selectedOption g + 1)\<rparr>"
          by (simp add: handleScenarioInput_def)
        then show ?thesis by (simp add: cursor_def)
      next
        case False
        note nd = this
        show ?thesis
        proof (cases "key = ''Enter''")
          case False
          with assms Some nc nu nd show ?thesis
            by (simp add: handleScenarioInput_def)
        next
          case True
          with assms Some nc nu nd obtain c where c: "element (choices sc) (selectedOption g) = Some c"
            by (cases "element (choices sc) (selectedOption g)") (simp_all add: handleScenarioInput_def)
          let ?g3 = "(addMessage (fst (runAction (dScenario d) (action c) g))
                 (snd (runAction (dScenario d) (action c) g)))\<lparr>selectedOption := 0\<rparr>"
          from assms Some nc nu nd True c have g': "g' = proceedToNextScenario d ?g3"
            by (simp add: handleScenarioInput_def split_beta Let_def)
          have "cursor ?g3 = cursor g"
            using runAction_cursor[of "dScenario d" "action c" g] by (simp add: cursor_def addMessage_fields)
          with proceedToNextScenario_cursor[of ?g3 d] g' show ?thesis
            by simp
        qed
      qed
    qed
  qed
qed

lemma handleKeyPress_cursor:
  assumes "handleKeyPress key d g = Some g'"
    and "state g \<noteq> MENU" "state g \<noteq> GAME_OVER" "state g \<noteq> VICTORY"
  shows "cursor g \<le> cursor g'"
proof (cases "state g")
  case EXPLORING
  with assms(1) have "g' = g\<lparr>state := INVENTORY, inventorySelection := 0\<rparr> \<or> g' = g"
    by (cases "key = ''i'' \<or> key = ''I''") (simp_all add: handleKeyPress_def)
  then show ?thesis
    by (elim disjE) (simp_all add: cursor_def)
next
  case COMBAT
  with assms handleCombatInput_cursor[of key d g g'] show ?thesis
    by (simp add: handleKeyPress_def)
next
  case SCENARIO
  with assms handleScenarioInput_cursor[of key d g g'] show ?thesis
    by (simp add: handleKeyPress_def)
next
  case INVENTORY
  with assms(1) have "g' = handleInventoryInput key g"
    by (simp add: handleKeyPress_def)
  then show ?thesis
    by (simp add: cursor_def handleInventoryInput_keeps)
next
  case LEVEL_UP
  with assms(1) have "g' = handleLevelUpInput key g"
    by (simp add: handleKeyPress_def)
  then show ?thesis
    by (simp add: cursor_def handleLevelUpInput_keeps)
qed (use assms in simp_all)

lemma fireTimer_cursor:
  assumes "fireTimer d g = Some g'"
  shows "cursor g \<le> cursor g'"
proof (cases "timers g = 0")
  case True
  with assms show ?thesis
    by (simp add: fireTimer_def)
next
  case False
  with assms obtain e where e: "currentEnemy g = Some e"
    by (cases "currentEnemy g") (simp_all add: fireTimer_def enemyTurnCallback_def)
  let ?g0 = "g\<lparr>timers := timers g - 1\<rparr>"
  let ?r = "enemyTurn (dAI d) (dDamage d) (dDodge d) (player ?g0) e (combatSystem ?g0)"
  from assms False e
  have "checkCombatEnd d (?g0\<lparr>player := fst (snd ?r), combatSystem := endTurn (snd (snd ?r))\<rparr>) = Some g'"
    by (simp add: fireTimer_def enemyTurnCallback_def split_beta Let_def)
  from checkCombatEnd_cursor[OF this] show ?thesis
    by (simp add: cursor_def)
qed

text \<open>The first key of a game: the path of light is chosen and the cursor moves to 1.\<close>

lemma first_key_cursor:
  "handleKeyPress ''Enter'' zeroDraws (startGame Game_new) \<noteq> None
   \<and> state (startGame Game_new) = SCENARIO
   \<and> cursor (startGame Game_new) = 0
   \<and> cursor (the (handleKeyPress ''Enter'' zeroDraws (startGame Game_new))) = 1"
proof -
  let ?g = "startGame Game_new"
  have s: "state ?g = SCENARIO" "Game.currentScenario ?g = Some entrance" "selectedOption ?g = 0"
    by (simp_all add: startGame_def)
  have c: "element (choices entrance) 0 = Some \<lparr>choiceText = ''Take the Path of Light'', action = TakeLight\<rparr>"
    "\<not> combat entrance"
    by (simp_all add: entrance_def Scenario_new_def element_def)
  have sm: "scenarioManager (snd (runAction (dScenario zeroDraws) TakeLight ?g))
      = \<lparr>currentPath = Some ''light'', scenarioIndex = 0, currentScenario = entrance\<rparr>"
    by (simp add: runAction_def Let_def startGame_def Game_new_def ScenarioManager_reset_def ScenarioManager_new_def)
  have n: "getNextScenario r lvl \<lparr>currentPath = Some ''light'', scenarioIndex = 0, currentScenario = entrance\<rparr>
      = (Some lightShrine, \<lparr>currentPath = Some ''light'', scenarioIndex = 1, currentScenario = entrance\<rparr>)" for r lvl
    by (simp add: getNextScenario_def pathChosen_def lightPathSequence_def Let_def SCENARIOS_def)
  have k: "handleKeyPress ''Enter'' zeroDraws ?g
      = Some (proceedToNextScenario zeroDraws
          ((addMessage (fst (runAction (dScenario zeroDraws) TakeLight ?g))
              (snd (runAction (dScenario zeroDraws) TakeLight ?g)))\<lparr>selectedOption := 0\<rparr>))"
    by (simp add: handleKeyPress_def handleScenarioInput_def s c split_beta Let_def)
  have "cursor (the (handleKeyPress ''Enter'' zeroDraws ?g)) = 1"
    unfolding k by (simp add: cursor_def proceedToNextScenario_fields addMessage_fields sm n)
  moreover have "cursor ?g = 0"
    by (simp add: cursor_def startGame_def ScenarioManager_reset_def)
  ultimately show ?thesis
    using k s by simp
qed

section \<open>The experience within one playthrough\<close>

text \<open>
  The experience of a reachable game never reaches the 282 of level 2: every node of a
  sequence is read once, and the rewards of a path add up to at most 206 on the light path
  and 258 on the shadow path.
\<close>

lemma xpAhead_nonneg: "0 \<le> xpAhead sm"
  unfolding xpAhead_def by (rule sum_list_nonneg) (auto dest!: in_set_dropD split: if_splits)

lemma xpAhead_bound: "pathChosen (currentPath sm) \<Longrightarrow> xpAhead sm \<le> 258"
proof -
  have "sum_list (drop n xs) \<le> sum_list xs" if "\<forall>x \<in> set xs. 0 \<le> x" for n and xs :: "int list"
  proof -
    have "sum_list xs = sum_list (take n xs) + sum_list (drop n xs)"
      by (metis append_take_drop_id sum_list_append)
    moreover have "0 \<le> sum_list (take n xs)"
      using that by (intro sum_list_nonneg) (auto dest!: in_set_takeD)
    ultimately show ?thesis by simp
  qed
  from this[of "[0, 48, 30, 48, 80]" "scenarioIndex sm"] this[of "[40, 54, 0, 54, 110]" "scenarioIndex sm"]
  show ?thesis
    by (simp add: xpAhead_def)
qed

lemma fold_max_ge: "(m::int) \<le> fold max xs m"
  by (induction xs arbitrary: m) (auto intro: order_trans[OF max.cobounded2])

lemma fold_max_mem: "(x::int) \<in> set xs \<Longrightarrow> x \<le> fold max xs m"
proof (induction xs arbitrary: m)
  case Nil
  then show ?case by simp
next
  case (Cons a xs)
  show ?case
  proof (cases "x = a")
    case True
    have "a \<le> max a m" by simp
    also have "\<dots> \<le> fold max xs (max a m)" by (rule fold_max_ge)
    finally show ?thesis using True by simp
  next
    case False
    with Cons show ?thesis by simp
  qed
qed

lemma xpOfScenario_choice:
  "\<not> combat sc \<Longrightarrow> c \<in> set (choices sc) \<Longrightarrow> xpOfAction (action c) \<le> xpOfScenario sc"
  by (simp add: xpOfScenario_def fold_max_mem)

lemma xpOfScenario_nonneg: "\<not> combat sc \<Longrightarrow> 0 \<le> xpOfScenario sc"
  by (simp add: xpOfScenario_def fold_max_ge)

lemma plain_agility: "Player_plain p \<Longrightarrow> Stats.agility (getTotalStats p) = 5"
  by (simp add: Player_plain_def getTotalStats_def getEquippedStats_def addEquippedItem_def or0_def Let_def)

lemma Player_new_plain: "Player_plain Player_new"
  by (simp add: Player_plain_def Player_new_def addItem_def Inventory_new_def INVENTORY_SLOTS_def)

lemma catalogue_xp:
  "nodeAhead lightShrine" "xpOfScenario lightShrine = 0"
  "nodeAhead lightTreasure" "xpOfScenario lightTreasure = 30"
  "nodeAhead shadowRitual" "xpOfScenario shadowRitual = 40"
  "nodeAhead shadowAmbush" "xpOfScenario shadowAmbush = 0"
  by (simp_all add: nodeAhead_def noPathChoice_def xpOfScenario_def xpOfAction_def Scenario_new_def
      lightShrine_def lightTreasure_def shadowRitual_def shadowAmbush_def)

lemma combat_light_xp:
  assumes "currentPath sm = Some ''light''"
  shows "nodeAhead (createCombatScenario r 1 sm) \<and> xpOfScenario (createCombatScenario r 1 sm) \<le> 48"
  using randomChoice_pair[of r "''goblin''" "''knight''"] assms
  by (auto simp: createCombatScenario_def nodeAhead_def noPathChoice_def xpOfScenario_def Let_def
      ENEMY_TEMPLATES_def goblin_def knight_def Enemy_ahead_def Enemy_isAlive_def)

lemma combat_shadow_xp:
  assumes "currentPath sm \<noteq> Some ''light''"
  shows "nodeAhead (createCombatScenario r 1 sm) \<and> xpOfScenario (createCombatScenario r 1 sm) \<le> 54"
  using randomChoice_pair[of r "''shadowBeast''" "''darkMage''"] assms
  by (auto simp: createCombatScenario_def nodeAhead_def noPathChoice_def xpOfScenario_def Let_def
      ENEMY_TEMPLATES_def shadowBeast_def darkMage_def Enemy_ahead_def Enemy_isAlive_def)

lemma boss_xp:
  "nodeAhead (createBossScenario 1 sm)"
  "xpOfScenario (createBossScenario 1 sm) = (if currentPath sm = Some ''light'' then 80 else 110)"
  by (simp_all add: createBossScenario_def nodeAhead_def noPathChoice_def xpOfScenario_def Let_def
      ENEMY_TEMPLATES_def lightGuardian_def shadowLord_def Enemy_ahead_def Enemy_isAlive_def)

lemma getNextScenario_xp:
  assumes p: "pathChosen (currentPath sm)" and n: "getNextScenario r 1 sm = (Some sc, sm')"
  shows "nodeAhead sc \<and> xpOfScenario sc + xpAhead sm' \<le> xpAhead sm \<and> currentPath sm' = currentPath sm"
proof -
  let ?seq = "if currentPath sm = Some ''light'' then lightPathSequence else shadowPathSequence"
  let ?sm = "sm\<lparr>scenarioIndex := scenarioIndex sm + 1\<rparr>"
  from p n have i: "scenarioIndex sm < 5"
    by (simp add: getNextScenario_def Let_def lightPathSequence_def shadowPathSequence_def split: if_splits)
  from p n i have sm': "sm' = ?sm"
    by (simp add: getNextScenario_def Let_def lightPathSequence_def shadowPathSequence_def split: if_splits)
  show ?thesis
  proof (cases "currentPath sm = Some ''light''")
    case True
    from below_5[OF i] show ?thesis
    proof (elim disjE)
      assume j: "scenarioIndex sm = 0"
      with p n True have "sc = lightShrine"
        by (auto simp: getNextScenario_def Let_def lightPathSequence_def SCENARIOS_def)
      with j True show ?thesis
        by (simp add: sm' catalogue_xp xpAhead_def)
    next
      assume j: "scenarioIndex sm = 1"
      with p n True have "sc = createCombatScenario r 1 ?sm"
        by (auto simp: getNextScenario_def Let_def lightPathSequence_def SCENARIOS_def)
      with j True combat_light_xp[of ?sm r] show ?thesis
        by (simp add: sm' xpAhead_def)
    next
      assume j: "scenarioIndex sm = 2"
      with p n True have "sc = lightTreasure"
        by (auto simp: getNextScenario_def Let_def lightPathSequence_def SCENARIOS_def)
      with j True show ?thesis
        by (simp add: sm' catalogue_xp xpAhead_def)
    next
      assume j: "scenarioIndex sm = 3"
      with p n True have "sc = createCombatScenario r 1 ?sm"
        by (auto simp: getNextScenario_def Let_def lightPathSequence_def SCENARIOS_def)
      with j True combat_light_xp[of ?sm r] show ?thesis
        by (simp add: sm' xpAhead_def)
    next
      assume j: "scenarioIndex sm = 4"
      with p n True have "sc = createBossScenario 1 ?sm"
        by (auto simp: getNextScenario_def Let_def lightPathSequence_def SCENARIOS_def)
      with j True show ?thesis
        by (simp add: sm' boss_xp xpAhead_def)
    qed
  next
    case False
    from below_5[OF i] show ?thesis
    proof (elim disjE)
      assume j: "scenarioIndex sm = 0"
      with p n False have "sc = shadowRitual"
        by (auto simp: getNextScenario_def Let_def shadowPathSequence_def SCENARIOS_def)
      with j False show ?thesis
        by (simp add: sm' catalogue_xp xpAhead_def)
    next
      assume j: "scenarioIndex sm = 1"
      with p n False have "sc = createCombatScenario r 1 ?sm"
        by (auto simp: getNextScenario_def Let_def shadowPathSequence_def SCENARIOS_def)
      with j False combat_shadow_xp[of ?sm r] show ?thesis
        by (simp add: sm' xpAhead_def)
    next
      assume j: "scenarioIndex sm = 2"
      with p n False have "sc = shadowAmbush"
        by (auto simp: getNextScenario_def Let_def shadowPathSequence_def SCENARIOS_def)
      with j False show ?thesis
        by (simp add: sm' catalogue_xp xpAhead_def)
    next
      assume j: "scenarioIndex sm = 3"
      with p n False have "sc = createCombatScenario r 1 ?sm"
        by (auto simp: getNextScenario_def Let_def shadowPathSequence_def SCENARIOS_def)
      with j False combat_shadow_xp[of ?sm r] show ?thesis
        by (simp add: sm' xpAhead_def)
    next
      assume j: "scenarioIndex sm = 4"
      with p n False have "sc = createBossScenario 1 ?sm"
        by (auto simp: getNextScenario_def Let_def shadowPathSequence_def SCENARIOS_def)
      with j False show ?thesis
        by (simp add: sm' boss_xp xpAhead_def)
    qed
  qed
qed

lemma Game_xp_idle: "state g \<noteq> LEVEL_UP \<Longrightarrow> state g \<noteq> SCENARIO \<Longrightarrow> state g \<noteq> COMBAT \<Longrightarrow> Game_xp g"
  by (simp add: Game_xp_def)

lemma Game_xp_cong:
  assumes "state g' = state g" "player g' = player g" "scenarioManager g' = scenarioManager g"
    "currentEnemy g' = currentEnemy g" "Game.currentScenario g' = Game.currentScenario g"
  shows "Game_xp g' = Game_xp g"
  using assms by (simp add: Game_xp_def cong: option.case_cong)

lemma Game_xp_combatD:
  assumes "Game_xp g" "state g = COMBAT"
  shows "Player_plain (player g)" "pathChosen (currentPath (scenarioManager g))"
    "\<exists>e. currentEnemy g = Some e \<and> Enemy_ahead e \<and> xp (player g) + xpReward e + xpAhead (scenarioManager g) \<le> 258"
  using assms by (simp_all add: Game_xp_def split: option.splits)

lemma addXP_below: "Player.level p = 1 \<Longrightarrow> xp p + n < 282 \<Longrightarrow> addXP n p = (False, p\<lparr>xp := xp p + n\<rparr>)"
  by (simp add: addXP_def Let_def calculateXPForLevel_2)

lemma proceed_xp:
  assumes u: "Player_plain (player g)" and p: "pathChosen (currentPath (scenarioManager g))"
    and x: "xp (player g) + xpAhead (scenarioManager g) \<le> 258"
  shows "Game_xp (proceedToNextScenario d g)"
proof -
  from u have l: "Player.level (player g) = 1"
    by (simp add: Player_plain_def)
  let ?n = "getNextScenario (dEncounter d) 1 (scenarioManager g)"
  show ?thesis
  proof (cases "fst ?n")
    case None
    with proceedToNextScenario_state[of d g] l have "state (proceedToNextScenario d g) = VICTORY"
      by simp
    then show ?thesis
      by (simp add: Game_xp_def)
  next
    case (Some sc)
    then have n: "?n = (Some sc, snd ?n)"
      by (simp add: prod_eq_iff)
    from getNextScenario_xp[OF p n] have a: "nodeAhead sc"
      "xpOfScenario sc + xpAhead (snd ?n) \<le> xpAhead (scenarioManager g)"
      "currentPath (snd ?n) = currentPath (scenarioManager g)"
      by simp_all
    from proceedToNextScenario_state[of d g] Some l
    have s: "state (proceedToNextScenario d g) = SCENARIO"
      "Game.currentScenario (proceedToNextScenario d g) = Some sc"
      by simp_all
    from a s u p x show ?thesis
      by (simp add: Game_xp_def proceedToNextScenario_fields l)
  qed
qed

lemma runAction_xp:
  assumes u: "Player_plain (player g)" and x: "xp (player g) + xpOfAction a < 282"
  shows "Player_plain (player (snd (runAction r a g)))"
    "xp (player (snd (runAction r a g))) = xp (player g) + xpOfAction a"
proof -
  from u have l: "Player.level (player g) = 1"
    by (simp add: Player_plain_def)
  from u have ag: "\<not> 10 \<le> Stats.agility (getTotalStats (player g))"
    by (simp add: plain_agility)
  have "Player_plain (player (snd (runAction r a g)))
      \<and> xp (player (snd (runAction r a g))) = xp (player g) + xpOfAction a"
  proof (cases a)
    case TreasureLeave
    with x have "addXP 30 (player g) = (False, (player g)\<lparr>xp := xp (player g) + 30\<rparr>)"
      by (intro addXP_below[OF l]) (simp add: xpOfAction_def)
    with u TreasureLeave show ?thesis
      by (simp add: runAction_def Let_def Player_plain_def xpOfAction_def)
  next
    case RitualDestroy
    with x have "addXP 40 (player g) = (False, (player g)\<lparr>xp := xp (player g) + 40\<rparr>)"
      by (intro addXP_below[OF l]) (simp add: xpOfAction_def)
    with u RitualDestroy show ?thesis
      by (simp add: runAction_def Let_def Player_plain_def xpOfAction_def)
  next
    case AmbushStealth
    with u ag show ?thesis
      by (simp add: runAction_def Let_def xpOfAction_def)
  qed (use u in \<open>simp_all add: runAction_def Let_def Player_plain_def xpOfAction_def addItem_def incStat_def\<close>)
  then show "Player_plain (player (snd (runAction r a g)))"
    "xp (player (snd (runAction r a g))) = xp (player g) + xpOfAction a"
    by simp_all
qed

lemma runAction_manager:
  "a \<noteq> TakeLight \<Longrightarrow> a \<noteq> TakeShadow \<Longrightarrow> scenarioManager (snd (runAction r a g)) = scenarioManager g"
  by (cases a) (simp_all add: runAction_def Let_def)

lemma runAction_path:
  "a = TakeLight \<or> a = TakeShadow \<Longrightarrow> pathChosen (currentPath (scenarioManager (snd (runAction r a g))))"
  by (auto simp: runAction_def Let_def pathChosen_def)

lemma element_mem: "element xs i = Some x \<Longrightarrow> x \<in> set xs"
  by (auto simp: element_def split: if_splits)

lemma entrance_choices: "c \<in> set (choices entrance) \<Longrightarrow> action c = TakeLight \<or> action c = TakeShadow"
  by (auto simp: entrance_def Scenario_new_def)

lemma entrance_facts: "\<not> combat entrance" "xpOfAction TakeLight = 0" "xpOfAction TakeShadow = 0"
  by (simp_all add: entrance_def Scenario_new_def xpOfAction_def)

lemma handleScenarioInput_xp:
  assumes x: "Game_xp g" and s: "state g = SCENARIO" and h: "handleScenarioInput key d g = Some g'"
  shows "Game_xp g'"
proof -
  from x s obtain sc where sc: "Game.currentScenario g = Some sc"
    by (auto simp: Game_xp_def split: option.splits)
  from x s have u: "Player_plain (player g)"
    by (simp add: Game_xp_def)
  let ?sm = "scenarioManager g"
  from x s sc have chosen: "nodeAhead sc \<and> xp (player g) + xpOfScenario sc + xpAhead ?sm \<le> 258"
    if "pathChosen (currentPath ?sm)"
    using that by (simp add: Game_xp_def)
  from x s sc have unchosen: "sc = entrance \<and> xp (player g) = 0"
    if "\<not> pathChosen (currentPath ?sm)"
    using that by (simp add: Game_xp_def)
  have sel: "Game_xp (g\<lparr>selectedOption := n\<rparr>)" for n
    using x by (simp add: Game_xp_cong[of "g\<lparr>selectedOption := n\<rparr>" g])
  show ?thesis
  proof (cases "combat sc")
    case True
    with unchosen entrance_facts(1) have p: "pathChosen (currentPath ?sm)"
      by blast
    from chosen[OF p] True obtain e where e: "enemy sc = Some e" "Enemy_ahead e"
      by (auto simp: nodeAhead_def split: option.splits)
    from chosen[OF p] True e have b: "xp (player g) + xpReward e + xpAhead ?sm \<le> 258"
      by (simp add: xpOfScenario_def)
    show ?thesis
    proof (cases "key = ''Enter''")
      case k: True
      with h sc True e have "g' = startCombat e g"
        by (simp add: handleScenarioInput_def)
      with u p e b show ?thesis
        by (simp add: Game_xp_def startCombat_def)
    next
      case False
      with h sc True have "g' = g"
        by (simp add: handleScenarioInput_def)
      with x show ?thesis by simp
    qed
  next
    case False
    show ?thesis
    proof (cases "key = ''ArrowUp''")
      case True
      with h sc False sel show ?thesis
        by (auto simp: handleScenarioInput_def)
    next
      case nu: False
      show ?thesis
      proof (cases "key = ''ArrowDown''")
        case True
        with h sc False nu sel show ?thesis
          by (auto simp: handleScenarioInput_def)
      next
        case nd: False
        show ?thesis
        proof (cases "key = ''Enter''")
          case ne: False
          with h sc False nu nd have "g' = g"
            by (simp add: handleScenarioInput_def)
          with x show ?thesis by simp
        next
          case True
          with h sc False nu nd obtain c where c: "element (choices sc) (selectedOption g) = Some c"
            by (cases "element (choices sc) (selectedOption g)") (simp_all add: handleScenarioInput_def)
          let ?a = "action c"
          let ?g1 = "snd (runAction (dScenario d) ?a g)"
          let ?g3 = "(addMessage (fst (runAction (dScenario d) ?a g)) ?g1)\<lparr>selectedOption := 0\<rparr>"
          from h sc False nu nd True c have g': "g' = proceedToNextScenario d ?g3"
            by (simp add: handleScenarioInput_def split_beta Let_def)
          from element_mem[OF c] have m: "c \<in> set (choices sc)" .
          have "Player_plain (player ?g3) \<and> pathChosen (currentPath (scenarioManager ?g3))
              \<and> xp (player ?g3) + xpAhead (scenarioManager ?g3) \<le> 258"
          proof (cases "pathChosen (currentPath ?sm)")
            case p: True
            from chosen[OF p] m have na: "?a \<noteq> TakeLight" "?a \<noteq> TakeShadow"
              by (auto simp: nodeAhead_def noPathChoice_def)
            from xpOfScenario_choice[OF False m] chosen[OF p] xpAhead_nonneg[of ?sm]
            have b: "xp (player g) + xpOfAction ?a + xpAhead ?sm \<le> 258"
              by simp
            with xpAhead_nonneg[of ?sm] have "xp (player g) + xpOfAction ?a < 282"
              by simp
            from runAction_xp[OF u this, of "dScenario d"] runAction_manager[OF na, of "dScenario d" g] p b
            show ?thesis
              by (simp add: addMessage_fields)
          next
            case p: False
            from unchosen[OF p] m entrance_choices have a: "?a = TakeLight \<or> ?a = TakeShadow"
              by simp
            with unchosen[OF p] have "xp (player g) + xpOfAction ?a < 282" "xpOfAction ?a = 0"
              by (auto simp: entrance_facts)
            with runAction_xp[OF u this(1), of "dScenario d"] runAction_path[OF a, of "dScenario d" g]
              unchosen[OF p] xpAhead_bound[of "scenarioManager ?g1"]
            show ?thesis
              by (simp add: addMessage_fields)
          qed
          then show ?thesis
            unfolding g' by (intro proceed_xp) simp_all
        qed
      qed
    qed
  qed
qed

lemma grantRewards_xp:
  assumes u: "Player_plain (player g)" and x: "xp (player g) + xpReward e < 282"
  shows "\<not> fst (grantRewards d e g)"
    "Player_plain (player (snd (grantRewards d e g)))"
    "xp (player (snd (grantRewards d e g))) = xp (player g) + xpReward e"
proof -
  from u have l: "Player.level (player g) = 1"
    by (simp add: Player_plain_def)
  note a = addXP_below[OF l x]
  show "\<not> fst (grantRewards d e g)"
    by (simp add: grantRewards_leveledUp a)
  show "Player_plain (player (snd (grantRewards d e g)))"
    using u by (simp add: grantRewards_player a Player_plain_def addItem_def)
  show "xp (player (snd (grantRewards d e g))) = xp (player g) + xpReward e"
    by (simp add: grantRewards_player a)
qed

lemma leaveCombat_xp:
  assumes u: "Player_plain (player g)" and p: "pathChosen (currentPath (scenarioManager g))"
    and x: "xp (player g) + xpAhead (scenarioManager g) \<le> 258"
  shows "Game_xp (leaveCombat d g)"
  unfolding leaveCombat_def using assms by (intro proceed_xp) (simp_all add: Player_plain_def)

lemma endCombat_xp:
  assumes u: "Player_plain (player g)" and p: "pathChosen (currentPath (scenarioManager g))"
    and e: "currentEnemy g = Some e" and r: "0 \<le> xpReward e"
    and x: "xp (player g) + xpReward e + xpAhead (scenarioManager g) \<le> 258"
    and h: "endCombat won d g = Some g'"
  shows "Game_xp g'"
proof (cases won)
  case False
  with h have "g' = leaveCombat d g"
    by (simp add: endCombat_def)
  with leaveCombat_xp[OF u p, of d] x r show ?thesis
    by simp
next
  case True
  from x xpAhead_nonneg[of "scenarioManager g"] have b: "xp (player g) + xpReward e < 282"
    by simp
  note gr = grantRewards_xp[OF u b, of d]
  let ?g3 = "snd (grantRewards d e g)"
  from h True endCombat_won[OF e, of d] gr(1)
  have g': "g' = (if wonOverBoss g then victory ?g3 else leaveCombat d ?g3)"
    by (simp add: wonOverBoss_def)
  show ?thesis
  proof (cases "wonOverBoss g")
    case True
    with g' show ?thesis
      by (simp add: Game_xp_def victory_fields)
  next
    case False
    with g' have "g' = leaveCombat d ?g3" by simp
    moreover have "Game_xp (leaveCombat d ?g3)"
      using gr p x by (intro leaveCombat_xp) (simp_all add: grantRewards_fields)
    ultimately show ?thesis by simp
  qed
qed

lemma checkCombatEnd_xp:
  assumes s: "state g = COMBAT"
    and u: "Player_plain (player g)" and p: "pathChosen (currentPath (scenarioManager g))"
    and e: "currentEnemy g = Some e" and r: "0 \<le> xpReward e"
    and x: "xp (player g) + xpReward e + xpAhead (scenarioManager g) \<le> 258"
    and h: "checkCombatEnd d g = Some g'"
  shows "Game_xp g'"
proof (cases "Enemy_isAlive e")
  case False
  with h e have "endCombat True d g = Some g'"
    by (simp add: checkCombatEnd_def)
  from endCombat_xp[OF u p e r x this] show ?thesis .
next
  case True
  with s u p e r x have i: "Game_xp g"
    by (simp add: Game_xp_def Enemy_ahead_def)
  have t: "Game_xp (g\<lparr>timers := n\<rparr>)" for n
    using i by (simp add: Game_xp_cong[of "g\<lparr>timers := n\<rparr>" g])
  have o: "Game_xp (gameOver g)"
    by (simp add: Game_xp_def gameOver_def)
  from h e True i t o show ?thesis
    by (auto simp: checkCombatEnd_def split: if_splits)
qed

lemma Enemy_takeDamage_fields:
  "xpReward (snd (Enemy_takeDamage n e)) = xpReward e" "loot (snd (Enemy_takeDamage n e)) = loot e"
  by (simp_all add: Enemy_takeDamage_def Let_def)

lemma playerAttack_fields:
  "xpReward (fst (snd (playerAttack r1 r2 p e cs))) = xpReward e"
  "loot (fst (snd (playerAttack r1 r2 p e cs))) = loot e"
  by (simp_all add: playerAttack_def Let_def split_beta Enemy_takeDamage_fields)

lemma playerSpecialAttack_fields:
  "xpReward (fst (snd (playerSpecialAttack r1 r2 p e cs))) = xpReward e"
  "loot (fst (snd (playerSpecialAttack r1 r2 p e cs))) = loot e"
  by (simp_all add: playerSpecialAttack_def Let_def split_beta Enemy_takeDamage_fields)

lemma Player_takeDamage_fields:
  "Player_plain (snd (Player_takeDamage n p)) = Player_plain p"
  "xp (snd (Player_takeDamage n p)) = xp p"
  by (simp_all add: Player_takeDamage_def Let_def Player_plain_def)

lemma enemyTurn_fields:
  "Player_plain (fst (snd (enemyTurn r1 r2 r3 p e cs))) = Player_plain p"
  "xp (fst (snd (enemyTurn r1 r2 r3 p e cs))) = xp p"
  by (simp_all add: enemyTurn_def Let_def split_beta Player_takeDamage_fields)

lemma executeCombatAction_xp:
  assumes x: "Game_xp g" and s: "state g = COMBAT" and h: "executeCombatAction n d g = Some g'"
  shows "Game_xp g'"
proof -
  note c = Game_xp_combatD[OF x s]
  from c(3) obtain e where e: "currentEnemy g = Some e" "Enemy_ahead e"
    "xp (player g) + xpReward e + xpAhead (scenarioManager g) \<le> 258"
    by blast
  from e(2) have r: "0 \<le> xpReward e"
    by (simp add: Enemy_ahead_def)
  have hit: "Game_xp g'"
    if "checkCombatEnd d (g\<lparr>currentEnemy := Some e', combatSystem := cs\<rparr>) = Some g'"
      and "xpReward e' = xpReward e" for e' cs
    using that c(1,2) e(3) r s
    by (intro checkCombatEnd_xp[where g = "g\<lparr>currentEnemy := Some e', combatSystem := cs\<rparr>" and e = e'
          and d = d]) simp_all
  have sys: "Game_xp g'" if "checkCombatEnd d (g\<lparr>combatSystem := cs\<rparr>) = Some g'" for cs
    using that c(1,2) e r s
    by (intro checkCombatEnd_xp[where g = "g\<lparr>combatSystem := cs\<rparr>" and e = e and d = d]) simp_all
  consider "n = 0" | "n = 1" | "n = 2" | "n = 3" | "n \<noteq> 0" "n \<noteq> 1" "n \<noteq> 2" "n \<noteq> 3"
    by blast
  then show ?thesis
  proof cases
    case 1
    with h e(1) show ?thesis
      by (intro hit[OF _ playerAttack_fields(1)]) (simp add: executeCombatAction_def split_beta)
  next
    case 2
    with h e(1) show ?thesis
      by (intro hit[OF _ playerSpecialAttack_fields(1)]) (simp add: executeCombatAction_def split_beta)
  next
    case 3
    with h show ?thesis
      by (auto simp: executeCombatAction_def Game_xp_def)
  next
    case 4
    let ?r = "attemptEscape (dEscape d) (player g) (currentEnemy g) (combatSystem g)"
    show ?thesis
    proof (cases "fst ?r")
      case True
      with h 4 have "endCombat False d (g\<lparr>combatSystem := snd ?r\<rparr>) = Some g'"
        by (simp add: executeCombatAction_def split_beta Let_def)
      from endCombat_xp[OF _ _ _ r _ this] c(1,2) e show ?thesis
        by simp
    next
      case False
      with h 4 have "checkCombatEnd d (g\<lparr>combatSystem := endTurn (snd ?r)\<rparr>) = Some g'"
        by (simp add: executeCombatAction_def split_beta Let_def)
      then show ?thesis
        by (rule sys)
    qed
  next
    case 5
    with h have "checkCombatEnd d (g\<lparr>combatSystem := combatSystem g\<rparr>) = Some g'"
      by (simp add: executeCombatAction_def)
    then show ?thesis
      by (rule sys)
  qed
qed

lemma handleCombatInput_xp:
  assumes x: "Game_xp g" and s: "state g = COMBAT" and h: "handleCombatInput key d g = Some g'"
  shows "Game_xp g'"
proof (cases "playerTurn (combatSystem g)")
  case False
  with h x show ?thesis
    by (simp add: handleCombatInput_def)
next
  case True
  have sel: "Game_xp (g\<lparr>selectedOption := n\<rparr>)" for n
    using x by (simp add: Game_xp_cong[of "g\<lparr>selectedOption := n\<rparr>" g])
  show ?thesis
  proof (cases "key = ''ArrowUp''")
    case u: True
    with h True sel show ?thesis
      by (auto simp: handleCombatInput_def)
  next
    case nu: False
    show ?thesis
    proof (cases "key = ''ArrowDown''")
      case dn: True
      with h True nu sel show ?thesis
        by (auto simp: handleCombatInput_def Let_def)
    next
      case nd: False
      show ?thesis
      proof (cases "key = ''Enter''")
        case en: True
        with h True nu nd have "executeCombatAction (selectedOption g) d g = Some g'"
          by (simp add: handleCombatInput_def Let_def)
        from executeCombatAction_xp[OF x s this] show ?thesis .
      next
        case False
        with h True nu nd x show ?thesis
          by (simp add: handleCombatInput_def Let_def)
      qed
    qed
  qed
qed

lemma startGame_xp: "Game_xp (startGame g)"
  by (simp add: Game_xp_def startGame_def ScenarioManager_reset_def pathChosen_def Player_new_plain)
    (simp add: Player_new_def)

lemma handleKeyPress_xp:
  assumes x: "Game_xp g" and h: "handleKeyPress key d g = Some g'"
  shows "Game_xp g'"
proof (cases "state g")
  case MENU
  with h x startGame_xp[of g] show ?thesis
    by (auto simp: handleKeyPress_def split: if_splits)
next
  case EXPLORING
  with h show ?thesis
    by (auto simp: handleKeyPress_def Game_xp_def split: if_splits)
next
  case COMBAT
  with h handleCombatInput_xp[OF x COMBAT, of key d g'] show ?thesis
    by (simp add: handleKeyPress_def)
next
  case SCENARIO
  with h handleScenarioInput_xp[OF x SCENARIO, of key d g'] show ?thesis
    by (simp add: handleKeyPress_def)
next
  case INVENTORY
  with h handleInventoryInput_keeps(1)[of key g] show ?thesis
    by (auto simp: handleKeyPress_def Game_xp_def)
next
  case LEVEL_UP
  with x show ?thesis
    by (simp add: Game_xp_def)
next
  case GAME_OVER
  with h x show ?thesis
    by (auto simp: handleKeyPress_def Game_xp_def reset_def split: if_splits)
next
  case VICTORY
  with h x show ?thesis
    by (auto simp: handleKeyPress_def Game_xp_def reset_def split: if_splits)
qed

lemma fireTimer_xp:
  assumes x: "Game_xp g" and i: "Game_inv g" and h: "fireTimer d g = Some g'"
  shows "Game_xp g'"
proof (cases "timers g = 0")
  case True
  with h x show ?thesis
    by (simp add: fireTimer_def)
next
  case False
  with i have s: "state g = COMBAT"
    by (auto simp: Game_inv_def)
  note c = Game_xp_combatD[OF x s]
  from c(3) obtain e where e: "currentEnemy g = Some e" "Enemy_ahead e"
    "xp (player g) + xpReward e + xpAhead (scenarioManager g) \<le> 258"
    by blast
  from e(2) have r: "0 \<le> xpReward e"
    by (simp add: Enemy_ahead_def)
  let ?g0 = "g\<lparr>timers := timers g - 1\<rparr>"
  let ?t = "enemyTurn (dAI d) (dDamage d) (dDodge d) (player ?g0) e (combatSystem ?g0)"
  let ?g1 = "?g0\<lparr>player := fst (snd ?t), combatSystem := endTurn (snd (snd ?t))\<rparr>"
  from h False e(1) have "checkCombatEnd d ?g1 = Some g'"
    by (simp add: fireTimer_def enemyTurnCallback_def split_beta Let_def)
  from checkCombatEnd_xp[OF _ _ _ _ r _ this] s c(1,2) e show ?thesis
    by (simp add: enemyTurn_fields)
qed

lemma Game_new_xp: "Game_xp Game_new"
  by (simp add: Game_xp_def Game_new_def)

lemma reachable_xp: "reachable g \<Longrightarrow> Game_xp g"
proof (induction rule: reachable.induct)
  case start
  show ?case by (rule Game_new_xp)
next
  case (key g k d g')
  from handleKeyPress_xp[OF key.IH key.hyps(2)] show ?case .
next
  case (timer g d g')
  from fireTimer_xp[OF timer.IH reachable_inv[OF timer.hyps(1)] timer.hyps(2)] show ?case .
qed

lemma reachable_no_levelUp: "reachable g \<Longrightarrow> state g \<noteq> LEVEL_UP"
  using reachable_xp[of g] by (auto simp: Game_xp_def)

section \<open>A run from the menu into a combat\<close>

lemma key_start: "handleKeyPress ''Enter'' zeroDraws Game_new = Some (startGame Game_new)"
  by (simp add: handleKeyPress_def Game_new_def)

lemma key_takeLight: "handleKeyPress ''Enter'' zeroDraws (startGame Game_new) = Some atShrine"
  by (simp add: handleKeyPress_def handleScenarioInput_def startGame_def Game_new_def entrance_def
      Scenario_new_def element_def runAction_def addMessage_def proceedToNextScenario_def
      getNextScenario_def pathChosen_def lightPathSequence_def SCENARIOS_def Let_def
      ScenarioManager_reset_def ScenarioManager_new_def atShrine_def zeroDraws_def lightShrine_def)

lemma key_down_shrine1: "handleKeyPress ''ArrowDown'' zeroDraws atShrine = Some (atShrine\<lparr>selectedOption := 1\<rparr>)"
  by (simp add: handleKeyPress_def handleScenarioInput_def atShrine_def lightShrine_def Scenario_new_def)

lemma key_down_shrine2: "handleKeyPress ''ArrowDown'' zeroDraws (atShrine\<lparr>selectedOption := 1\<rparr>)
    = Some (atShrine\<lparr>selectedOption := 2\<rparr>)"
  by (simp add: handleKeyPress_def handleScenarioInput_def atShrine_def lightShrine_def Scenario_new_def)

lemma key_continue: "handleKeyPress ''Enter'' zeroDraws (atShrine\<lparr>selectedOption := 2\<rparr>) = Some goblinAhead"
  by (simp add: handleKeyPress_def handleScenarioInput_def atShrine_def lightShrine_def Scenario_new_def
      element_def runAction_def addMessage_def proceedToNextScenario_def getNextScenario_def
      pathChosen_def lightPathSequence_def Let_def goblinAhead_def zeroDraws_def Player_new_def
      numeral_2_eq_2)

lemma goblin_first: "randomChoice zeroDraw [''goblin'', ''knight''] = ''goblin''"
  by (simp add: randomChoice_def Rep_zeroDraw)

lemma scenario_goblin:
  "createCombatScenario zeroDraw 1 \<lparr>currentPath = Some ''light'', scenarioIndex = 2, currentScenario = entrance\<rparr>
   = \<lparr>title = ''Enemy Encounter!'', description = ''A Goblin blocks your path!'', choices = [],
      combat = True, enemy = Some (goblin 1), isBoss = False\<rparr>"
  by (simp add: createCombatScenario_def goblin_first ENEMY_TEMPLATES_def Let_def) (simp add: goblin_def)

lemma agility_new: "Stats.agility (getTotalStats (Player_new\<lparr>chosenPath := Some ''light''\<rparr>)) = 5"
  by (simp add: getTotalStats_def getEquippedStats_def addEquippedItem_def Player_new_def
      addItem_def Inventory_new_def INVENTORY_SLOTS_def or0_def Let_def)

lemma key_fight: "handleKeyPress ''Enter'' zeroDraws goblinAhead = Some (inCombat\<lparr>selectedOption := 0\<rparr>)"
  by (simp add: handleKeyPress_def handleScenarioInput_def goblinAhead_def atShrine_def scenario_goblin
      startCombat_def CombatSystem_startCombat_def addLog_def CombatSystem_new_def agility_new Let_def
      inCombat_def)
    (simp add: goblin_def)

lemma key_down_combat1: "handleKeyPress ''ArrowDown'' zeroDraws (inCombat\<lparr>selectedOption := 0\<rparr>)
    = Some (inCombat\<lparr>selectedOption := 1\<rparr>)"
  by (simp add: handleKeyPress_def handleCombatInput_def inCombat_def goblinAhead_def atShrine_def)

lemma key_down_combat2: "handleKeyPress ''ArrowDown'' zeroDraws (inCombat\<lparr>selectedOption := 1\<rparr>) = Some inCombat"
  by (simp add: handleKeyPress_def handleCombatInput_def inCombat_def goblinAhead_def atShrine_def)

lemma run_to_combat:
  "pressKeys [''Enter'', ''Enter'', ''ArrowDown'', ''ArrowDown'', ''Enter'', ''Enter'', ''ArrowDown'', ''ArrowDown'']
     zeroDraws Game_new = Some inCombat"
  by (simp add: key_start key_takeLight key_down_shrine1 key_down_shrine2 key_continue key_fight key_down_combat1 key_down_combat2)

text \<open>The turn of the Goblin, pending on the timer after an action of the player, returns.\<close>

lemma timer_goblin:
  "fireTimer zeroDraws (inCombat\<lparr>combatSystem := endTurn (combatSystem inCombat), timers := 1\<rparr>) \<noteq> None"
  by (simp add: fireTimer_def enemyTurnCallback_def checkCombatEnd_def inCombat_def split_beta Let_def
      Enemy_isAlive_def goblin_def)













section \<open>The claims\<close>



text \<open>
  C2. The code departs from the claim when the inventory was opened from a combat. From
  the menu, with every draw 0, eight keys (start, the path of light, Continue forward at
  the shrine, fight, and down to Use Item) lead into a combat against a Goblin on the
  player's turn with Use Item selected. \<^verbatim>\<open>Enter\<close> opens the inventory without ending the
  turn; \<^verbatim>\<open>Escape\<close>, \<^verbatim>\<open>i\<close> and \<^verbatim>\<open>I\<close> then set the state to \<open>EXPLORING\<close>, not to
  \<open>COMBAT\<close>. No timer is pending there, and every run of keys from there on ends in
  \<open>EXPLORING\<close> or \<open>INVENTORY\<close> with the Goblin, alive, still the current enemy: the
  combat is never resumed and the playthrough cannot go on.
\<close>

theorem inventory_cancel_strands_combat:
  "pressKeys [''Enter'', ''Enter'', ''ArrowDown'', ''ArrowDown'', ''Enter'', ''Enter'', ''ArrowDown'', ''ArrowDown'']
     zeroDraws Game_new = Some inCombat
   \<and> state inCombat = COMBAT
   \<and> playerTurn (combatSystem inCombat)
   \<and> currentEnemy inCombat = Some (goblin 1)
   \<and> Enemy_isAlive (goblin 1)
   \<and> handleKeyPress ''Enter'' zeroDraws inCombat
       = Some (inCombat\<lparr>state := INVENTORY, inventorySelection := 0\<rparr>)
   \<and> handleKeyPress ''Escape'' d (inCombat\<lparr>state := INVENTORY, inventorySelection := 0\<rparr>)
       = Some (inCombat\<lparr>state := EXPLORING, inventorySelection := 0\<rparr>)
   \<and> handleKeyPress ''i'' d (inCombat\<lparr>state := INVENTORY, inventorySelection := 0\<rparr>)
       = Some (inCombat\<lparr>state := EXPLORING, inventorySelection := 0\<rparr>)
   \<and> handleKeyPress ''I'' d (inCombat\<lparr>state := INVENTORY, inventorySelection := 0\<rparr>)
       = Some (inCombat\<lparr>state := EXPLORING, inventorySelection := 0\<rparr>)
   \<and> fireTimer d (inCombat\<lparr>state := EXPLORING, inventorySelection := 0\<rparr>)
       = Some (inCombat\<lparr>state := EXPLORING, inventorySelection := 0\<rparr>)
   \<and> (case pressKeys ks d (inCombat\<lparr>state := EXPLORING, inventorySelection := 0\<rparr>) of
         None \<Rightarrow> False
       | Some g' \<Rightarrow> (state g' = EXPLORING \<or> state g' = INVENTORY) \<and> currentEnemy g' = Some (goblin 1))"
proof -
  let ?closed = "inCombat\<lparr>state := EXPLORING, inventorySelection := 0\<rparr>"
  have s: "state inCombat = COMBAT" "playerTurn (combatSystem inCombat)" "selectedOption inCombat = 2"
    "currentEnemy inCombat = Some (goblin 1)" "timers inCombat = 0"
    by (simp_all add: inCombat_def goblinAhead_def atShrine_def)
  have l: "Enemy_isAlive (goblin 1)"
    by (simp add: Enemy_isAlive_def goblin_def)
  have a: "handleKeyPress ''Enter'' zeroDraws inCombat
       = Some (inCombat\<lparr>state := INVENTORY, inventorySelection := 0\<rparr>)"
    by (simp add: handleKeyPress_def handleCombatInput_def executeCombatAction_def s)
  have b: "handleKeyPress key d (inCombat\<lparr>state := INVENTORY, inventorySelection := 0\<rparr>) = Some ?closed"
    if "key = ''Escape'' \<or> key = ''i'' \<or> key = ''I''" for key
    by (simp add: handleKeyPress_def handleInventoryInput_cancel[OF that])
  have t: "fireTimer d ?closed = Some ?closed"
    by (simp add: fireTimer_def s)
  have r: "case pressKeys ks d ?closed of
         None \<Rightarrow> False
       | Some g' \<Rightarrow> (state g' = EXPLORING \<or> state g' = INVENTORY) \<and> currentEnemy g' = Some (goblin 1)"
    using stranded_run[of ?closed ks d] by (simp add: s split: option.splits)
  from s l a b[of "''Escape''"] b[of "''i''"] b[of "''I''"] t r run_to_combat show ?thesis
    by simp
qed

text \<open>
  C3. Call a player sound when the health is within 0 and the maximum health and the
  maximum health is positive (it starts at 100 and only grows). A new player is sound.
  Every operation that changes the health of a sound player gives a sound player: taking
  damage, using an item (the health potion adds 30 up to the maximum), every action of a
  scenario choice (the prayer and the ritual floor the health at 1, three others add
  experience and may level up), adding experience, and levelling up. Taking damage leaves
  the maximum as it is, so the health after a damage application is within 0 and the
  maximum. An enemy whose health is within 0 and its maximum keeps that when it takes
  damage, and every template builds such an enemy at every level from 0 on. In every game
  that key events and timers lead to from a new game, the health of the player and of the
  current enemy is within its bounds.
\<close>

theorem health_bounds_preserved:
  assumes p: "Player_sound (player g)"
    and e: "Enemy_healthInRange e"
  shows "Player_healthInRange (player g)
    \<and> Player_sound (snd (Player_takeDamage amount (player g)))
    \<and> 0 \<le> Player.health (snd (Player_takeDamage amount (player g)))
    \<and> Player.health (snd (Player_takeDamage amount (player g))) \<le> Player.maxHealth (player g)
    \<and> Player_sound (snd (use item (player g)))
    \<and> Player_sound (player (snd (runAction r a g)))
    \<and> Player_sound (levelUp (player g))
    \<and> Player_sound (snd (addXP n (player g)))
    \<and> Enemy_healthInRange (snd (Enemy_takeDamage amount e))
    \<and> Player_sound Player_new
    \<and> (0 \<le> lvl \<longrightarrow> Enemy_healthInRange (goblin lvl) \<and> Enemy_healthInRange (knight lvl)
          \<and> Enemy_healthInRange (lightGuardian lvl) \<and> Enemy_healthInRange (shadowBeast lvl)
          \<and> Enemy_healthInRange (darkMage lvl) \<and> Enemy_healthInRange (shadowLord lvl))
    \<and> (reachable h \<longrightarrow> Player_healthInRange (player h)
          \<and> (case currentEnemy h of None \<Rightarrow> True | Some en \<Rightarrow> Enemy_healthInRange en))"
proof -
  have m: "Player.maxHealth (snd (Player_takeDamage amount (player g))) = Player.maxHealth (player g)"
    by (simp add: Player_takeDamage_def Let_def)
  from takeDamage_sound[OF p, of amount]
  have t: "0 \<le> Player.health (snd (Player_takeDamage amount (player g)))
      \<and> Player.health (snd (Player_takeDamage amount (player g))) \<le> Player.maxHealth (player g)"
    unfolding Player_sound_def Player_healthInRange_def m by simp
  from p have r: "Player_healthInRange (player g)"
    by (simp add: Player_sound_def)
  have h: "Player_healthInRange (player h)
      \<and> (case currentEnemy h of None \<Rightarrow> True | Some en \<Rightarrow> Enemy_healthInRange en)"
    if "reachable h"
    using reachable_inv[OF that] by (simp add: Game_inv_def Game_core_def Player_sound_def)
  show ?thesis
    using r t takeDamage_sound[OF p] use_sound[OF p] runAction_sound[OF p] levelUp_sound[OF p]
      addXP_sound[OF p] Enemy_takeDamage_range[OF e] Player_new_sound templates_range[of lvl] h
    by simp
qed

theorem health_bounds_preserved_witness:
  "Player_sound (player woundedGame)
   \<and> Enemy_healthInRange (goblin 1)
   \<and> Player_sound (snd (Player_takeDamage 50 (player woundedGame)))
   \<and> Player.health (snd (Player_takeDamage 50 (player woundedGame))) = 0
   \<and> Player_sound (snd (use healthPotion (player woundedGame)))
   \<and> Player.health (snd (use healthPotion (player woundedGame))) = 35
   \<and> Player_sound (player (snd (runAction zeroDraw ShrinePray woundedGame)))
   \<and> Player.health (player (snd (runAction zeroDraw ShrinePray woundedGame))) = 1
   \<and> Enemy_healthInRange (snd (Enemy_takeDamage 100 (goblin 1)))
   \<and> Enemy.health (snd (Enemy_takeDamage 100 (goblin 1))) = 0
   \<and> Enemy_healthInRange (shadowLord 2)
   \<and> reachable (startGame Game_new)
   \<and> Player_healthInRange (player (startGame Game_new))"
proof -
  have pw: "player woundedGame = Player_new\<lparr>Player.health := 5\<rparr>"
    by (simp add: woundedGame_def)
  have p: "Player_sound (player woundedGame)"
    by (simp add: pw Player_sound_def Player_healthInRange_def Player_new_def)
  have e: "Enemy_healthInRange (goblin 1)"
    by (simp add: Enemy_healthInRange_def goblin_def)
  have d: "Stats.defense (getTotalStats (Player_new\<lparr>Player.health := 5\<rparr>)) = 5"
    by (simp add: getTotalStats_def getEquippedStats_def addEquippedItem_def Player_new_def
        addItem_def Inventory_new_def INVENTORY_SLOTS_def or0_def Let_def)
  have v1: "Player.health (snd (Player_takeDamage 50 (player woundedGame))) = 0"
    by (simp add: pw Player_takeDamage_def d Let_def)
  have v2: "Player.health (snd (use healthPotion (player woundedGame))) = 35"
    by (simp add: pw use_def healthPotion_def runEffect_def Player_new_def)
  have v3: "Player.health (player (snd (runAction zeroDraw ShrinePray woundedGame))) = 1"
    by (simp add: pw runAction_def Let_def)
  have v4: "Enemy.health (snd (Enemy_takeDamage 100 (goblin 1))) = 0"
    by (simp add: Enemy_takeDamage_def goblin_def Let_def)
  have "handleKeyPress ''Enter'' zeroDraws Game_new = Some (startGame Game_new)"
    by (simp add: handleKeyPress_def Game_new_def)
  with reachable.start have re: "reachable (startGame Game_new)"
    by (rule reachable.key)
  note t = health_bounds_preserved[OF p e, of 50 healthPotion zeroDraw ShrinePray 0 2 "startGame Game_new"]
  note u = health_bounds_preserved[OF p e, of 100 healthPotion zeroDraw ShrinePray 0 2 "startGame Game_new"]
  from t u p e v1 v2 v3 v4 re show ?thesis
    by simp
qed

text \<open>
  C4. Applying damage, for the player and for an enemy and for every raw amount: the
  mitigation is the floor of half the effective defense (for the player the defense of
  \<open>getTotalStats\<close>, for an enemy its own), the final damage is the maximum of 1 and
  the raw amount less the mitigation, so it is never below 1; the health drops by the final
  damage and stops at 0, nothing else changes, and the final damage is returned. An enemy
  of defense 4 takes 3 from a raw attack of 5.
\<close>

theorem takeDamage_final_damage:
  "fst (Player_takeDamage amount p)
     = max 1 (amount - \<lfloor>real_of_int (Stats.defense (getTotalStats p)) * 0.5\<rfloor>)
   \<and> 1 \<le> fst (Player_takeDamage amount p)
   \<and> snd (Player_takeDamage amount p)
       = p\<lparr>Player.health := max 0 (Player.health p - fst (Player_takeDamage amount p))\<rparr>
   \<and> fst (Enemy_takeDamage amount e) = max 1 (amount - \<lfloor>Enemy.defense e * 0.5\<rfloor>)
   \<and> 1 \<le> fst (Enemy_takeDamage amount e)
   \<and> snd (Enemy_takeDamage amount e)
       = e\<lparr>Enemy.health := max 0 (Enemy.health e - fst (Enemy_takeDamage amount e))\<rparr>
   \<and> fst (Enemy_takeDamage 5 (e\<lparr>Enemy.defense := 4\<rparr>)) = 3"
  by (simp add: Player_takeDamage_def Enemy_takeDamage_def Let_def)

text \<open>
  C5. A call of \<open>getNextScenario\<close> never lowers the cursor and never moves it beyond the
  length of the sequence. Before a path is chosen it returns the entrance and leaves the
  manager as it is; with a path chosen and the sequence exhausted it returns \<^verbatim>\<open>null\<close>
  and leaves the manager as it is; with a path chosen and the cursor below the length it
  returns a scenario and moves the cursor by one. Over any run of calls and path choices
  the cursor never decreases, stays within the length, and the positions read by the
  calls are strictly increasing, so none is read twice. In the game the cursor never
  decreases under a timer or a key, except under the keys that start or reset a game
  (in the menu, on the game-over and on the victory screen).
\<close>

theorem progression_cursor:
  "scenarioIndex sm \<le> scenarioIndex (snd (getNextScenario r lvl sm))
   \<and> (scenarioIndex sm \<le> length (pathSequence sm)
        \<longrightarrow> scenarioIndex (snd (getNextScenario r lvl sm)) \<le> length (pathSequence sm))
   \<and> (\<not> pathChosen (currentPath sm) \<longrightarrow> getNextScenario r lvl sm = (Some entrance, sm))
   \<and> (pathChosen (currentPath sm) \<and> length (pathSequence sm) \<le> scenarioIndex sm
        \<longrightarrow> getNextScenario r lvl sm = (None, sm))
   \<and> (pathChosen (currentPath sm) \<and> scenarioIndex sm < length (pathSequence sm)
        \<longrightarrow> fst (getNextScenario r lvl sm) \<noteq> None
            \<and> snd (getNextScenario r lvl sm) = sm\<lparr>scenarioIndex := scenarioIndex sm + 1\<rparr>)
   \<and> scenarioIndex sm \<le> scenarioIndex (cursorRun evs sm)
   \<and> (scenarioIndex sm \<le> length (pathSequence sm)
        \<longrightarrow> scenarioIndex (cursorRun evs sm) \<le> length (pathSequence sm))
   \<and> sorted_wrt (<) (readIndices evs sm)
   \<and> distinct (readIndices evs sm)
   \<and> (handleKeyPress key d g = Some g' \<and> state g \<noteq> MENU \<and> state g \<noteq> GAME_OVER \<and> state g \<noteq> VICTORY
        \<longrightarrow> cursor g \<le> cursor g')
   \<and> (fireTimer d g = Some g' \<longrightarrow> cursor g \<le> cursor g')"
proof -
  have adv: "fst (getNextScenario r lvl sm) \<noteq> None
      \<and> snd (getNextScenario r lvl sm) = sm\<lparr>scenarioIndex := scenarioIndex sm + 1\<rparr>"
    if "pathChosen (currentPath sm)" and "scenarioIndex sm < length (pathSequence sm)"
    using getNextScenario_advance[OF that, of r lvl] by auto
  have d: "distinct (readIndices evs sm)"
    using readIndices_increasing[of evs sm] by (simp add: strict_sorted_iff)
  show ?thesis
    using adv d getNextScenario_index_mono[of sm r lvl] getNextScenario_index_bound[of sm r lvl]
      getNextScenario_unchosen[of sm r lvl] getNextScenario_exhausted[of sm r lvl]
      cursorRun_mono[of sm evs] cursorRun_bound[of sm evs] readIndices_increasing[of evs sm]
      handleKeyPress_cursor[of key d g g'] fireTimer_cursor[of d g g']
    by (simp add: length_pathSequence)
qed

theorem progression_cursor_witness:
  "\<not> pathChosen (currentPath ScenarioManager_new)
   \<and> getNextScenario zeroDraw 1 ScenarioManager_new = (Some entrance, ScenarioManager_new)
   \<and> pathChosen (currentPath lightDone) \<and> length (pathSequence lightDone) \<le> scenarioIndex lightDone
   \<and> getNextScenario zeroDraw 1 lightDone = (None, lightDone)
   \<and> scenarioIndex (snd (getNextScenario zeroDraw 1 lightDone)) \<le> length (pathSequence lightDone)
   \<and> pathChosen (currentPath (lightDone\<lparr>scenarioIndex := 4\<rparr>))
   \<and> scenarioIndex (lightDone\<lparr>scenarioIndex := 4\<rparr>) < length (pathSequence (lightDone\<lparr>scenarioIndex := 4\<rparr>))
   \<and> snd (getNextScenario zeroDraw 1 (lightDone\<lparr>scenarioIndex := 4\<rparr>)) = lightDone
   \<and> readIndices playthroughEvents ScenarioManager_new = [0, 1]
   \<and> sorted_wrt (<) (readIndices playthroughEvents ScenarioManager_new)
   \<and> state (startGame Game_new) = SCENARIO
   \<and> handleKeyPress ''Enter'' zeroDraws (startGame Game_new) \<noteq> None
   \<and> cursor (startGame Game_new)
       \<le> cursor (the (handleKeyPress ''Enter'' zeroDraws (startGame Game_new)))
   \<and> fireTimer zeroDraws (inCombat\<lparr>combatSystem := endTurn (combatSystem inCombat), timers := 1\<rparr>) \<noteq> None
   \<and> cursor (inCombat\<lparr>combatSystem := endTurn (combatSystem inCombat), timers := 1\<rparr>)
       \<le> cursor (the (fireTimer zeroDraws (inCombat\<lparr>combatSystem := endTurn (combatSystem inCombat), timers := 1\<rparr>)))"
proof -
  have a: "\<not> pathChosen (currentPath ScenarioManager_new)"
    by (simp add: ScenarioManager_new_def pathChosen_def)
  have b: "pathChosen (currentPath lightDone)" "length (pathSequence lightDone) \<le> scenarioIndex lightDone"
    by (simp_all add: lightDone_def pathChosen_def length_pathSequence)
  have c: "pathChosen (currentPath (lightDone\<lparr>scenarioIndex := 4\<rparr>))"
    "scenarioIndex (lightDone\<lparr>scenarioIndex := 4\<rparr>) < length (pathSequence (lightDone\<lparr>scenarioIndex := 4\<rparr>))"
    by (simp_all add: lightDone_def pathChosen_def length_pathSequence)
  have e: "lightDone\<lparr>scenarioIndex := 4\<rparr>\<lparr>scenarioIndex := scenarioIndex (lightDone\<lparr>scenarioIndex := 4\<rparr>) + 1\<rparr> = lightDone"
    by (simp add: lightDone_def)
  have r: "readIndices playthroughEvents ScenarioManager_new = [0, 1]"
    by (simp add: playthroughEvents_def ScenarioManager_new_def pathChosen_def getNextScenario_def
        pathSequence_def lightPathSequence_def Let_def SCENARIOS_def)
  note t1 = progression_cursor[where sm = ScenarioManager_new and r = zeroDraw and lvl = 1 and evs = playthroughEvents
      and key = "''Enter''" and d = zeroDraws and g = Game_new and g' = Game_new]
  note t2 = progression_cursor[where sm = lightDone and r = zeroDraw and lvl = 1 and evs = playthroughEvents
      and key = "''Enter''" and d = zeroDraws and g = Game_new and g' = Game_new]
  note t3 = progression_cursor[where sm = "lightDone\<lparr>scenarioIndex := 4\<rparr>" and r = zeroDraw and lvl = 1
      and evs = playthroughEvents and key = "''Enter''" and d = zeroDraws and g = Game_new and g' = Game_new]
  from t1 a have w1: "getNextScenario zeroDraw 1 ScenarioManager_new = (Some entrance, ScenarioManager_new)"
    by blast
  from t2 b have w2: "getNextScenario zeroDraw 1 lightDone = (None, lightDone)"
    by blast
  from w2 have w3: "scenarioIndex (snd (getNextScenario zeroDraw 1 lightDone)) \<le> length (pathSequence lightDone)"
    by (simp add: length_pathSequence) (simp add: lightDone_def)
  from t3 c have "snd (getNextScenario zeroDraw 1 (lightDone\<lparr>scenarioIndex := 4\<rparr>))
      = lightDone\<lparr>scenarioIndex := 4\<rparr>\<lparr>scenarioIndex := scenarioIndex (lightDone\<lparr>scenarioIndex := 4\<rparr>) + 1\<rparr>"
    by blast
  then have w4: "snd (getNextScenario zeroDraw 1 (lightDone\<lparr>scenarioIndex := 4\<rparr>)) = lightDone"
    unfolding e .
  from t1 have w5: "sorted_wrt (<) (readIndices playthroughEvents ScenarioManager_new)"
    by blast
  from first_key_cursor obtain g1 where
    k: "handleKeyPress ''Enter'' zeroDraws (startGame Game_new) = Some g1"
    and s: "state (startGame Game_new) = SCENARIO"
    by auto
  note t4 = progression_cursor[where sm = lightDone and r = zeroDraw and lvl = 1 and evs = playthroughEvents
      and key = "''Enter''" and d = zeroDraws and g = "startGame Game_new" and g' = g1]
  from t4 k s have "cursor (startGame Game_new) \<le> cursor g1"
    by simp
  with k have w6: "handleKeyPress ''Enter'' zeroDraws (startGame Game_new) \<noteq> None
      \<and> cursor (startGame Game_new)
          \<le> cursor (the (handleKeyPress ''Enter'' zeroDraws (startGame Game_new)))"
    by simp
  from timer_goblin obtain g2 where
    f: "fireTimer zeroDraws (inCombat\<lparr>combatSystem := endTurn (combatSystem inCombat), timers := 1\<rparr>) = Some g2"
    by auto
  note t5 = progression_cursor[where sm = lightDone and r = zeroDraw and lvl = 1 and evs = playthroughEvents
      and key = "''Enter''" and d = zeroDraws
      and g = "inCombat\<lparr>combatSystem := endTurn (combatSystem inCombat), timers := 1\<rparr>" and g' = g2]
  from t5 f have "cursor (inCombat\<lparr>combatSystem := endTurn (combatSystem inCombat), timers := 1\<rparr>) \<le> cursor g2"
    by blast
  with f have w7: "fireTimer zeroDraws (inCombat\<lparr>combatSystem := endTurn (combatSystem inCombat), timers := 1\<rparr>) \<noteq> None
      \<and> cursor (inCombat\<lparr>combatSystem := endTurn (combatSystem inCombat), timers := 1\<rparr>)
          \<le> cursor (the (fireTimer zeroDraws (inCombat\<lparr>combatSystem := endTurn (combatSystem inCombat), timers := 1\<rparr>)))"
    by simp
  from a b c w1 w2 w3 w4 w5 w6 w7 r s show ?thesis
    by blast
qed

text \<open>
  C6. Let \<open>x\<close> be held, of a type that has a slot, in an inventory whose held list is
  within its capacity and has room for the slot's occupant if there is one. Then
  \<open>equip x\<close> followed by \<open>unequip\<close> of that slot both succeed, \<open>x\<close> is held again,
  the slot is empty and the other slots are as before, and the held list is, up to order,
  the list before the equip together with the former occupant of the slot; the items of the
  inventory, held or equipped, are those before the equip.
\<close>

theorem equip_unequip_roundtrip:
  assumes x: "x \<in> set (items ivt)"
    and slot: "slotOfType (Item.type x) = Some slot"
    and cap: "int (length (items ivt)) \<le> maxSlots ivt"
    and room: "getSlot slot (equipped ivt) \<noteq> None \<longrightarrow> int (length (items ivt)) < maxSlots ivt"
  shows "fst (equip x ivt) \<and> fst (unequip slot (snd (equip x ivt)))
    \<and> x \<in> set (items (snd (unequip slot (snd (equip x ivt)))))
    \<and> getSlot slot (equipped (snd (unequip slot (snd (equip x ivt))))) = None
    \<and> mset (items (snd (unequip slot (snd (equip x ivt))))) =
        mset (items ivt) + slotItems (getSlot slot (equipped ivt))
    \<and> equipped (snd (unequip slot (snd (equip x ivt)))) = setSlot slot None (equipped ivt)
    \<and> maxSlots (snd (unequip slot (snd (equip x ivt)))) = maxSlots ivt
    \<and> allItems (snd (unequip slot (snd (equip x ivt)))) = allItems ivt"
proof -
  let ?occ = "case getSlot slot (equipped ivt) of None \<Rightarrow> [] | Some old \<Rightarrow> [old]"
  let ?mid = "ivt\<lparr>items := remove1 x (items ivt) @ ?occ,
               equipped := setSlot slot (Some x) (equipped ivt)\<rparr>"
  have e: "equip x ivt = (True, ?mid)"
    by (rule equip_held[OF x slot room])
  have sl: "isSlot slot"
    using slotOfType_Some[OF slot] by blast
  have g: "getSlot slot (equipped ?mid) = Some x"
    using sl by (simp add: getSlot_setSlot)
  have len: "length (remove1 x (items ivt)) + 1 = length (items ivt)"
    using x length_pos_if_in_set[OF x] by (simp add: length_remove1)
  have "int (length (items ?mid)) < maxSlots ivt"
  proof (cases "getSlot slot (equipped ivt)")
    case None
    with cap len show ?thesis by simp
  next
    case (Some old)
    with room len show ?thesis by simp
  qed
  then have a: "addItem x (?mid\<lparr>equipped := setSlot slot None (equipped ?mid)\<rparr>)
      = (True, ?mid\<lparr>equipped := setSlot slot None (equipped ?mid), items := items ?mid @ [x]\<rparr>)"
    by (simp add: addItem_def)
  have u: "unequip slot ?mid =
     (True, ivt\<lparr>items := remove1 x (items ivt) @ ?occ @ [x],
               equipped := setSlot slot None (equipped ivt)\<rparr>)"
    unfolding unequip_def g using a by (simp add: Let_def setSlot_setSlot)
  have m: "mset (remove1 x (items ivt) @ ?occ @ [x]) =
        mset (items ivt) + slotItems (getSlot slot (equipped ivt))"
    using x by (simp add: slotItems_def split: option.split)
  have al: "allItems (ivt\<lparr>items := remove1 x (items ivt) @ ?occ @ [x],
               equipped := setSlot slot None (equipped ivt)\<rparr>) = allItems ivt"
    unfolding allItems_def using m slotItems_setSlot_None[OF sl, of "equipped ivt"]
    by (simp add: ac_simps)
  show ?thesis
    unfolding e snd_conv fst_conv u using m al sl by (simp add: getSlot_setSlot)
qed

theorem equip_unequip_roundtrip_witness:
  "ironSword \<in> set (items swordHeldDaggerEquipped)
   \<and> slotOfType (Item.type ironSword) = Some ''weapon''
   \<and> int (length (items swordHeldDaggerEquipped)) \<le> maxSlots swordHeldDaggerEquipped
   \<and> getSlot ''weapon'' (equipped swordHeldDaggerEquipped) \<noteq> None
   \<and> int (length (items swordHeldDaggerEquipped)) < maxSlots swordHeldDaggerEquipped
   \<and> fst (equip ironSword swordHeldDaggerEquipped)
   \<and> fst (unequip ''weapon'' (snd (equip ironSword swordHeldDaggerEquipped)))
   \<and> ironSword \<in> set (items (snd (unequip ''weapon'' (snd (equip ironSword swordHeldDaggerEquipped)))))
   \<and> getSlot ''weapon'' (equipped (snd (unequip ''weapon'' (snd (equip ironSword swordHeldDaggerEquipped))))) = None
   \<and> mset (items (snd (unequip ''weapon'' (snd (equip ironSword swordHeldDaggerEquipped)))))
       = {#ironSword, rustyDagger#}"
proof -
  have h1: "ironSword \<in> set (items swordHeldDaggerEquipped)"
    by (simp add: swordHeldDaggerEquipped_def)
  have h2: "slotOfType (Item.type ironSword) = Some ''weapon''"
    by (simp add: ironSword_def slotOfType_def)
  have h3: "int (length (items swordHeldDaggerEquipped)) \<le> maxSlots swordHeldDaggerEquipped"
    by (simp add: swordHeldDaggerEquipped_def)
  have h4: "getSlot ''weapon'' (equipped swordHeldDaggerEquipped) \<noteq> None"
    by (simp add: swordHeldDaggerEquipped_def getSlot_def)
  have h5: "int (length (items swordHeldDaggerEquipped)) < maxSlots swordHeldDaggerEquipped"
    by (simp add: swordHeldDaggerEquipped_def)
  have h6: "getSlot ''weapon'' (equipped swordHeldDaggerEquipped) = Some rustyDagger"
    by (simp add: swordHeldDaggerEquipped_def getSlot_def)
  have h7: "mset (items swordHeldDaggerEquipped) = {#ironSword#}"
    by (simp add: swordHeldDaggerEquipped_def)
  from h4 h5 have h8: "getSlot ''weapon'' (equipped swordHeldDaggerEquipped) \<noteq> None
      \<longrightarrow> int (length (items swordHeldDaggerEquipped)) < maxSlots swordHeldDaggerEquipped"
    by simp
  show ?thesis
    using equip_unequip_roundtrip[OF h1 h2 h3 h8] h1 h2 h3 h4 h5 unfolding h6 h7
    by (simp add: getSlot_setSlot isSlot_def slotItems_def)
qed

text \<open>
  C7. One call of \<open>levelUp\<close> raises the level by 1, the stat points by 3, each of the
  four base stats by 1 and the maximum health by 10, sets the health to the new maximum,
  and leaves the experience, the temporary stats, the inventory and the path as they were.
\<close>

theorem levelUp_effect:
  "Player.level (levelUp p) = Player.level p + 1
   \<and> statPoints (levelUp p) = statPoints p + 3
   \<and> Stats.strength (baseStats (levelUp p)) = Stats.strength (baseStats p) + 1
   \<and> Stats.defense (baseStats (levelUp p)) = Stats.defense (baseStats p) + 1
   \<and> Stats.agility (baseStats (levelUp p)) = Stats.agility (baseStats p) + 1
   \<and> intelligence (baseStats (levelUp p)) = intelligence (baseStats p) + 1
   \<and> Player.maxHealth (levelUp p) = Player.maxHealth p + 10
   \<and> Player.health (levelUp p) = Player.maxHealth p + 10
   \<and> xp (levelUp p) = xp p \<and> tempStats (levelUp p) = tempStats p
   \<and> inventory (levelUp p) = inventory p \<and> chosenPath (levelUp p) = chosenPath p"
  by (simp add: levelUp_def Let_def BASE_STAT_POINTS_def)

text \<open>
  C8. For a player whose stat points are not negative (they start at 0, grow by 3 and
  shrink only here): \<open>allocateStat\<close> returns \<open>False\<close> and the player unchanged when
  the stat points are 0 or the name is none of the four base stats; otherwise it returns
  \<open>True\<close>, the named base stat is one higher, the other three are as before, and the
  stat points are one lower. The stat points are never negative afterwards.
\<close>

theorem allocateStat_spec:
  assumes "0 \<le> statPoints p"
  shows "allocateStat stat p =
           (if statPoints p = 0 \<or> \<not> hasStat stat
            then (False, p)
            else (True, p\<lparr>baseStats :=
                    (baseStats p)\<lparr>Stats.strength := Stats.strength (baseStats p) + (if stat = ''strength'' then 1 else 0),
                                  Stats.defense := Stats.defense (baseStats p) + (if stat = ''defense'' then 1 else 0),
                                  Stats.agility := Stats.agility (baseStats p) + (if stat = ''agility'' then 1 else 0),
                                  intelligence := intelligence (baseStats p) + (if stat = ''intelligence'' then 1 else 0)\<rparr>,
                    statPoints := statPoints p - 1\<rparr>))
         \<and> 0 \<le> statPoints (snd (allocateStat stat p))"
proof (cases "statPoints p > 0 \<and> hasStat stat")
  case True
  then have "stat = ''strength'' \<or> stat = ''defense'' \<or> stat = ''agility'' \<or> stat = ''intelligence''"
    by (simp add: hasStat_def)
  then have "incStat stat 1 (baseStats p) =
      (baseStats p)\<lparr>Stats.strength := Stats.strength (baseStats p) + (if stat = ''strength'' then 1 else 0),
                    Stats.defense := Stats.defense (baseStats p) + (if stat = ''defense'' then 1 else 0),
                    Stats.agility := Stats.agility (baseStats p) + (if stat = ''agility'' then 1 else 0),
                    intelligence := intelligence (baseStats p) + (if stat = ''intelligence'' then 1 else 0)\<rparr>"
    by (elim disjE) (simp_all add: incStat_def)
  with True show ?thesis by (simp add: allocateStat_def)
next
  case False
  with assms show ?thesis by (simp add: allocateStat_def)
qed

theorem allocateStat_spec_witness:
  "0 \<le> statPoints (Player_new\<lparr>statPoints := 3\<rparr>)
   \<and> fst (allocateStat ''agility'' (Player_new\<lparr>statPoints := 3\<rparr>))
   \<and> Stats.agility (baseStats (snd (allocateStat ''agility'' (Player_new\<lparr>statPoints := 3\<rparr>)))) = 6
   \<and> Stats.strength (baseStats (snd (allocateStat ''agility'' (Player_new\<lparr>statPoints := 3\<rparr>)))) = 5
   \<and> statPoints (snd (allocateStat ''agility'' (Player_new\<lparr>statPoints := 3\<rparr>))) = 2
   \<and> 0 \<le> statPoints Player_new
   \<and> allocateStat ''agility'' Player_new = (False, Player_new)
   \<and> allocateStat ''luck'' (Player_new\<lparr>statPoints := 3\<rparr>) = (False, Player_new\<lparr>statPoints := 3\<rparr>)"
proof -
  have h1: "0 \<le> statPoints (Player_new\<lparr>statPoints := 3\<rparr>)"
    by simp
  have h2: "0 \<le> statPoints Player_new"
    by (simp add: Player_new_def)
  have s: "statPoints Player_new = 0" "Stats.agility (baseStats Player_new) = 5"
    "Stats.strength (baseStats Player_new) = 5"
    by (simp_all add: Player_new_def)
  have n: "hasStat ''agility''" "\<not> hasStat ''luck''"
    by (simp_all add: hasStat_def)
  show ?thesis
    using allocateStat_spec[OF h1, of "''agility''"] allocateStat_spec[OF h1, of "''luck''"]
      allocateStat_spec[OF h2, of "''agility''"] h2 s n
    by simp
qed

text \<open>
  C9. The dodge chance of the player is the minimum of 0.4 and 0.02 times the effective
  agility, that of an enemy the minimum of 0.3 and 0.015 times its agility; so the first
  is at most 0.4 and the second at most 0.3 whatever the agility.
\<close>

theorem getDodgeChance_capped:
  "Player_getDodgeChance p = min 0.4 (real_of_int (Stats.agility (getTotalStats p)) * 0.02)
   \<and> Player_getDodgeChance p \<le> 0.4
   \<and> Enemy_getDodgeChance e = min 0.3 (Enemy.agility e * 0.015)
   \<and> Enemy_getDodgeChance e \<le> 0.3"
  unfolding Player_getDodgeChance_def Enemy_getDodgeChance_def Let_def
  by (intro conjI refl min.cobounded1)

text \<open>
  C10, as stated, fails: when the held list already holds another reference to the
  equipped item, the item is still in the held list after the unequip. Here the held list
  is full (15 of 15), holds an Iron Sword, and a second Iron Sword is equipped.
\<close>

theorem unequip_full_counterexample:
  "maxSlots fullWithSecondSword \<le> int (length (items fullWithSecondSword))
   \<and> getSlot ''weapon'' (equipped fullWithSecondSword) = Some ironSword
   \<and> fst (unequip ''weapon'' fullWithSecondSword)
   \<and> getSlot ''weapon'' (equipped (snd (unequip ''weapon'' fullWithSecondSword))) = None
   \<and> ironSword \<in> set (items (snd (unequip ''weapon'' fullWithSecondSword)))"
  by (simp add: fullWithSecondSword_def unequip_def getSlot_def setSlot_def addItem_def Let_def)

text \<open>
  C10, amended. When the held list is full and the slot is occupied, \<open>unequip\<close> returns
  \<open>True\<close> and changes nothing but the slot, which it empties: the held list and the
  other slots are as before. The slot's reference to the item is dropped, so the item is
  referenced afterwards exactly where the held list or another slot referenced it
  before; if it was in neither, it is in no slot and not in the held list afterwards.
\<close>

theorem unequip_full_drops_reference:
  assumes full: "maxSlots ivt \<le> int (length (items ivt))"
    and occ: "getSlot slot (equipped ivt) = Some y"
  shows "unequip slot ivt = (True, ivt\<lparr>equipped := setSlot slot None (equipped ivt)\<rparr>)
    \<and> items (snd (unequip slot ivt)) = items ivt
    \<and> getSlot s (equipped (snd (unequip slot ivt)))
        = (if s = slot then None else getSlot s (equipped ivt))
    \<and> (y \<notin> set (items ivt) \<and> (\<forall>t. t \<noteq> slot \<longrightarrow> getSlot t (equipped ivt) \<noteq> Some y)
        \<longrightarrow> y \<notin> set (items (snd (unequip slot ivt)))
            \<and> (\<forall>t. getSlot t (equipped (snd (unequip slot ivt))) \<noteq> Some y))"
proof -
  have sl: "isSlot slot"
    by (rule getSlot_Some_slot[OF occ])
  have u: "unequip slot ivt = (True, ivt\<lparr>equipped := setSlot slot None (equipped ivt)\<rparr>)"
    using full occ by (simp add: unequip_def addItem_def Let_def)
  show ?thesis
    unfolding u snd_conv using sl by (simp add: getSlot_setSlot)
qed

theorem unequip_full_drops_reference_witness:
  "maxSlots fullOfPotions \<le> int (length (items fullOfPotions))
   \<and> getSlot ''weapon'' (equipped fullOfPotions) = Some ironSword
   \<and> fst (unequip ''weapon'' fullOfPotions)
   \<and> items (snd (unequip ''weapon'' fullOfPotions)) = replicate 15 healthPotion
   \<and> ironSword \<notin> set (items fullOfPotions)
   \<and> armor (equipped fullOfPotions) = None \<and> artifact (equipped fullOfPotions) = None
   \<and> ironSword \<notin> set (items (snd (unequip ''weapon'' fullOfPotions)))
   \<and> (\<forall>t. getSlot t (equipped (snd (unequip ''weapon'' fullOfPotions))) \<noteq> Some ironSword)"
proof -
  have h1: "maxSlots fullOfPotions \<le> int (length (items fullOfPotions))"
    by (simp add: fullOfPotions_def)
  have h2: "getSlot ''weapon'' (equipped fullOfPotions) = Some ironSword"
    by (simp add: fullOfPotions_def getSlot_def)
  have h3: "ironSword \<notin> set (items fullOfPotions)"
    by (simp add: fullOfPotions_def ironSword_def healthPotion_def)
  have h4: "\<forall>t. t \<noteq> ''weapon'' \<longrightarrow> getSlot t (equipped fullOfPotions) \<noteq> Some ironSword"
    by (simp add: fullOfPotions_def getSlot_def)
  have h5: "items fullOfPotions = replicate 15 healthPotion"
    by (simp add: fullOfPotions_def)
  note t = unequip_full_drops_reference[OF h1 h2, of "''weapon''"]
  from t have a: "fst (unequip ''weapon'' fullOfPotions)"
    by simp
  from t h5 have b: "items (snd (unequip ''weapon'' fullOfPotions)) = replicate 15 healthPotion"
    by simp
  from t h3 h4 have c: "ironSword \<notin> set (items (snd (unequip ''weapon'' fullOfPotions)))
      \<and> (\<forall>t. getSlot t (equipped (snd (unequip ''weapon'' fullOfPotions))) \<noteq> Some ironSword)"
    by blast
  have h6: "armor (equipped fullOfPotions) = None \<and> artifact (equipped fullOfPotions) = None"
    by (simp add: fullOfPotions_def)
  from a b c h1 h2 h3 h6 show ?thesis
    by blast
qed

end
